(* ===== verification/HN_Prelude.thy ===== *)
theory HN_Prelude
  imports Main "HOL-Library.Monad_Syntax" "HOL-Library.Word" "HOL-Library.Sublist"
begin

text \<open>
  Shared ground of the development: the memory-object primitives, the C string
  conventions and the generic lemmas that the component theories rely on.

  A C computation that may leave the defined part of the language (null dereference,
  access outside an object, use of an unterminated string, failed assertion) is a value of
  an option type: \<open>None\<close> is the faulting execution.  Sequencing is the option monad.
  Return codes of the program itself are ordinary values.
\<close>

named_theorems obj_simps \<open>evaluation of object reads and writes\<close>
named_theorems cstr_refine \<open>block-level string routine equals its string-level meaning\<close>

type_synonym byte = "8 word"
type_synonym u16 = "16 word"
type_synonym u32 = "32 word"
type_synonym u64 = "64 word"

text \<open>A memory object is the list of its cells; a pointer into it is an offset.\<close>

type_synonym 'a block = "'a list"

definition rd :: "'a block \<Rightarrow> int \<Rightarrow> 'a option" where
  "rd b i = (if 0 \<le> i \<and> i < int (length b) then Some (b ! nat i) else None)"

definition wr :: "'a block \<Rightarrow> int \<Rightarrow> 'a \<Rightarrow> 'a block option" where
  "wr b i x = (if 0 \<le> i \<and> i < int (length b) then Some (b[nat i := x]) else None)"

lemma rd_nat [obj_simps, simp]: "rd b (int i) = (if i < length b then Some (b ! i) else None)"
  by (simp add: rd_def)

lemma wr_nat [obj_simps, simp]:
  "wr b (int i) x = (if i < length b then Some (b[i := x]) else None)"
  by (simp add: wr_def)

lemma rd_neg [obj_simps]: "i < 0 \<Longrightarrow> rd b i = None"
  by (simp add: rd_def)

lemma rd_SomeD: "rd b i = Some x \<Longrightarrow> 0 \<le> i \<and> i < int (length b) \<and> x = b ! nat i"
  by (auto simp: rd_def split: if_splits)

lemma wr_length: "wr b i x = Some b' \<Longrightarrow> length b' = length b"
  by (auto simp: wr_def split: if_splits)

lemma rd_append_left: "0 \<le> i \<Longrightarrow> i < int (length a) \<Longrightarrow> rd (a @ b) i = Some (a ! nat i)"
  by (auto simp: rd_def nth_append nat_less_iff)

lemma rd_at_length: "rd (a @ x # b) (int (length a)) = Some x"
  by (simp add: rd_def)

declare bind_option_cong [fundef_cong]

text \<open>Bytes with a place in the character set that the source names by escapes.\<close>

abbreviation NUL :: char where "NUL \<equiv> CHR 0x00"
abbreviation TAB :: char where "TAB \<equiv> CHR 0x09"
abbreviation LF :: char where "LF \<equiv> CHR 0x0A"
abbreviation CR :: char where "CR \<equiv> CHR 0x0D"

text \<open>The string at the start of a block.\<close>

definition cstr :: "char block \<Rightarrow> string" where
  "cstr b = takeWhile (\<lambda>c. c \<noteq> NUL) b"

text \<open>
  A block holds a string when it starts with its characters followed by a NUL.  The cells
  after the terminator are whatever the object contains.
\<close>

definition holds :: "char block \<Rightarrow> string \<Rightarrow> bool" where
  "holds b s \<longleftrightarrow> NUL \<notin> set s \<and> length s < length b \<and> take (Suc (length s)) b = s @ [NUL]"

lemma holds_iff: "holds b s \<longleftrightarrow> NUL \<notin> set s \<and> (\<exists>r. b = s @ NUL # r)"
proof
  assume h: "holds b s"
  have "b = take (Suc (length s)) b @ drop (Suc (length s)) b" by simp
  with h have "b = s @ NUL # drop (Suc (length s)) b"
    unfolding holds_def by (metis append.assoc append_Cons append_Nil)
  with h show "NUL \<notin> set s \<and> (\<exists>r. b = s @ NUL # r)" unfolding holds_def by blast
qed (auto simp: holds_def)

lemma holdsE:
  assumes "holds b s"
  obtains r where "b = s @ NUL # r" and "NUL \<notin> set s"
  using assms by (auto simp: holds_iff)

lemma holdsI: "NUL \<notin> set s \<Longrightarrow> holds (s @ NUL # r) s"
  by (auto simp: holds_iff)

lemma takeWhile_upto: "x \<notin> set s \<Longrightarrow> takeWhile (\<lambda>c. c \<noteq> x) (s @ x # r) = s"
  by (induction s) auto

lemma holds_unique:
  assumes "holds b s" and "holds b t"
  shows "s = t"
proof -
  have *: "s = takeWhile (\<lambda>c. c \<noteq> NUL) b" if "holds b s" for s
  proof -
    from that obtain r where "b = s @ NUL # r" "NUL \<notin> set s" by (rule holdsE)
    then show ?thesis by (simp add: takeWhile_upto)
  qed
  from *[OF assms(1)] *[OF assms(2)] show ?thesis by simp
qed

text \<open>Small facts on lists that several components use.\<close>

lemma prefix_take_eq: "prefix p s \<longleftrightarrow> take (length p) s = p"
  by (metis append_eq_conv_conj prefix_def take_is_prefix)

lemma prefix_ConsD: "prefix (x # p) s \<longleftrightarrow> (\<exists>t. s = x # t \<and> prefix p t)"
  by (cases s) auto

lemma drop_Cons_nth: "i < length xs \<Longrightarrow> drop i xs = xs ! i # drop (Suc i) xs"
  by (rule Cons_nth_drop_Suc [symmetric])

lemma list_update_take_drop:
  "i < length xs \<Longrightarrow> xs[i := x] = take i xs @ x # drop (Suc i) xs"
  by (rule upd_conv_take_nth_drop)

lemma length_takeWhile_lt: "x \<in> set xs \<Longrightarrow> \<not> P x \<Longrightarrow> length (takeWhile P xs) < length xs"
  by (induction xs) auto

end
