(* ===== verification/Sha2.thy ===== *)
theory Sha2
  imports HN_Prelude
begin

unbundle bit_operations_syntax

text \<open>
  The SHA-2 implementation of src/lib/sha/sha2.c on a little-endian host: the byte-order
  macros, the six logical functions, the round constants, both forms of the transform (the
  rolled loop that is compiled by default and the unrolled macros), and the
  init/update/final/end interface of SHA-256, SHA-512 and SHA-384.  The context's buffer
  is a byte array that the transform reuses as its message schedule, as in the source.
\<close>

section \<open>Words and bytes\<close>

definition byte_of :: "nat \<Rightarrow> 'w::len word \<Rightarrow> byte" where
  "byte_of i w = ucast (drop_bit (8 * i) w)"

text \<open>Bytes of a word in host order, and the word a byte array denotes when cast.\<close>

definition le_bytes :: "nat \<Rightarrow> 'w::len word \<Rightarrow> byte list" where
  "le_bytes n w = map (\<lambda>i. byte_of i w) [0..<n]"

primrec le_load :: "byte list \<Rightarrow> 'w::len word" where
  "le_load [] = 0"
| "le_load (b # bs) = ucast b OR push_bit 8 (le_load bs)"

definition words32 :: "byte list \<Rightarrow> u32 list" where
  "words32 bs = map (\<lambda>j. le_load (take 4 (drop (4 * j) bs))) [0..<16]"

definition words64 :: "byte list \<Rightarrow> u64 list" where
  "words64 bs = map (\<lambda>j. le_load (take 8 (drop (8 * j) bs))) [0..<16]"

definition REVERSE32 :: "u32 \<Rightarrow> u32" where
  "REVERSE32 w =
     (let t = drop_bit 16 w OR push_bit 16 w
      in drop_bit 8 (t AND 0xff00ff00) OR push_bit 8 (t AND 0x00ff00ff))"

definition REVERSE64 :: "u64 \<Rightarrow> u64" where
  "REVERSE64 w =
     (let t1 = drop_bit 32 w OR push_bit 32 w;
          t2 = drop_bit 8 (t1 AND 0xff00ff00ff00ff00) OR push_bit 8 (t1 AND 0x00ff00ff00ff00ff)
      in drop_bit 16 (t2 AND 0xffff0000ffff0000) OR push_bit 16 (t2 AND 0x0000ffff0000ffff))"

definition ADDINC128 :: "u64 \<times> u64 \<Rightarrow> u64 \<Rightarrow> u64 \<times> u64" where
  "ADDINC128 w n = (let w0 = fst w + n in (w0, if w0 < n then snd w + 1 else snd w))"

text \<open>\<open>memcpy\<close> of a byte run into an array, at an offset where it fits.\<close>

definition overwrite :: "'a list \<Rightarrow> nat \<Rightarrow> 'a list \<Rightarrow> 'a list" where
  "overwrite xs i ys = take i xs @ ys @ drop (i + length ys) xs"

section \<open>The logical functions\<close>

definition shiftR :: "nat \<Rightarrow> 'w::len word \<Rightarrow> 'w word" where
  "shiftR b x = drop_bit b x"

definition S32 :: "nat \<Rightarrow> u32 \<Rightarrow> u32" where
  "S32 b x = drop_bit b x OR push_bit (32 - b) x"

definition S64 :: "nat \<Rightarrow> u64 \<Rightarrow> u64" where
  "S64 b x = drop_bit b x OR push_bit (64 - b) x"

definition Ch :: "'w::len word \<Rightarrow> 'w word \<Rightarrow> 'w word \<Rightarrow> 'w word" where
  "Ch x y z = (x AND y) XOR ((NOT x) AND z)"

definition Maj :: "'w::len word \<Rightarrow> 'w word \<Rightarrow> 'w word \<Rightarrow> 'w word" where
  "Maj x y z = (x AND y) XOR (x AND z) XOR (y AND z)"

definition Sigma0_256 :: "u32 \<Rightarrow> u32" where
  "Sigma0_256 x = S32 2 x XOR S32 13 x XOR S32 22 x"

definition Sigma1_256 :: "u32 \<Rightarrow> u32" where
  "Sigma1_256 x = S32 6 x XOR S32 11 x XOR S32 25 x"

definition sigma0_256 :: "u32 \<Rightarrow> u32" where
  "sigma0_256 x = S32 7 x XOR S32 18 x XOR shiftR 3 x"

definition sigma1_256 :: "u32 \<Rightarrow> u32" where
  "sigma1_256 x = S32 17 x XOR S32 19 x XOR shiftR 10 x"

definition Sigma0_512 :: "u64 \<Rightarrow> u64" where
  "Sigma0_512 x = S64 28 x XOR S64 34 x XOR S64 39 x"

definition Sigma1_512 :: "u64 \<Rightarrow> u64" where
  "Sigma1_512 x = S64 14 x XOR S64 18 x XOR S64 41 x"

definition sigma0_512 :: "u64 \<Rightarrow> u64" where
  "sigma0_512 x = S64 1 x XOR S64 8 x XOR shiftR 7 x"

definition sigma1_512 :: "u64 \<Rightarrow> u64" where
  "sigma1_512 x = S64 19 x XOR S64 61 x XOR shiftR 6 x"

section \<open>Constants\<close>

definition K256 :: "u32 list" where
  "K256 = concat [
     [0x428a2f98, 0x71374491, 0xb5c0fbcf, 0xe9b5dba5],
     [0x3956c25b, 0x59f111f1, 0x923f82a4, 0xab1c5ed5],
     [0xd807aa98, 0x12835b01, 0x243185be, 0x550c7dc3],
     [0x72be5d74, 0x80deb1fe, 0x9bdc06a7, 0xc19bf174],
     [0xe49b69c1, 0xefbe4786, 0x0fc19dc6, 0x240ca1cc],
     [0x2de92c6f, 0x4a7484aa, 0x5cb0a9dc, 0x76f988da],
     [0x983e5152, 0xa831c66d, 0xb00327c8, 0xbf597fc7],
     [0xc6e00bf3, 0xd5a79147, 0x06ca6351, 0x14292967],
     [0x27b70a85, 0x2e1b2138, 0x4d2c6dfc, 0x53380d13],
     [0x650a7354, 0x766a0abb, 0x81c2c92e, 0x92722c85],
     [0xa2bfe8a1, 0xa81a664b, 0xc24b8b70, 0xc76c51a3],
     [0xd192e819, 0xd6990624, 0xf40e3585, 0x106aa070],
     [0x19a4c116, 0x1e376c08, 0x2748774c, 0x34b0bcb5],
     [0x391c0cb3, 0x4ed8aa4a, 0x5b9cca4f, 0x682e6ff3],
     [0x748f82ee, 0x78a5636f, 0x84c87814, 0x8cc70208],
     [0x90befffa, 0xa4506ceb, 0xbef9a3f7, 0xc67178f2]]"

definition sha256_initial_hash_value :: "u32 list" where
  "sha256_initial_hash_value =
    [0x6a09e667, 0xbb67ae85, 0x3c6ef372, 0xa54ff53a,
     0x510e527f, 0x9b05688c, 0x1f83d9ab, 0x5be0cd19]"

definition K512 :: "u64 list" where
  "K512 = concat [
     [0x428a2f98d728ae22, 0x7137449123ef65cd],
     [0xb5c0fbcfec4d3b2f, 0xe9b5dba58189dbbc],
     [0x3956c25bf348b538, 0x59f111f1b605d019],
     [0x923f82a4af194f9b, 0xab1c5ed5da6d8118],
     [0xd807aa98a3030242, 0x12835b0145706fbe],
     [0x243185be4ee4b28c, 0x550c7dc3d5ffb4e2],
     [0x72be5d74f27b896f, 0x80deb1fe3b1696b1],
     [0x9bdc06a725c71235, 0xc19bf174cf692694],
     [0xe49b69c19ef14ad2, 0xefbe4786384f25e3],
     [0x0fc19dc68b8cd5b5, 0x240ca1cc77ac9c65],
     [0x2de92c6f592b0275, 0x4a7484aa6ea6e483],
     [0x5cb0a9dcbd41fbd4, 0x76f988da831153b5],
     [0x983e5152ee66dfab, 0xa831c66d2db43210],
     [0xb00327c898fb213f, 0xbf597fc7beef0ee4],
     [0xc6e00bf33da88fc2, 0xd5a79147930aa725],
     [0x06ca6351e003826f, 0x142929670a0e6e70],
     [0x27b70a8546d22ffc, 0x2e1b21385c26c926],
     [0x4d2c6dfc5ac42aed, 0x53380d139d95b3df],
     [0x650a73548baf63de, 0x766a0abb3c77b2a8],
     [0x81c2c92e47edaee6, 0x92722c851482353b],
     [0xa2bfe8a14cf10364, 0xa81a664bbc423001],
     [0xc24b8b70d0f89791, 0xc76c51a30654be30],
     [0xd192e819d6ef5218, 0xd69906245565a910],
     [0xf40e35855771202a, 0x106aa07032bbd1b8],
     [0x19a4c116b8d2d0c8, 0x1e376c085141ab53],
     [0x2748774cdf8eeb99, 0x34b0bcb5e19b48a8],
     [0x391c0cb3c5c95a63, 0x4ed8aa4ae3418acb],
     [0x5b9cca4f7763e373, 0x682e6ff3d6b2b8a3],
     [0x748f82ee5defb2fc, 0x78a5636f43172f60],
     [0x84c87814a1f0ab72, 0x8cc702081a6439ec],
     [0x90befffa23631e28, 0xa4506cebde82bde9],
     [0xbef9a3f7b2c67915, 0xc67178f2e372532b],
     [0xca273eceea26619c, 0xd186b8c721c0c207],
     [0xeada7dd6cde0eb1e, 0xf57d4f7fee6ed178],
     [0x06f067aa72176fba, 0x0a637dc5a2c898a6],
     [0x113f9804bef90dae, 0x1b710b35131c471b],
     [0x28db77f523047d84, 0x32caab7b40c72493],
     [0x3c9ebe0a15c9bebc, 0x431d67c49c100d4c],
     [0x4cc5d4becb3e42b6, 0x597f299cfc657e2a],
     [0x5fcb6fab3ad6faec, 0x6c44198c4a475817]]"

definition sha384_initial_hash_value :: "u64 list" where
  "sha384_initial_hash_value =
    [0xcbbb9d5dc1059ed8, 0x629a292a367cd507,
     0x9159015a3070dd17, 0x152fecd8f70e5939,
     0x67332667ffc00b31, 0x8eb44a8768581511,
     0xdb0c2e0d64f98fa7, 0x47b5481dbefa4fa4]"

definition sha512_initial_hash_value :: "u64 list" where
  "sha512_initial_hash_value =
    [0x6a09e667f3bcc908, 0xbb67ae8584caa73b,
     0x3c6ef372fe94f82b, 0xa54ff53a5f1d36f1,
     0x510e527fade682d1, 0x9b05688c2b3e6c1f,
     0x1f83d9abfb41bd6b, 0x5be0cd19137e2179]"

definition sha2_hex_digits :: string where
  "sha2_hex_digits = ''0123456789abcdef''"

section \<open>Rounds\<close>

text \<open>The eight working registers, and one round of the rolled loop.\<close>

type_synonym 'w regs =
  "'w word \<times> 'w word \<times> 'w word \<times> 'w word \<times> 'w word \<times> 'w word \<times> 'w word \<times> 'w word"

definition sha_round ::
  "('w::len word \<Rightarrow> 'w word) \<Rightarrow> ('w word \<Rightarrow> 'w word) \<Rightarrow> 'w word \<Rightarrow> 'w word \<Rightarrow> 'w regs \<Rightarrow> 'w regs" where
  "sha_round Sig0 Sig1 k w r =
     (case r of (a, b, c, d, e, f, g, h) \<Rightarrow>
        let T1 = h + Sig1 e + Ch e f g + k + w;
            T2 = Sig0 a + Maj a b c
        in (T1 + T2, a, b, c, d + T1, e, f, g))"

text \<open>The unrolled round updates two registers in place and renames none.\<close>

definition sha_uround ::
  "('w::len word \<Rightarrow> 'w word) \<Rightarrow> ('w word \<Rightarrow> 'w word) \<Rightarrow> 'w word \<Rightarrow> 'w word \<Rightarrow> 'w regs \<Rightarrow> 'w regs" where
  "sha_uround Sig0 Sig1 k w r =
     (case r of (a, b, c, d, e, f, g, h) \<Rightarrow>
        let T1 = h + Sig1 e + Ch e f g + k + w
        in (a, b, c, d + T1, e, f, g, T1 + Sig0 a + Maj a b c))"

text \<open>
  The schedule array holds sixteen words: the first sixteen rounds fill it with the
  reversed input words, the later ones expand it in place (indices masked with 0x0f).
\<close>

definition W_load :: "('w word \<Rightarrow> 'w word) \<Rightarrow> 'w::len word list \<Rightarrow> 'w word list \<Rightarrow> nat \<Rightarrow> 'w word list" where
  "W_load rv data W j = W[j := rv (data ! j)]"

definition W_expand ::
  "('w::len word \<Rightarrow> 'w word) \<Rightarrow> ('w word \<Rightarrow> 'w word) \<Rightarrow> 'w word list \<Rightarrow> nat \<Rightarrow> 'w word list" where
  "W_expand sig0 sig1 W j =
     (let s0 = sig0 (W ! ((j + 1) mod 16));
          s1 = sig1 (W ! ((j + 14) mod 16))
      in W[j mod 16 := W ! (j mod 16) + (s1 + W ! ((j + 9) mod 16) + s0)])"

text \<open>A phase of the rolled loop: update the schedule, then do the round with its new word.\<close>

definition roll_phase ::
  "('w::len word \<Rightarrow> 'w word) \<Rightarrow> ('w word \<Rightarrow> 'w word) \<Rightarrow> 'w word list
   \<Rightarrow> ('w word list \<Rightarrow> nat \<Rightarrow> 'w word list) \<Rightarrow> nat list \<Rightarrow> 'w word list \<times> 'w regs \<Rightarrow> 'w word list \<times> 'w regs" where
  "roll_phase Sig0 Sig1 K upd js s =
     foldl (\<lambda>(W, r) j. let W' = upd W j in (W', sha_round Sig0 Sig1 (K ! j) (W' ! (j mod 16)) r)) s js"

text \<open>
  Eight unrolled rounds from counter \<open>j\<close> on: the register arguments of the macro rotate by
  one from each invocation to the next.
\<close>

definition unroll8 ::
  "('w::len word \<Rightarrow> 'w word) \<Rightarrow> ('w word \<Rightarrow> 'w word) \<Rightarrow> 'w word list
   \<Rightarrow> ('w word list \<Rightarrow> nat \<Rightarrow> 'w word list) \<Rightarrow> nat \<Rightarrow> 'w word list \<times> 'w regs \<Rightarrow> 'w word list \<times> 'w regs" where
  "unroll8 Sig0 Sig1 K upd j s =
     (case s of (W0, (a, b, c, d, e, f, g, h)) \<Rightarrow>
        let W = upd W0 j;
            (a, b, c, d, e, f, g, h) = sha_uround Sig0 Sig1 (K ! j) (W ! (j mod 16)) (a, b, c, d, e, f, g, h);
            W = upd W (j + 1);
            (h, a, b, c, d, e, f, g) = sha_uround Sig0 Sig1 (K ! (j + 1)) (W ! ((j + 1) mod 16)) (h, a, b, c, d, e, f, g);
            W = upd W (j + 2);
            (g, h, a, b, c, d, e, f) = sha_uround Sig0 Sig1 (K ! (j + 2)) (W ! ((j + 2) mod 16)) (g, h, a, b, c, d, e, f);
            W = upd W (j + 3);
            (f, g, h, a, b, c, d, e) = sha_uround Sig0 Sig1 (K ! (j + 3)) (W ! ((j + 3) mod 16)) (f, g, h, a, b, c, d, e);
            W = upd W (j + 4);
            (e, f, g, h, a, b, c, d) = sha_uround Sig0 Sig1 (K ! (j + 4)) (W ! ((j + 4) mod 16)) (e, f, g, h, a, b, c, d);
            W = upd W (j + 5);
            (d, e, f, g, h, a, b, c) = sha_uround Sig0 Sig1 (K ! (j + 5)) (W ! ((j + 5) mod 16)) (d, e, f, g, h, a, b, c);
            W = upd W (j + 6);
            (c, d, e, f, g, h, a, b) = sha_uround Sig0 Sig1 (K ! (j + 6)) (W ! ((j + 6) mod 16)) (c, d, e, f, g, h, a, b);
            W = upd W (j + 7);
            (b, c, d, e, f, g, h, a) = sha_uround Sig0 Sig1 (K ! (j + 7)) (W ! ((j + 7) mod 16)) (b, c, d, e, f, g, h, a)
        in (W, (a, b, c, d, e, f, g, h)))"

definition unroll_phase ::
  "('w::len word \<Rightarrow> 'w word) \<Rightarrow> ('w word \<Rightarrow> 'w word) \<Rightarrow> 'w word list
   \<Rightarrow> ('w word list \<Rightarrow> nat \<Rightarrow> 'w word list) \<Rightarrow> nat list \<Rightarrow> 'w word list \<times> 'w regs \<Rightarrow> 'w word list \<times> 'w regs" where
  "unroll_phase Sig0 Sig1 K upd js s = foldl (\<lambda>s j. unroll8 Sig0 Sig1 K upd j s) s js"

definition regs_of :: "'w::len word list \<Rightarrow> 'w regs" where
  "regs_of st = (st ! 0, st ! 1, st ! 2, st ! 3, st ! 4, st ! 5, st ! 6, st ! 7)"

definition add_regs :: "'w::len word list \<Rightarrow> 'w regs \<Rightarrow> 'w word list" where
  "add_regs st r =
     (case r of (a, b, c, d, e, f, g, h) \<Rightarrow>
        [st ! 0 + a, st ! 1 + b, st ! 2 + c, st ! 3 + d, st ! 4 + e, st ! 5 + f, st ! 6 + g, st ! 7 + h])"

section \<open>SHA-256\<close>

record SHA256_CTX =
  state256 :: "u32 list"
  bitcount256 :: u64
  buffer256 :: "byte list"

definition SHA256_BLOCK_LENGTH :: nat where "SHA256_BLOCK_LENGTH = 64"
definition SHA256_SHORT_BLOCK_LENGTH :: nat where "SHA256_SHORT_BLOCK_LENGTH = SHA256_BLOCK_LENGTH - 8"

definition SHA256_Init :: SHA256_CTX where
  "SHA256_Init = \<lparr>state256 = sha256_initial_hash_value, bitcount256 = 0, buffer256 = replicate 64 0\<rparr>"

definition SHA256_Transform :: "SHA256_CTX \<Rightarrow> byte list \<Rightarrow> SHA256_CTX" where
  "SHA256_Transform context data =
     (let s0 = (words32 (buffer256 context), regs_of (state256 context));
          s1 = roll_phase Sigma0_256 Sigma1_256 K256 (W_load REVERSE32 (words32 data)) [0..<16] s0;
          s2 = roll_phase Sigma0_256 Sigma1_256 K256 (W_expand sigma0_256 sigma1_256) [16..<64] s1
      in context\<lparr>state256 := add_regs (state256 context) (snd s2),
                 buffer256 := concat (map (le_bytes 4) (fst s2))\<rparr>)"

definition SHA256_Transform_unrolled :: "SHA256_CTX \<Rightarrow> byte list \<Rightarrow> SHA256_CTX" where
  "SHA256_Transform_unrolled context data =
     (let s0 = (words32 (buffer256 context), regs_of (state256 context));
          s1 = unroll_phase Sigma0_256 Sigma1_256 K256 (W_load REVERSE32 (words32 data)) [0, 8] s0;
          s2 = unroll_phase Sigma0_256 Sigma1_256 K256 (W_expand sigma0_256 sigma1_256)
                 [16, 24, 32, 40, 48, 56] s1
      in context\<lparr>state256 := add_regs (state256 context) (snd s2),
                 buffer256 := concat (map (le_bytes 4) (fst s2))\<rparr>)"

text \<open>The loop of \<open>SHA256_Update\<close> over complete blocks; the result has the left-over bytes.\<close>

function SHA256_blocks :: "SHA256_CTX \<Rightarrow> byte list \<Rightarrow> SHA256_CTX \<times> byte list" where
  "SHA256_blocks context data =
     (if length data \<ge> SHA256_BLOCK_LENGTH
      then SHA256_blocks
             ((SHA256_Transform context (take SHA256_BLOCK_LENGTH data))
                \<lparr>bitcount256 := bitcount256 context + push_bit 3 (of_nat SHA256_BLOCK_LENGTH)\<rparr>)
             (drop SHA256_BLOCK_LENGTH data)
      else (context, data))"
  by pat_completeness auto
termination
  by (relation "measure (\<lambda>(c, d). length d)") (auto simp: SHA256_BLOCK_LENGTH_def)

definition SHA256_usedspace :: "SHA256_CTX \<Rightarrow> nat" where
  "SHA256_usedspace context = unat (drop_bit 3 (bitcount256 context)) mod SHA256_BLOCK_LENGTH"

definition SHA256_tail :: "SHA256_CTX \<Rightarrow> byte list \<Rightarrow> SHA256_CTX" where
  "SHA256_tail context data =
     (if length data > 0
      then context\<lparr>buffer256 := overwrite (buffer256 context) 0 data,
                   bitcount256 := bitcount256 context + push_bit 3 (of_nat (length data))\<rparr>
      else context)"

definition SHA256_Update :: "SHA256_CTX \<Rightarrow> byte list \<Rightarrow> SHA256_CTX" where
  "SHA256_Update context data =
     (if length data = 0 then context
      else
        let usedspace = SHA256_usedspace context;
            freespace = SHA256_BLOCK_LENGTH - usedspace
        in if usedspace > 0
           then if length data \<ge> freespace
                then let c1 = context\<lparr>buffer256 := overwrite (buffer256 context) usedspace (take freespace data),
                                      bitcount256 := bitcount256 context + push_bit 3 (of_nat freespace)\<rparr>;
                         (c2, rest) = SHA256_blocks (SHA256_Transform c1 (buffer256 c1)) (drop freespace data)
                     in SHA256_tail c2 rest
                else context\<lparr>buffer256 := overwrite (buffer256 context) usedspace data,
                             bitcount256 := bitcount256 context + push_bit 3 (of_nat (length data))\<rparr>
           else let (c2, rest) = SHA256_blocks context data in SHA256_tail c2 rest)"

definition SHA256_Final :: "SHA256_CTX \<Rightarrow> byte list" where
  "SHA256_Final context =
     (let usedspace = SHA256_usedspace context;
          bc = REVERSE64 (bitcount256 context);
          c1 = (if usedspace > 0
                then let b1 = (buffer256 context)[usedspace := 0x80];
                         used = usedspace + 1
                     in if used \<le> SHA256_SHORT_BLOCK_LENGTH
                        then context\<lparr>buffer256 := overwrite b1 used (replicate (SHA256_SHORT_BLOCK_LENGTH - used) 0)\<rparr>
                        else let b2 = (if used < SHA256_BLOCK_LENGTH
                                       then overwrite b1 used (replicate (SHA256_BLOCK_LENGTH - used) 0) else b1);
                                 c = SHA256_Transform (context\<lparr>buffer256 := b2\<rparr>) b2
                             in c\<lparr>buffer256 := overwrite (buffer256 c) 0 (replicate SHA256_SHORT_BLOCK_LENGTH 0)\<rparr>
                else context\<lparr>buffer256 :=
                       (overwrite (buffer256 context) 0 (replicate SHA256_SHORT_BLOCK_LENGTH 0))[0 := 0x80]\<rparr>);
          b3 = overwrite (buffer256 c1) SHA256_SHORT_BLOCK_LENGTH (le_bytes 8 bc);
          c2 = SHA256_Transform (c1\<lparr>buffer256 := b3\<rparr>) b3
      in concat (map (\<lambda>w. le_bytes 4 (REVERSE32 w)) (state256 c2)))"

text \<open>The hexadecimal rendering shared by the three \<open>End\<close> functions.\<close>

definition hex_byte :: "byte \<Rightarrow> string" where
  "hex_byte d = [sha2_hex_digits ! unat (drop_bit 4 (d AND 0xf0)), sha2_hex_digits ! unat (d AND 0x0f)]"

definition hex_string :: "byte list \<Rightarrow> string" where
  "hex_string ds = concat (map hex_byte ds)"

definition SHA256_End :: "SHA256_CTX \<Rightarrow> string" where
  "SHA256_End context = hex_string (SHA256_Final context)"

definition SHA256_Data :: "byte list \<Rightarrow> string" where
  "SHA256_Data data = SHA256_End (SHA256_Update SHA256_Init data)"

section \<open>SHA-512 and SHA-384\<close>

record SHA512_CTX =
  state512 :: "u64 list"
  bitcount512 :: "u64 \<times> u64"
  buffer512 :: "byte list"

definition SHA512_BLOCK_LENGTH :: nat where "SHA512_BLOCK_LENGTH = 128"
definition SHA512_SHORT_BLOCK_LENGTH :: nat where "SHA512_SHORT_BLOCK_LENGTH = SHA512_BLOCK_LENGTH - 16"

definition SHA512_Init :: SHA512_CTX where
  "SHA512_Init = \<lparr>state512 = sha512_initial_hash_value, bitcount512 = (0, 0), buffer512 = replicate 128 0\<rparr>"

definition SHA512_Transform :: "SHA512_CTX \<Rightarrow> byte list \<Rightarrow> SHA512_CTX" where
  "SHA512_Transform context data =
     (let s0 = (words64 (buffer512 context), regs_of (state512 context));
          s1 = roll_phase Sigma0_512 Sigma1_512 K512 (W_load REVERSE64 (words64 data)) [0..<16] s0;
          s2 = roll_phase Sigma0_512 Sigma1_512 K512 (W_expand sigma0_512 sigma1_512) [16..<80] s1
      in context\<lparr>state512 := add_regs (state512 context) (snd s2),
                 buffer512 := concat (map (le_bytes 8) (fst s2))\<rparr>)"

definition SHA512_Transform_unrolled :: "SHA512_CTX \<Rightarrow> byte list \<Rightarrow> SHA512_CTX" where
  "SHA512_Transform_unrolled context data =
     (let s0 = (words64 (buffer512 context), regs_of (state512 context));
          s1 = unroll_phase Sigma0_512 Sigma1_512 K512 (W_load REVERSE64 (words64 data)) [0, 8] s0;
          s2 = unroll_phase Sigma0_512 Sigma1_512 K512 (W_expand sigma0_512 sigma1_512)
                 [16, 24, 32, 40, 48, 56, 64, 72] s1
      in context\<lparr>state512 := add_regs (state512 context) (snd s2),
                 buffer512 := concat (map (le_bytes 8) (fst s2))\<rparr>)"

function SHA512_blocks :: "SHA512_CTX \<Rightarrow> byte list \<Rightarrow> SHA512_CTX \<times> byte list" where
  "SHA512_blocks context data =
     (if length data \<ge> SHA512_BLOCK_LENGTH
      then SHA512_blocks
             ((SHA512_Transform context (take SHA512_BLOCK_LENGTH data))
                \<lparr>bitcount512 := ADDINC128 (bitcount512 context) (push_bit 3 (of_nat SHA512_BLOCK_LENGTH))\<rparr>)
             (drop SHA512_BLOCK_LENGTH data)
      else (context, data))"
  by pat_completeness auto
termination
  by (relation "measure (\<lambda>(c, d). length d)") (auto simp: SHA512_BLOCK_LENGTH_def)

definition SHA512_usedspace :: "SHA512_CTX \<Rightarrow> nat" where
  "SHA512_usedspace context = unat (drop_bit 3 (fst (bitcount512 context))) mod SHA512_BLOCK_LENGTH"

definition SHA512_tail :: "SHA512_CTX \<Rightarrow> byte list \<Rightarrow> SHA512_CTX" where
  "SHA512_tail context data =
     (if length data > 0
      then context\<lparr>buffer512 := overwrite (buffer512 context) 0 data,
                   bitcount512 := ADDINC128 (bitcount512 context) (push_bit 3 (of_nat (length data)))\<rparr>
      else context)"

definition SHA512_Update :: "SHA512_CTX \<Rightarrow> byte list \<Rightarrow> SHA512_CTX" where
  "SHA512_Update context data =
     (if length data = 0 then context
      else
        let usedspace = SHA512_usedspace context;
            freespace = SHA512_BLOCK_LENGTH - usedspace
        in if usedspace > 0
           then if length data \<ge> freespace
                then let c1 = context\<lparr>buffer512 := overwrite (buffer512 context) usedspace (take freespace data),
                                      bitcount512 := ADDINC128 (bitcount512 context) (push_bit 3 (of_nat freespace))\<rparr>;
                         (c2, rest) = SHA512_blocks (SHA512_Transform c1 (buffer512 c1)) (drop freespace data)
                     in SHA512_tail c2 rest
                else context\<lparr>buffer512 := overwrite (buffer512 context) usedspace data,
                             bitcount512 := ADDINC128 (bitcount512 context) (push_bit 3 (of_nat (length data)))\<rparr>
           else let (c2, rest) = SHA512_blocks context data in SHA512_tail c2 rest)"

text \<open>
  After a second-to-last transform the source clears \<open>SHA512_BLOCK_LENGTH - 2\<close> bytes; the
  two it leaves are overwritten by the length.
\<close>

definition SHA512_Last :: "SHA512_CTX \<Rightarrow> SHA512_CTX" where
  "SHA512_Last context =
     (let usedspace = SHA512_usedspace context;
          bc0 = REVERSE64 (fst (bitcount512 context));
          bc1 = REVERSE64 (snd (bitcount512 context));
          c0 = context\<lparr>bitcount512 := (bc0, bc1)\<rparr>;
          c1 = (if usedspace > 0
                then let b1 = (buffer512 c0)[usedspace := 0x80];
                         used = usedspace + 1
                     in if used \<le> SHA512_SHORT_BLOCK_LENGTH
                        then c0\<lparr>buffer512 := overwrite b1 used (replicate (SHA512_SHORT_BLOCK_LENGTH - used) 0)\<rparr>
                        else let b2 = (if used < SHA512_BLOCK_LENGTH
                                       then overwrite b1 used (replicate (SHA512_BLOCK_LENGTH - used) 0) else b1);
                                 c = SHA512_Transform (c0\<lparr>buffer512 := b2\<rparr>) b2
                             in c\<lparr>buffer512 := overwrite (buffer512 c) 0 (replicate (SHA512_BLOCK_LENGTH - 2) 0)\<rparr>
                else c0\<lparr>buffer512 :=
                       (overwrite (buffer512 c0) 0 (replicate SHA512_SHORT_BLOCK_LENGTH 0))[0 := 0x80]\<rparr>);
          b3 = overwrite (buffer512 c1) SHA512_SHORT_BLOCK_LENGTH (le_bytes 8 bc1);
          b4 = overwrite b3 (SHA512_SHORT_BLOCK_LENGTH + 8) (le_bytes 8 bc0)
      in SHA512_Transform (c1\<lparr>buffer512 := b4\<rparr>) b4)"

definition SHA512_Final :: "SHA512_CTX \<Rightarrow> byte list" where
  "SHA512_Final context = concat (map (\<lambda>w. le_bytes 8 (REVERSE64 w)) (state512 (SHA512_Last context)))"

definition SHA512_End :: "SHA512_CTX \<Rightarrow> string" where
  "SHA512_End context = hex_string (SHA512_Final context)"

definition SHA512_Data :: "byte list \<Rightarrow> string" where
  "SHA512_Data data = SHA512_End (SHA512_Update SHA512_Init data)"

definition SHA384_Init :: SHA512_CTX where
  "SHA384_Init = \<lparr>state512 = sha384_initial_hash_value, bitcount512 = (0, 0), buffer512 = replicate 128 0\<rparr>"

definition SHA384_Update :: "SHA512_CTX \<Rightarrow> byte list \<Rightarrow> SHA512_CTX" where
  "SHA384_Update context data = SHA512_Update context data"

definition SHA384_Final :: "SHA512_CTX \<Rightarrow> byte list" where
  "SHA384_Final context =
     concat (map (\<lambda>w. le_bytes 8 (REVERSE64 w)) (take 6 (state512 (SHA512_Last context))))"

definition SHA384_End :: "SHA512_CTX \<Rightarrow> string" where
  "SHA384_End context = hex_string (SHA384_Final context)"

definition SHA384_Data :: "byte list \<Rightarrow> string" where
  "SHA384_Data data = SHA384_End (SHA384_Update SHA384_Init data)"

declare SHA256_blocks.simps [simp del] SHA512_blocks.simps [simp del]

end
