(* ===== verification/Sha2_Transform.thy ===== *)
theory Sha2_Transform
  imports Sha2
begin

unbundle bit_operations_syntax

text \<open>
  The two transforms of sha2.c against the compression function of FIPS 180-4: byte order,
  message schedule in a sixteen-word ring, and the equality of the rolled and the unrolled
  loop.
\<close>

section \<open>Byte order\<close>

definition be_bytes :: "nat \<Rightarrow> 'w::len word \<Rightarrow> byte list" where
  "be_bytes n w = rev (le_bytes n w)"

definition be_load :: "byte list \<Rightarrow> 'w::len word" where
  "be_load bs = le_load (rev bs)"

lemma bit_byte_of: "bit (byte_of i w) k \<longleftrightarrow> k < 8 \<and> bit w (8 * i + k)"
  by (auto simp: byte_of_def bit_simps)

lemma bit_le_load:
  "bit (le_load bs :: 'w::len word) n \<longleftrightarrow>
     n < LENGTH('w) \<and> n div 8 < length bs \<and> bit (bs ! (n div 8)) (n mod 8)"
proof (induction bs arbitrary: n)
  case Nil
  then show ?case by simp
next
  case (Cons b bs)
  show ?case
  proof (cases "n < 8")
    case True
    then show ?thesis by (auto simp: bit_simps)
  next
    case False
    then have d: "n div 8 = Suc ((n - 8) div 8)" and m: "(n - 8) mod 8 = n mod 8"
      by (simp_all add: le_div_geq le_mod_geq)
    have "bit (ucast b :: 'w word) n = False" using False by (auto simp: bit_simps dest: bit_imp_le_length)
    with False d m show ?thesis
      by (auto simp: bit_simps Cons.IH simp del: of_nat_diff)
  qed
qed

lemma swap_masks32:
  "(0xff00ff00 :: u32) = push_bit 8 (mask 8) OR push_bit 24 (mask 8)"
  "(0x00ff00ff :: u32) = mask 8 OR push_bit 16 (mask 8)"
  by (simp_all add: mask_eq_exp_minus_1 push_bit_eq_mult)

lemma swap_masks64:
  "(0xff00ff00ff00ff00 :: u64) = push_bit 8 (mask 8) OR push_bit 24 (mask 8) OR push_bit 40 (mask 8) OR push_bit 56 (mask 8)"
  "(0x00ff00ff00ff00ff :: u64) = mask 8 OR push_bit 16 (mask 8) OR push_bit 32 (mask 8) OR push_bit 48 (mask 8)"
  "(0xffff0000ffff0000 :: u64) = push_bit 16 (mask 16) OR push_bit 48 (mask 16)"
  "(0x0000ffff0000ffff :: u64) = mask 16 OR push_bit 32 (mask 16)"
  by (simp_all add: mask_eq_exp_minus_1 push_bit_eq_mult)

lemma byte_cases4:
  assumes "n < (32::nat)"
  obtains r where "r < 8" "n = r"
  | r where "r < 8" "n = 8 + r"
  | r where "r < 8" "n = 16 + r"
  | r where "r < 8" "n = 24 + r"
proof -
  have e: "n = 8 * (n div 8) + n mod 8" and r: "n mod 8 < 8" by simp_all
  from assms have "n div 8 < 4" by simp
  then consider "n div 8 = 0" | "n div 8 = 1" | "n div 8 = 2" | "n div 8 = 3" by linarith
  then show thesis
  proof cases
    case 1
    with that(1) [OF r] e show thesis by simp
  next
    case 2
    with that(2) [OF r] e show thesis by simp
  next
    case 3
    with that(3) [OF r] e show thesis by simp
  next
    case 4
    with that(4) [OF r] e show thesis by simp
  qed
qed

lemma byte_cases8:
  assumes "n < (64::nat)"
  obtains r where "r < 8" "n = r"
  | r where "r < 8" "n = 8 + r"
  | r where "r < 8" "n = 16 + r"
  | r where "r < 8" "n = 24 + r"
  | r where "r < 8" "n = 32 + r"
  | r where "r < 8" "n = 40 + r"
  | r where "r < 8" "n = 48 + r"
  | r where "r < 8" "n = 56 + r"
proof -
  have e: "n = 8 * (n div 8) + n mod 8" and r: "n mod 8 < 8" by simp_all
  from assms have "n div 8 < 8" by simp
  then consider "n div 8 = 0" | "n div 8 = 1" | "n div 8 = 2" | "n div 8 = 3" | "n div 8 = 4" | "n div 8 = 5" | "n div 8 = 6" | "n div 8 = 7" by linarith
  then show thesis
  proof cases
    case 1
    with that(1) [OF r] e show thesis by simp
  next
    case 2
    with that(2) [OF r] e show thesis by simp
  next
    case 3
    with that(3) [OF r] e show thesis by simp
  next
    case 4
    with that(4) [OF r] e show thesis by simp
  next
    case 5
    with that(5) [OF r] e show thesis by simp
  next
    case 6
    with that(6) [OF r] e show thesis by simp
  next
    case 7
    with that(7) [OF r] e show thesis by simp
  next
    case 8
    with that(8) [OF r] e show thesis by simp
  qed
qed

lemma byte_divmod:
  fixes r :: nat
  assumes "r < 8"
  shows
    "(8 + r) div 8 = 1" "(8 + r) mod 8 = r"
    "(16 + r) div 8 = 2" "(16 + r) mod 8 = r"
    "(24 + r) div 8 = 3" "(24 + r) mod 8 = r"
    "(32 + r) div 8 = 4" "(32 + r) mod 8 = r"
    "(40 + r) div 8 = 5" "(40 + r) mod 8 = r"
    "(48 + r) div 8 = 6" "(48 + r) mod 8 = r"
    "(56 + r) div 8 = 7" "(56 + r) mod 8 = r"
  using assms div_mult_self4 [of 8] mod_mult_self4 [of 8]
  by (simp_all add: div_nat_eqI mod_nat_eqI)

lemma bit_beyond: "LENGTH('w) \<le> k \<Longrightarrow> \<not> bit (w :: 'w::len word) k"
  by (auto dest: bit_imp_le_length)

lemma bit_REVERSE32: "n < 32 \<Longrightarrow> bit (REVERSE32 w) n \<longleftrightarrow> bit w (8 * (3 - n div 8) + n mod 8)"
  by (erule byte_cases4)
    (simp_all add: REVERSE32_def Let_def swap_masks32 bit_simps bit_beyond byte_divmod)

lemma bit_REVERSE64: "n < 64 \<Longrightarrow> bit (REVERSE64 w) n \<longleftrightarrow> bit w (8 * (7 - n div 8) + n mod 8)"
  by (erule byte_cases8)
    (simp_all add: REVERSE64_def Let_def swap_masks64 bit_simps bit_beyond byte_divmod)
lemma REVERSE32_le_load: "length bs = 4 \<Longrightarrow> REVERSE32 (le_load bs) = be_load bs"
proof (rule bit_word_eqI)
  fix n assume l: "length bs = 4" and n: "n < LENGTH(32)"
  from n have "n div 8 < 4" and "8 * (3 - n div 8) + n mod 8 < 32" by auto
  with l n show "bit (REVERSE32 (le_load bs)) n = bit (be_load bs :: u32) n"
    by (simp add: bit_REVERSE32 be_load_def bit_le_load rev_nth)
qed

lemma REVERSE64_le_load: "length bs = 8 \<Longrightarrow> REVERSE64 (le_load bs) = be_load bs"
proof (rule bit_word_eqI)
  fix n assume l: "length bs = 8" and n: "n < LENGTH(64)"
  from n have "n div 8 < 8" and "8 * (7 - n div 8) + n mod 8 < 64" by auto
  with l n show "bit (REVERSE64 (le_load bs)) n = bit (be_load bs :: u64) n"
    by (simp add: bit_REVERSE64 be_load_def bit_le_load rev_nth)
qed

lemma length_le_bytes [simp]: "length (le_bytes n w) = n"
  by (simp add: le_bytes_def)

lemma length_be_bytes [simp]: "length (be_bytes n w) = n"
  by (simp add: be_bytes_def)

lemma nth_le_bytes: "i < n \<Longrightarrow> le_bytes n w ! i = byte_of i w"
  by (simp add: le_bytes_def)

lemma nth_be_bytes: "i < n \<Longrightarrow> be_bytes n w ! i = byte_of (n - Suc i) w"
  by (simp add: be_bytes_def rev_nth nth_le_bytes)

lemma le_bytes_REVERSE32: "le_bytes 4 (REVERSE32 w) = be_bytes 4 w"
proof (rule nth_equalityI)
  fix i assume "i < length (le_bytes 4 (REVERSE32 w))"
  then have i: "i < 4" by simp
  then have "8 * i + k < 32 \<and> (8 * i + k) div 8 = i \<and> (8 * i + k) mod 8 = k" if "k < 8" for k
    using that by auto
  then have "byte_of i (REVERSE32 w) = byte_of (3 - i) w"
    by (intro bit_word_eqI) (simp add: bit_byte_of bit_REVERSE32)
  with i show "le_bytes 4 (REVERSE32 w) ! i = be_bytes 4 w ! i"
    by (simp add: nth_le_bytes nth_be_bytes)
qed simp

lemma le_bytes_REVERSE64: "le_bytes 8 (REVERSE64 w) = be_bytes 8 w"
proof (rule nth_equalityI)
  fix i assume "i < length (le_bytes 8 (REVERSE64 w))"
  then have i: "i < 8" by simp
  then have "8 * i + k < 64 \<and> (8 * i + k) div 8 = i \<and> (8 * i + k) mod 8 = k" if "k < 8" for k
    using that by auto
  then have "byte_of i (REVERSE64 w) = byte_of (7 - i) w"
    by (intro bit_word_eqI) (simp add: bit_byte_of bit_REVERSE64)
  with i show "le_bytes 8 (REVERSE64 w) ! i = be_bytes 8 w ! i"
    by (simp add: nth_le_bytes nth_be_bytes)
qed simp

section \<open>The compression function of the standard\<close>

primrec fips_sched ::
  "('w::len word \<Rightarrow> 'w word) \<Rightarrow> ('w word \<Rightarrow> 'w word) \<Rightarrow> 'w word list \<Rightarrow> nat \<Rightarrow> 'w word list" where
  "fips_sched s0 s1 M 0 = M"
| "fips_sched s0 s1 M (Suc n) =
     (let W = fips_sched s0 s1 M n; t = 16 + n
      in W @ [s1 (W ! (t - 2)) + W ! (t - 7) + s0 (W ! (t - 15)) + W ! (t - 16)])"

definition fips_compress ::
  "('w::len word \<Rightarrow> 'w word) \<Rightarrow> ('w word \<Rightarrow> 'w word) \<Rightarrow> ('w word \<Rightarrow> 'w word) \<Rightarrow> ('w word \<Rightarrow> 'w word)
   \<Rightarrow> 'w word list \<Rightarrow> 'w word list \<Rightarrow> 'w word list \<Rightarrow> 'w word list" where
  "fips_compress S0 S1 s0 s1 K st M =
     add_regs st (foldl (\<lambda>r t. sha_round S0 S1 (K ! t) (fips_sched s0 s1 M (length K - 16) ! t) r)
                    (regs_of st) [0..<length K])"

lemma length_fips_sched: "length M = 16 \<Longrightarrow> length (fips_sched s0 s1 M n) = 16 + n"
  by (induction n) (auto simp: Let_def)

lemma fips_sched_prefix: "length M = 16 \<Longrightarrow> n \<le> k \<Longrightarrow> i < 16 + n \<Longrightarrow>
   fips_sched s0 s1 M k ! i = fips_sched s0 s1 M n ! i"
proof (induction k)
  case (Suc k)
  then show ?case
    by (cases "n = Suc k") (auto simp: Let_def nth_append length_fips_sched)
qed simp

lemma fips_sched_rec:
  assumes "length M = 16" and "n < k"
  shows "fips_sched s0 s1 M k ! (n + 16) =
    fips_sched s0 s1 M k ! n
    + (s1 (fips_sched s0 s1 M k ! (n + 14)) + fips_sched s0 s1 M k ! (n + 9)
       + s0 (fips_sched s0 s1 M k ! (n + 1)))"
proof -
  have p: "fips_sched s0 s1 M k ! i = fips_sched s0 s1 M n ! i" if "i < 16 + n" for i
    using fips_sched_prefix [OF assms(1), of n k i] that assms(2) by simp
  have "fips_sched s0 s1 M k ! (n + 16) = fips_sched s0 s1 M (Suc n) ! (n + 16)"
    using fips_sched_prefix [OF assms(1), of "Suc n" k "n + 16"] assms(2) by simp
  then show ?thesis
    using p by (simp add: Let_def nth_append length_fips_sched [OF assms(1)] add.commute add.left_commute)
qed

section \<open>The rolled loop\<close>

lemma phase_load:
  assumes "length data = 16" and "length W0 = 16" and "n \<le> 16"
  shows "roll_phase S0 S1 K (W_load rv data) [0..<n] (W0, r) =
    (map rv (take n data) @ drop n W0,
     foldl (\<lambda>r j. sha_round S0 S1 (K ! j) (map rv data ! j) r) r [0..<n])"
  using assms(3)
proof (induction n)
  case 0
  then show ?case by (simp add: roll_phase_def)
next
  case (Suc n)
  have "(map rv (take n data) @ drop n W0)[n := rv (data ! n)] = map rv (take (Suc n) data) @ drop (Suc n) W0"
    using Suc.prems assms(1,2)
    by (simp add: list_update_append take_Suc_conv_app_nth drop_Cons_nth [of n W0])
  with Suc show ?case
    using assms(1) by (simp add: roll_phase_def W_load_def Let_def nth_append)
qed

lemma phase_expand:
  fixes s0 s1 S0 S1 :: "'w::len word \<Rightarrow> 'w word" and r :: "'w regs"
  assumes M: "length M = 16" and n: "n \<le> N" and W0: "length W0 = 16" and e: "\<And>i. i < 16 \<Longrightarrow> W0 ! i = M ! i"
  defines "S \<equiv> fips_sched s0 s1 M N"
  shows "\<exists>W. roll_phase S0 S1 K (W_expand s0 s1) [16..<16 + n] (W0, r) =
      (W, foldl (\<lambda>r j. sha_round S0 S1 (K ! j) (S ! j) r) r [16..<16 + n])
    \<and> length W = 16 \<and> (\<forall>i < 16. W ! ((n + i) mod 16) = S ! (n + i))"
  using n
proof (induction n)
  case 0
  have "S ! i = M ! i" if "i < 16" for i
    using fips_sched_prefix [OF M, of 0 N i s0 s1] that by (simp add: S_def)
  with e W0 show ?case by (simp add: roll_phase_def)
next
  case (Suc n)
  then obtain W where W: "roll_phase S0 S1 K (W_expand s0 s1) [16..<16 + n] (W0, r) =
      (W, foldl (\<lambda>r j. sha_round S0 S1 (K ! j) (S ! j) r) r [16..<16 + n])"
    and l: "length W = 16" and at: "\<And>i. i < 16 \<Longrightarrow> W ! ((n + i) mod 16) = S ! (n + i)"
    by auto
  let ?W = "W_expand s0 s1 W (16 + n)"
  have md: "(16 + n) mod 16 = n mod 16" "(16 + n + k) mod 16 = (n + k) mod 16" for k
    using mod_add_self1 [of 16 n] mod_add_self1 [of 16 "n + k"] by (simp_all only: add.assoc)
  have new: "?W = W[n mod 16 := S ! (n + 16)]"
    using at [of 0] at [of 1] at [of 9] at [of 14] fips_sched_rec [OF M, of n N s0 s1] Suc.prems
    unfolding W_expand_def Let_def md S_def by (simp only: Suc_le_eq add_0_right)
  have "?W ! ((Suc n + i) mod 16) = S ! (Suc n + i)" if i: "i < 16" for i
  proof (cases "i = 15")
    case True
    then show ?thesis using new l by (simp add: add.commute)
  next
    case False
    with i have "\<not> 16 dvd Suc i" using dvd_imp_le [of 16 "Suc i"] by auto
    then have "(n + Suc i) mod 16 \<noteq> n mod 16"
      using mod_eq_dvd_iff_nat [of n "n + Suc i" 16] by simp
    with at [of "Suc i"] i False new show ?thesis by simp
  qed
  moreover have "?W ! ((16 + n) mod 16) = S ! (16 + n)"
    using new l by (simp add: add.commute)
  moreover have "length ?W = 16" using new l by simp
  moreover have "[16..<16 + Suc n] = [16..<16 + n] @ [16 + n]"
    using upt_Suc_append [of 16 "16 + n"] by (simp only: add_Suc_right le_add1)
  ultimately show ?case using W
    by (intro exI [of _ ?W]) (simp only: roll_phase_def Let_def foldl_append foldl.simps prod.case simp_thms, blast)
qed

lemma roll_compress:
  assumes "length data = 16" and "length W0 = 16" and "length K = 16 + N" and m: "m = 16 + N"
  shows "\<exists>W. length W = 16 \<and>
    roll_phase S0 S1 K (W_expand s0 s1) [16..<m]
      (roll_phase S0 S1 K (W_load rv data) [0..<16] (W0, r)) =
    (W, foldl (\<lambda>r t. sha_round S0 S1 (K ! t) (fips_sched s0 s1 (map rv data) N ! t) r) r [0..<m])"
proof -
  let ?M = "map rv data"
  let ?r = "foldl (\<lambda>r j. sha_round S0 S1 (K ! j) (?M ! j) r) r [0..<16]"
  have "fips_sched s0 s1 ?M N ! j = ?M ! j" if "j < 16" for j
    using fips_sched_prefix [of ?M 0 N j s0 s1] assms(1) that by simp
  then have f: "foldl (\<lambda>r t. sha_round S0 S1 (K ! t) (fips_sched s0 s1 ?M N ! t) r) r [0..<16] = ?r"
    by (intro foldl_cong) auto
  have u: "[0..<16 + N] = [0..<16] @ [16..<16 + N]"
    by (rule upt_add_eq_append) simp
  have p1: "roll_phase S0 S1 K (W_load rv data) [0..<16] (W0, r) = (?M, ?r)"
    using phase_load [OF assms(1,2), of 16] assms(1,2) by simp
  show ?thesis
    unfolding m p1 u foldl_append f
    using phase_expand [of ?M N N ?M S0 S1 K s0 s1 ?r] assms(1) by auto
qed

section \<open>The unrolled loop\<close>

definition rot :: "'w regs \<Rightarrow> 'w::len regs" where
  "rot r = (case r of (a, b, c, d, e, f, g, h) \<Rightarrow> (h, a, b, c, d, e, f, g))"

lemma sha_round_rot: "sha_round S0 S1 k w r = rot (sha_uround S0 S1 k w r)"
  by (simp add: sha_round_def sha_uround_def rot_def Let_def add.assoc split: prod.split)

lemma regs_cases:
  obtains a b c d e f g h where "r = (a, b, c, d, e, f, g, h)"
  by (cases r) auto

lemma unroll8_eq: "unroll8 S0 S1 K upd j s = roll_phase S0 S1 K upd [j..<j + 8] s"
proof -
  let ?u = "sha_uround S0 S1"
  obtain W0 r where s0: "s = (W0, r)" by (cases s)
  obtain a b c d e f g h where "r = (a, b, c, d, e, f, g, h)" by (rule regs_cases)
  with s0 have s: "s = (W0, (a, b, c, d, e, f, g, h))" by simp
  let ?W1 = "upd W0 j" let ?W2 = "upd ?W1 (j + 1)" let ?W3 = "upd ?W2 (j + 2)"
  let ?W4 = "upd ?W3 (j + 3)" let ?W5 = "upd ?W4 (j + 4)" let ?W6 = "upd ?W5 (j + 5)"
  let ?W7 = "upd ?W6 (j + 6)" let ?W8 = "upd ?W7 (j + 7)"
  obtain a1 b1 c1 d1 e1 f1 g1 h1 where 1:
    "?u (K ! j) (?W1 ! (j mod 16)) (a, b, c, d, e, f, g, h) = (a1, b1, c1, d1, e1, f1, g1, h1)"
    by (rule regs_cases)
  obtain a2 b2 c2 d2 e2 f2 g2 h2 where 2:
    "?u (K ! (j + 1)) (?W2 ! ((j + 1) mod 16)) (h1, a1, b1, c1, d1, e1, f1, g1) = (h2, a2, b2, c2, d2, e2, f2, g2)"
    by (rule regs_cases)
  obtain a3 b3 c3 d3 e3 f3 g3 h3 where 3:
    "?u (K ! (j + 2)) (?W3 ! ((j + 2) mod 16)) (g2, h2, a2, b2, c2, d2, e2, f2) = (g3, h3, a3, b3, c3, d3, e3, f3)"
    by (rule regs_cases)
  obtain a4 b4 c4 d4 e4 f4 g4 h4 where 4:
    "?u (K ! (j + 3)) (?W4 ! ((j + 3) mod 16)) (f3, g3, h3, a3, b3, c3, d3, e3) = (f4, g4, h4, a4, b4, c4, d4, e4)"
    by (rule regs_cases)
  obtain a5 b5 c5 d5 e5 f5 g5 h5 where 5:
    "?u (K ! (j + 4)) (?W5 ! ((j + 4) mod 16)) (e4, f4, g4, h4, a4, b4, c4, d4) = (e5, f5, g5, h5, a5, b5, c5, d5)"
    by (rule regs_cases)
  obtain a6 b6 c6 d6 e6 f6 g6 h6 where 6:
    "?u (K ! (j + 5)) (?W6 ! ((j + 5) mod 16)) (d5, e5, f5, g5, h5, a5, b5, c5) = (d6, e6, f6, g6, h6, a6, b6, c6)"
    by (rule regs_cases)
  obtain a7 b7 c7 d7 e7 f7 g7 h7 where 7:
    "?u (K ! (j + 6)) (?W7 ! ((j + 6) mod 16)) (c6, d6, e6, f6, g6, h6, a6, b6) = (c7, d7, e7, f7, g7, h7, a7, b7)"
    by (rule regs_cases)
  obtain a8 b8 c8 d8 e8 f8 g8 h8 where 8:
    "?u (K ! (j + 7)) (?W8 ! ((j + 7) mod 16)) (b7, c7, d7, e7, f7, g7, h7, a7) = (b8, c8, d8, e8, f8, g8, h8, a8)"
    by (rule regs_cases)
  note stages = 1 2 3 4 5 6 7 8
  have l: "unroll8 S0 S1 K upd j s = (?W8, (a8, b8, c8, d8, e8, f8, g8, h8))"
    unfolding unroll8_def s by (simp only: Let_def prod.case stages)
  have u: "[j..<j + 8] = [j, j + 1, j + 2, j + 3, j + 4, j + 5, j + 6, j + 7]"
    by (simp add: upt_rec)
  have r: "roll_phase S0 S1 K upd [j..<j + 8] s = (?W8, (a8, b8, c8, d8, e8, f8, g8, h8))"
    unfolding roll_phase_def s u
    by (simp only: foldl.simps Let_def prod.case sha_round_rot stages rot_def)
  show ?thesis unfolding l r ..
qed

lemma roll_phase_append:
  "roll_phase S0 S1 K upd (xs @ ys) s = roll_phase S0 S1 K upd ys (roll_phase S0 S1 K upd xs s)"
  by (simp add: roll_phase_def)

lemma unroll_phase_eq:
  "unroll_phase S0 S1 K upd (map (\<lambda>i. a + 8 * i) [0..<n]) s = roll_phase S0 S1 K upd [a..<a + 8 * n] s"
proof (induction n)
  case 0
  then show ?case by (simp add: unroll_phase_def roll_phase_def)
next
  case (Suc n)
  have "[a..<a + 8 * Suc n] = [a..<a + 8 * n] @ [a + 8 * n..<a + 8 * n + 8]"
    using upt_add_eq_append [of a "a + 8 * n" 8] by (simp add: add.commute add.left_commute)
  with Suc show ?case
    by (simp add: unroll_phase_def roll_phase_append unroll8_eq del: upt_Suc)
      (simp add: unroll_phase_def)
qed

end
