(* ===== verification/Sha2_Stream.thy ===== *)
theory Sha2_Stream
  imports Sha2_Transform
begin

text \<open>
  Streaming interfaces of block hashes.  SHA-256 and SHA-512 have the same code with different
  block sizes, words and counters; what the proof needs of it is the interface below, and the
  relation between a context and the message absorbed so far is shown once.
\<close>

section \<open>Iterated compression\<close>

function absorb :: "nat \<Rightarrow> ('s \<Rightarrow> 'a list \<Rightarrow> 's) \<Rightarrow> 's \<Rightarrow> 'a list \<Rightarrow> 's \<times> 'a list" where
  "absorb B cf st xs =
     (if 0 < B \<and> B \<le> length xs then absorb B cf (cf st (take B xs)) (drop B xs) else (st, xs))"
  by pat_completeness auto
termination
  by (relation "measure (\<lambda>(B, cf, st, xs). length xs)") auto

declare absorb.simps [simp del]

lemma absorb_short: "length xs < B \<Longrightarrow> absorb B cf st xs = (st, xs)"
  by (subst absorb.simps) simp

lemma absorb_block: "0 < B \<Longrightarrow> length b = B \<Longrightarrow> absorb B cf st (b @ xs) = absorb B cf (cf st b) xs"
  by (subst absorb.simps) simp

lemma absorb_append:
  "absorb B cf st (xs @ ys) = (case absorb B cf st xs of (s, r) \<Rightarrow> absorb B cf s (r @ ys))"
proof (induction B cf st xs rule: absorb.induct)
  case (1 B cf st xs)
  show ?case
  proof (cases "0 < B \<and> B \<le> length xs")
    case True
    have "absorb B cf st (xs @ ys) = absorb B cf (cf st (take B xs)) (drop B xs @ ys)"
      using True by (subst absorb.simps) simp
    also have "\<dots> = (case absorb B cf (cf st (take B xs)) (drop B xs) of (s, r) \<Rightarrow> absorb B cf s (r @ ys))"
      using True by (rule 1)
    finally show ?thesis using True by (simp add: absorb.simps [of B cf st xs])
  next
    case False
    then have "absorb B cf st xs = (st, xs)" by (subst absorb.simps) auto
    then show ?thesis by simp
  qed
qed

lemma absorb_rest:
  assumes "0 < B"
  shows "length (snd (absorb B cf st xs)) = length xs mod B"
  using assms
proof (induction B cf st xs rule: absorb.induct)
  case (1 B cf st xs)
  then show ?case
    by (subst absorb.simps) (auto simp: le_mod_geq)
qed

lemma absorb_aligned:
  assumes "0 < B" and "B dvd length xs"
  shows "absorb B cf st xs = (fst (absorb B cf st xs), [])"
  using absorb_rest [OF assms(1), of cf st xs] assms(2) by (simp add: prod_eq_iff)

section \<open>Buffers\<close>

lemma length_overwrite [simp]: "i + length ys \<le> length xs \<Longrightarrow> length (overwrite xs i ys) = length xs"
  by (simp add: overwrite_def)

lemma take_overwrite: "i + length ys \<le> length xs \<Longrightarrow> take (i + length ys) (overwrite xs i ys) = take i xs @ ys"
  by (simp add: overwrite_def)

lemma overwrite_at: "i = length xs \<Longrightarrow> overwrite (xs @ ys) i zs = xs @ zs @ drop (length zs) ys"
  by (simp add: overwrite_def)

lemma overwrite_after_update:
  "u < length xs \<Longrightarrow> overwrite (xs[u := x]) (Suc u) ys = take u xs @ x # ys @ drop (Suc u + length ys) xs"
  by (simp add: overwrite_def take_Suc_conv_app_nth)

section \<open>Contexts and absorbed messages\<close>

definition hash_rel :: "nat \<Rightarrow> ('s \<Rightarrow> byte list \<Rightarrow> 's) \<Rightarrow> ('c \<Rightarrow> 's) \<Rightarrow> ('c \<Rightarrow> byte list) \<Rightarrow> ('c \<Rightarrow> 'n) \<Rightarrow> (nat \<Rightarrow> 'n)
    \<Rightarrow> 's \<Rightarrow> 'c \<Rightarrow> byte list \<Rightarrow> bool" where
  "hash_rel B cf state buf cnt bits iv c m \<longleftrightarrow>
     absorb B cf iv m = (state c, take (length m mod B) (buf c)) \<and> length (buf c) = B \<and> cnt c = bits (length m)"

text \<open>The padding of a message of \<open>n\<close> bytes: one bit, zeros up to \<open>S\<close> modulo \<open>B\<close>, and the length.\<close>

definition md_pad :: "nat \<Rightarrow> nat \<Rightarrow> (nat \<Rightarrow> byte list) \<Rightarrow> nat \<Rightarrow> byte list" where
  "md_pad B S lenb n = 0x80 # replicate ((B + S - 1 - n mod B) mod B) 0 @ lenb n"

definition md_digest :: "nat \<Rightarrow> nat \<Rightarrow> (nat \<Rightarrow> byte list) \<Rightarrow> ('s \<Rightarrow> byte list \<Rightarrow> 's) \<Rightarrow> 's \<Rightarrow> byte list \<Rightarrow> 's" where
  "md_digest B S lenb cf iv m = fst (absorb B cf iv (m @ md_pad B S lenb (length m)))"

text \<open>The context just before the length is stored, with \<open>u\<close> bytes of message pending.\<close>

definition padded :: "nat \<Rightarrow> nat \<Rightarrow> nat \<Rightarrow> ('c \<Rightarrow> byte list) \<Rightarrow> ('c \<Rightarrow> byte list \<Rightarrow> 'c) \<Rightarrow> ('c \<Rightarrow> byte list \<Rightarrow> 'c) \<Rightarrow> 'c \<Rightarrow> nat \<Rightarrow> 'c" where
  "padded B S Z buf put transform c u =
     (if u > 0
      then if u + 1 \<le> S
           then put c (overwrite ((buf c)[u := 0x80]) (u + 1) (replicate (S - (u + 1)) 0))
           else let b2 = (if u + 1 < B then overwrite ((buf c)[u := 0x80]) (u + 1) (replicate (B - (u + 1)) 0)
                          else (buf c)[u := 0x80]);
                    c' = transform (put c b2) b2
                in put c' (overwrite (buf c') 0 (replicate Z 0))
      else put c ((overwrite (buf c) 0 (replicate S 0))[0 := 0x80]))"

locale block_hash =
  fixes B S Z :: nat and cf :: "'s \<Rightarrow> byte list \<Rightarrow> 's" and state :: "'c \<Rightarrow> 's" and buf :: "'c \<Rightarrow> byte list"
    and cnt :: "'c \<Rightarrow> 'n" and bits :: "nat \<Rightarrow> 'n" and lenb :: "nat \<Rightarrow> byte list"
    and put :: "'c \<Rightarrow> byte list \<Rightarrow> 'c" and count :: "'c \<Rightarrow> nat \<Rightarrow> 'c" and used :: "'c \<Rightarrow> nat"
    and transform :: "'c \<Rightarrow> byte list \<Rightarrow> 'c" and blocks :: "'c \<Rightarrow> byte list \<Rightarrow> 'c \<times> byte list"
    and tail :: "'c \<Rightarrow> byte list \<Rightarrow> 'c" and update :: "'c \<Rightarrow> byte list \<Rightarrow> 'c"
  assumes sizes: "0 < S" "S < B" "S \<le> Z" "Z \<le> B" "B < 2 ^ 61" and lenb: "length (lenb n) = B - S"
    and put: "state (put c b) = state c" "buf (put c b) = b" "cnt (put c b) = cnt c"
    and count: "state (count c k) = state c" "buf (count c k) = buf c" "cnt c = bits n \<Longrightarrow> k < 2 ^ 61 \<Longrightarrow> cnt (count c k) = bits (n + k)"
    and used: "cnt c = bits n \<Longrightarrow> used c = n mod B"
    and transform: "length d = B \<Longrightarrow> state (transform c d) = cf (state c) d" "length d = B \<Longrightarrow> length (buf (transform c d)) = B"
      "cnt (transform c d) = cnt c"
    and blocks: "blocks c d = (if B \<le> length d then blocks (count (transform c (take B d)) B) (drop B d) else (c, d))"
    and tail: "tail c d = (if d = [] then c else count (put c (overwrite (buf c) 0 d)) (length d))"
    and update: "update c d = (if d = [] then c
      else if 0 < used c
           then if B - used c \<le> length d
                then let c1 = count (put c (overwrite (buf c) (used c) (take (B - used c) d))) (B - used c)
                     in case blocks (transform c1 (buf c1)) (drop (B - used c) d) of (c2, r) \<Rightarrow> tail c2 r
                else count (put c (overwrite (buf c) (used c) d)) (length d)
           else case blocks c d of (c2, r) \<Rightarrow> tail c2 r)"
begin

abbreviation rel :: "'s \<Rightarrow> 'c \<Rightarrow> byte list \<Rightarrow> bool" where
  "rel \<equiv> hash_rel B cf state buf cnt bits"

lemma relI:
  assumes "absorb B cf iv m = (state c, r)" and "take (length r) (buf c) = r" and "length (buf c) = B" and "cnt c = bits (length m)"
  shows "rel iv c m"
proof -
  have "0 < B" using sizes by simp
  from absorb_rest [OF this, of cf iv m] assms(1) have "length m mod B = length r" by simp
  with assms show ?thesis by (simp add: hash_rel_def)
qed

lemma relD:
  assumes "rel iv c m"
  shows "absorb B cf iv m = (state c, take (length m mod B) (buf c))" "length (buf c) = B" "cnt c = bits (length m)" "used c = length m mod B"
  using assms used by (auto simp: hash_rel_def)

lemma mod_B: "n mod B < B"
  using sizes by simp

text \<open>Appending bytes that do not complete a block, and bytes that complete one.\<close>

lemma rel_store:
  assumes r: "rel iv c m" and l: "length m mod B + length d < B"
  shows "rel iv (count (put c (overwrite (buf c) (length m mod B) d)) (length d)) (m @ d)"
proof (rule relI)
  note ab = relD [OF r]
  show "absorb B cf iv (m @ d) = (state (count (put c (overwrite (buf c) (length m mod B) d)) (length d)), take (length m mod B) (buf c) @ d)"
    using l ab by (simp add: absorb_append [of _ _ _ m d] absorb_short put count)
  have "length d < 2 ^ 61" using l sizes by linarith
  then show "cnt (count (put c (overwrite (buf c) (length m mod B) d)) (length d)) = bits (length (m @ d))"
    using ab count(3) [of "put c (overwrite (buf c) (length m mod B) d)" "length m" "length d"] by (simp add: put)
qed (use l relD [OF r] in \<open>simp_all add: take_overwrite put count\<close>)

lemma rel_complete:
  assumes r: "rel iv c m" and l: "length m mod B + length d = B"
    and c': "length (buf c') = B" "cnt c' = bits (length m + length d)" "state c' = cf (state c) (take (length m mod B) (buf c) @ d)"
  shows "rel iv c' (m @ d)"
proof (rule relI [where r = "[]"])
  note ab = relD [OF r]
  have "length (take (length m mod B) (buf c) @ d) = B" "0 < B" using l ab sizes by simp_all
  then show "absorb B cf iv (m @ d) = (state c', [])"
    using absorb_block [of B "take (length m mod B) (buf c) @ d" cf "state c" "[]"]
    by (simp add: absorb_append [of _ _ _ m d] ab absorb_short c')
qed (use c' in simp_all)

lemma rel_blocks:
  "rel iv c m \<Longrightarrow> B dvd length m \<Longrightarrow> blocks c d = (c', r) \<Longrightarrow>
   \<exists>k. rel iv c' (m @ take k d) \<and> r = drop k d \<and> length r < B \<and> B dvd length (m @ take k d)"
proof (induction d arbitrary: c m rule: length_induct)
  case (1 d)
  show ?case
  proof (cases "B \<le> length d")
    case False
    then have "c' = c" "r = d" using 1(4) by (simp_all add: blocks [of c d])
    with 1(2,3) False show ?thesis by (intro exI [of _ 0]) simp
  next
    case True
    let ?b = "take B d" and ?c = "count (transform c (take B d)) B"
    have lb: "length ?b = B" and z: "length m mod B = 0" using True 1(3) by simp_all
    have "rel iv ?c (m @ ?b)"
      by (rule rel_complete [OF 1(2)]) (use lb z relD [OF 1(2)] sizes transform count in simp_all)
    moreover have "B dvd length (m @ ?b)" using 1(3) lb by simp
    moreover have "blocks ?c (drop B d) = (c', r)" using 1(4) True by (simp add: blocks [of c d])
    moreover have "length (drop B d) < length d" using True sizes by simp
    ultimately obtain k where "rel iv c' ((m @ ?b) @ take k (drop B d))" "r = drop k (drop B d)" "length r < B"
      "B dvd length ((m @ ?b) @ take k (drop B d))" using 1(1) by blast
    moreover have "take B d @ take k (drop B d) = take (B + k) d" "drop k (drop B d) = drop (B + k) d"
      by (simp_all only: take_add drop_drop add.commute [of k])
    ultimately show ?thesis by (metis append_assoc)
  qed
qed

lemma rel_blocks_tail:
  assumes "rel iv c m" and "B dvd length m"
  shows "rel iv (case blocks c d of (c', r) \<Rightarrow> tail c' r) (m @ d)"
proof -
  obtain c' r where e: "blocks c d = (c', r)" by (cases "blocks c d")
  from rel_blocks [OF assms e] obtain k where k: "rel iv c' (m @ take k d)" "B dvd length (m @ take k d)" "length r < B" "r = drop k d" by blast
  then have z: "length (m @ take k d) mod B = 0" by (simp only: dvd_eq_mod_eq_0)
  have "rel iv (tail c' r) ((m @ take k d) @ r)"
    using k(1,3) rel_store [OF k(1), unfolded z, of r] by (cases "r = []") (simp_all add: tail)
  then show ?thesis using e k by simp
qed

lemma rel_update:
  assumes r: "rel iv c m" and l: "length d < 2 ^ 61"
  shows "rel iv (update c d) (m @ d)"
proof -
  let ?u = "length m mod B"
  note ab = relD [OF r]
  consider (empty) "d = []" | (aligned) "d \<noteq> []" "?u = 0" | (small) "d \<noteq> []" "0 < ?u" "length d < B - ?u"
    | (fill) "d \<noteq> []" "0 < ?u" "B - ?u \<le> length d" by linarith
  then show ?thesis
  proof cases
    case empty
    then show ?thesis using r by (simp add: update)
  next
    case aligned
    then have "B dvd length m" by (simp only: dvd_eq_mod_eq_0)
    from rel_blocks_tail [OF r this] aligned ab show ?thesis by (simp add: update)
  next
    case small
    then have "?u + length d < B" by linarith
    from rel_store [OF r this] small ab show ?thesis by (simp add: update)
  next
    case fill
    let ?f = "B - ?u" and ?d1 = "take (B - ?u) d"
    define c1 where "c1 = count (put c (overwrite (buf c) ?u ?d1)) ?f"
    have ld: "length ?d1 = ?f" "?u + length ?d1 = B" using fill mod_B [of "length m"] by simp_all
    have b1: "buf c1 = take ?u (buf c) @ ?d1"
      using ab ld take_overwrite [of ?u ?d1 "buf c"] by (simp add: overwrite_def c1_def put count)
    then have lc: "length (buf c1) = B" using ab ld by simp
    have "?f < 2 ^ 61" using sizes by simp
    then have n1: "cnt c1 = bits (length m + length ?d1)"
      using ab count(3) [of "put c (overwrite (buf c) ?u ?d1)" "length m" ?f] ld(1) by (simp only: c1_def put)
    have "rel iv (transform c1 (buf c1)) (m @ ?d1)"
      by (rule rel_complete [OF r ld(2)]) (use transform(1,2) [OF lc, of c1] transform(3) n1 b1 in \<open>simp_all add: c1_def put count\<close>)
    moreover have "B dvd length (m @ ?d1)"
    proof -
      have "length (m @ ?d1) = B * (length m div B) + (?u + length ?d1)"
        by (simp only: length_append mult_div_mod_eq flip: add.assoc)
      then show ?thesis unfolding ld(2) by simp
    qed
    ultimately have "rel iv (case blocks (transform c1 (buf c1)) (drop ?f d) of (c', r) \<Rightarrow> tail c' r) ((m @ ?d1) @ drop ?f d)"
      by (rule rel_blocks_tail)
    then show ?thesis using fill ab by (simp add: update Let_def c1_def)
  qed
qed

lemma rel_updates:
  "rel iv c m \<Longrightarrow> \<forall>d \<in> set ds. length d < 2 ^ 61 \<Longrightarrow> rel iv (foldl update c ds) (m @ concat ds)"
proof (induction ds arbitrary: c m)
  case (Cons d ds)
  then have "rel iv (update c d) (m @ d)" by (intro rel_update) simp_all
  from Cons.IH [OF this] Cons.prems show ?case by simp
qed simp

text \<open>The two shapes of the final blocks.\<close>

abbreviation digest :: "'s \<Rightarrow> byte list \<Rightarrow> 's" where
  "digest \<equiv> md_digest B S lenb cf"

abbreviation pad :: "'c \<Rightarrow> nat \<Rightarrow> 'c" where
  "pad \<equiv> padded B S Z buf put transform"

lemma pad_zeros:
  "u < S \<Longrightarrow> (B + S - 1 - u) mod B = S - 1 - u"
  "S \<le> u \<Longrightarrow> u < B \<Longrightarrow> (B + S - 1 - u) mod B = (B - 1 - u) + S"
proof -
  assume "u < S"
  then have "B + S - 1 - u = B + (S - 1 - u)" "S - 1 - u < B" using sizes by simp_all
  then show "(B + S - 1 - u) mod B = S - 1 - u" by (simp only: mod_add_self1 mod_less)
next
  assume "S \<le> u" "u < B"
  then have "B + S - 1 - u = (B - 1 - u) + S" "B + S - 1 - u < B" using sizes by simp_all
  then show "(B + S - 1 - u) mod B = (B - 1 - u) + S" by (simp only: mod_less)
qed

lemma digest_split:
  assumes "rel iv c m"
  shows "digest iv m = fst (absorb B cf (state c) (take (length m mod B) (buf c) @ md_pad B S lenb (length m)))"
  using relD(1) [OF assms] by (simp add: md_digest_def absorb_append [of _ _ _ m])

lemma absorb_one: "length b = B \<Longrightarrow> absorb B cf s b = (cf s b, [])"
  using absorb_block [of B b cf s "[]"] sizes by (simp add: absorb_short)

lemma digest_one_block:
  assumes r: "rel iv c m" and u: "length m mod B < S"
  shows "digest iv m = cf (state c) ((take (length m mod B) (buf c) @ 0x80 # replicate (S - 1 - length m mod B) 0) @ lenb (length m))"
  unfolding digest_split [OF r] md_pad_def pad_zeros(1) [OF u]
  using absorb_one [of "take (length m mod B) (buf c) @ 0x80 # replicate (S - 1 - length m mod B) 0 @ lenb (length m)"] u sizes relD(2) [OF r]
  by (simp add: lenb)

lemma digest_two_blocks:
  assumes r: "rel iv c m" and u: "S \<le> length m mod B"
  shows "digest iv m = cf (cf (state c) (take (length m mod B) (buf c) @ 0x80 # replicate (B - 1 - length m mod B) 0)) (replicate S 0 @ lenb (length m))"
proof -
  let ?b1 = "take (length m mod B) (buf c) @ 0x80 # replicate (B - 1 - length m mod B) 0" and ?b2 = "replicate S 0 @ lenb (length m)"
  have p: "take (length m mod B) (buf c) @ md_pad B S lenb (length m) = ?b1 @ ?b2"
    unfolding md_pad_def pad_zeros(2) [OF u mod_B] replicate_add by simp
  have "length ?b1 = B" using relD(2) [OF r] mod_B [of "length m"] by (simp del: mod_less_divisor)
  moreover have "length ?b2 = B" "0 < B" using sizes by (simp_all add: lenb)
  ultimately show ?thesis
    unfolding digest_split [OF r] p using absorb_block [of B ?b1 cf "state c" ?b2] absorb_one [of ?b2] by simp
qed

lemma pad_one:
  assumes "length (buf c) = B" and "u < S"
  shows "buf (pad c u) = (take u (buf c) @ 0x80 # replicate (S - 1 - u) 0) @ drop S (buf c)" and "state (pad c u) = state c"
proof -
  have "replicate S (0 :: byte) = 0 # replicate (S - 1) 0" using sizes(1) by (cases S) simp_all
  then show "buf (pad c u) = (take u (buf c) @ 0x80 # replicate (S - 1 - u) 0) @ drop S (buf c)"
  proof (cases "u = 0")
    case False
    then show ?thesis using assms sizes by (simp add: padded_def put overwrite_after_update)
  qed (use assms sizes in \<open>simp add: padded_def put overwrite_def\<close>)
  show "state (pad c u) = state c" using assms sizes by (simp add: padded_def put)
qed

lemma pad_two:
  assumes "length (buf c) = B" and "S \<le> u" and "u < B"
  shows "\<exists>ys. length ys = B - S \<and> buf (pad c u) = replicate S 0 @ ys"
    and "state (pad c u) = cf (state c) (take u (buf c) @ 0x80 # replicate (B - 1 - u) 0)"
proof -
  let ?b = "take u (buf c) @ 0x80 # replicate (B - 1 - u) 0"
  let ?c = "transform (put c ?b) ?b"
  have b: "(if u + 1 < B then overwrite ((buf c)[u := 0x80]) (u + 1) (replicate (B - (u + 1)) 0) else (buf c)[u := 0x80]) = ?b"
  proof (cases "u + 1 < B")
    case True
    then show ?thesis using assms by (simp add: overwrite_after_update)
  next
    case False
    then have "B = Suc u" using assms by simp
    then show ?thesis using assms by (simp add: upd_conv_take_nth_drop)
  qed
  have p: "pad c u = put ?c (overwrite (buf ?c) 0 (replicate Z 0))"
    using assms sizes by (simp only: padded_def b Let_def) simp
  have l: "length ?b = B" using assms by simp
  have "replicate Z (0::byte) = replicate S 0 @ replicate (Z - S) 0" using sizes by (simp flip: replicate_add)
  then show "\<exists>ys. length ys = B - S \<and> buf (pad c u) = replicate S 0 @ ys"
    using transform(2) [OF l, of "put c ?b"] sizes
    by (intro exI [of _ "replicate (Z - S) 0 @ drop Z (buf ?c)"]) (simp add: p put overwrite_def)
  show "state (pad c u) = cf (state c) ?b" using transform(1) [OF l, of "put c ?b"] by (simp add: p put)
qed

lemma length_pad:
  assumes "length (buf c) = B" and "u < B"
  shows "length (buf (pad c u)) = B"
proof (cases "u < S")
  case True
  then show ?thesis using pad_one(1) [OF assms(1)] assms sizes by simp
next
  case False
  then have "S \<le> u" by simp
  from pad_two(1) [OF assms(1) this assms(2)] sizes show ?thesis by auto
qed

text \<open>Storing the length and one more transform give the digest.\<close>

lemma final_state:
  assumes r: "rel iv c m" and c0: "state c0 = state c" "buf c0 = buf c"
    and b: "b = overwrite (buf (pad c0 (length m mod B))) S (lenb (length m))"
  shows "state (transform (put (pad c0 (length m mod B)) b) b) = digest iv m"
proof -
  let ?u = "length m mod B" and ?p = "pad c0 (length m mod B)"
  have l: "length (buf c0) = B" using relD(2) [OF r] c0 by simp
  have "\<exists>xs ys. buf ?p = xs @ ys \<and> length xs = S \<and> length ys = B - S \<and> digest iv m = cf (state ?p) (xs @ lenb (length m))"
  proof (cases "?u < S")
    case True
    show ?thesis
      using pad_one [OF l True] digest_one_block [OF r True] c0 l sizes True
      by (intro exI [of _ "take ?u (buf c) @ 0x80 # replicate (S - 1 - ?u) 0"] exI [of _ "drop S (buf c)"]) simp
  next
    case False
    then have u: "S \<le> ?u" by simp
    from pad_two(1) [OF l u mod_B] obtain ys where "length ys = B - S" "buf ?p = replicate S 0 @ ys" by blast
    then show ?thesis using pad_two(2) [OF l u mod_B] digest_two_blocks [OF r u] c0
      by (intro exI [of _ "replicate S 0"] exI [of _ ys]) simp
  qed
  then obtain xs ys where x: "buf ?p = xs @ ys" "length xs = S" "length ys = B - S" "digest iv m = cf (state ?p) (xs @ lenb (length m))"
    by blast
  then have "b = xs @ lenb (length m)" by (simp add: b overwrite_at lenb)
  then show ?thesis using x transform(1) [of b "put ?p b"] sizes by (simp add: lenb put)
qed

end

end
