(* ===== verification/Sha2_Correct.thy ===== *)
theory Sha2_Correct
  imports Sha2_Stream
begin

unbundle bit_operations_syntax

text \<open>
  Functional correctness of the streaming SHA-2 interfaces: whatever chunks the caller passes
  to the update functions, the final functions return the digest FIPS 180-4 assigns to the
  concatenated message.  Both code families are instances of the block hash interface.
\<close>

section \<open>The specification\<close>

definition block64 :: "byte list \<Rightarrow> u64 list" where
  "block64 bs = map (\<lambda>j. be_load (take 8 (drop (8 * j) bs))) [0..<16]"

definition sha512_compress :: "u64 list \<Rightarrow> byte list \<Rightarrow> u64 list" where
  "sha512_compress st b = fips_compress Sigma0_512 Sigma1_512 sigma0_512 sigma1_512 K512 st (block64 b)"

text \<open>
  The padding of a message of \<open>n\<close> bytes: one bit, zeros up to 112 modulo 128, and the bit
  length as a 128-bit big-endian number.
\<close>

definition sha512_pad :: "nat \<Rightarrow> byte list" where
  "sha512_pad n = 0x80 # replicate ((239 - n mod 128) mod 128) 0 @ be_bytes 16 (of_nat (8 * n) :: 128 word)"

definition sha512_digest :: "u64 list \<Rightarrow> byte list \<Rightarrow> u64 list" where
  "sha512_digest iv m = fst (absorb 128 sha512_compress iv (m @ sha512_pad (length m)))"

definition block32 :: "byte list \<Rightarrow> u32 list" where
  "block32 bs = map (\<lambda>j. be_load (take 4 (drop (4 * j) bs))) [0..<16]"

definition sha256_compress :: "u32 list \<Rightarrow> byte list \<Rightarrow> u32 list" where
  "sha256_compress st b = fips_compress Sigma0_256 Sigma1_256 sigma0_256 sigma1_256 K256 st (block32 b)"

text \<open>The padding of SHA-256: zeros up to 56 modulo 64, and the bit length as a 64-bit number.\<close>

definition sha256_pad :: "nat \<Rightarrow> byte list" where
  "sha256_pad n = 0x80 # replicate ((119 - n mod 64) mod 64) 0 @ be_bytes 8 (of_nat (8 * n) :: u64)"

definition sha256_spec :: "byte list \<Rightarrow> byte list" where
  "sha256_spec m =
     concat (map (be_bytes 4) (fst (absorb 64 sha256_compress sha256_initial_hash_value (m @ sha256_pad (length m)))))"

definition sha512_spec :: "byte list \<Rightarrow> byte list" where
  "sha512_spec m = concat (map (be_bytes 8) (sha512_digest sha512_initial_hash_value m))"

section \<open>The transforms\<close>

lemma length_K512: "length K512 = 80"
  by (simp add: K512_def)

lemma length_words64 [simp]: "length (words64 b) = 16"
  by (simp add: words64_def)

lemma length_concat_const: "(\<And>x. x \<in> set xs \<Longrightarrow> length (f x) = n) \<Longrightarrow> length (concat (map f xs)) = n * length xs"
  by (induction xs) auto

lemma length_add_regs [simp]: "length (add_regs st r) = 8"
  by (simp add: add_regs_def split: prod.split)

lemma block64_words64: "length b = 128 \<Longrightarrow> map REVERSE64 (words64 b) = block64 b"
  by (simp add: words64_def block64_def REVERSE64_le_load)

lemma SHA512_Transform_correct:
  assumes "length data = 128"
  shows "state512 (SHA512_Transform c data) = sha512_compress (state512 c) data"
    and "length (buffer512 (SHA512_Transform c data)) = 128"
    and "bitcount512 (SHA512_Transform c data) = bitcount512 c"
    and "length (state512 (SHA512_Transform c data)) = 8"
proof -
  have "length K512 = 16 + 64" "(80::nat) = 16 + 64" by (simp_all add: length_K512)
  from roll_compress [OF length_words64 length_words64 this] obtain W where W: "length W = 16"
    and e: "roll_phase Sigma0_512 Sigma1_512 K512 (W_expand sigma0_512 sigma1_512) [16..<80]
      (roll_phase Sigma0_512 Sigma1_512 K512 (W_load REVERSE64 (words64 data)) [0..<16]
         (words64 (buffer512 c), regs_of (state512 c))) =
    (W, foldl (\<lambda>r t. sha_round Sigma0_512 Sigma1_512 (K512 ! t)
          (fips_sched sigma0_512 sigma1_512 (map REVERSE64 (words64 data)) 64 ! t) r)
        (regs_of (state512 c)) [0..<80])"
    by blast
  have n: "(80::nat) - 16 = 64" by simp
  show "state512 (SHA512_Transform c data) = sha512_compress (state512 c) data"
    unfolding SHA512_Transform_def Let_def e sha512_compress_def fips_compress_def length_K512 n
      block64_words64 [OF assms] by simp
  show "length (buffer512 (SHA512_Transform c data)) = 128"
    unfolding SHA512_Transform_def Let_def e using W by (simp add: length_concat_const [where n = 8])
qed (simp_all add: SHA512_Transform_def Let_def)

lemma length_K256: "length K256 = 64"
  by (simp add: K256_def)

lemma length_words32 [simp]: "length (words32 b) = 16"
  by (simp add: words32_def)

lemma block32_words32: "length b = 64 \<Longrightarrow> map REVERSE32 (words32 b) = block32 b"
  by (simp add: words32_def block32_def REVERSE32_le_load)

lemma SHA256_Transform_correct:
  assumes "length data = 64"
  shows "state256 (SHA256_Transform c data) = sha256_compress (state256 c) data"
    and "length (buffer256 (SHA256_Transform c data)) = 64"
proof -
  have "length K256 = 16 + 48" "(64::nat) = 16 + 48" by (simp_all add: length_K256)
  from roll_compress [OF length_words32 length_words32 this] obtain W where W: "length W = 16"
    and e: "roll_phase Sigma0_256 Sigma1_256 K256 (W_expand sigma0_256 sigma1_256) [16..<64]
      (roll_phase Sigma0_256 Sigma1_256 K256 (W_load REVERSE32 (words32 data)) [0..<16]
         (words32 (buffer256 c), regs_of (state256 c))) =
    (W, foldl (\<lambda>r t. sha_round Sigma0_256 Sigma1_256 (K256 ! t)
          (fips_sched sigma0_256 sigma1_256 (map REVERSE32 (words32 data)) 48 ! t) r)
        (regs_of (state256 c)) [0..<64])"
    by blast
  have n: "(64::nat) - 16 = 48" by simp
  show "state256 (SHA256_Transform c data) = sha256_compress (state256 c) data"
    unfolding SHA256_Transform_def Let_def e sha256_compress_def fips_compress_def length_K256 n
      block32_words32 [OF assms] by simp
  show "length (buffer256 (SHA256_Transform c data)) = 64"
    unfolding SHA256_Transform_def Let_def e using W by (simp add: length_concat_const [where n = 4])
qed

section \<open>The bit counters\<close>

definition bits128 :: "nat \<Rightarrow> u64 \<times> u64" where
  "bits128 n = (of_nat (8 * n), of_nat (8 * n div 2 ^ 64))"

lemma carry_nat:
  fixes a b Q :: nat
  assumes "b < Q"
  shows "(a + b) div Q = a div Q + (if (a + b) mod Q < b then 1 else 0)"
proof -
  let ?r = "a mod Q"
  have r: "?r < Q" using assms by simp
  have e: "(a + b) div Q = a div Q + (?r + b) div Q" and m: "(a + b) mod Q = (?r + b) mod Q"
    using div_add1_eq [of a b Q] assms by (simp_all add: mod_simps)
  show ?thesis
  proof (cases "Q \<le> ?r + b")
    case True
    from r assms have "?r + b - Q < Q" by linarith
    with True assms have "(?r + b) div Q = 1" and "(?r + b) mod Q = ?r + b - Q"
      by (simp_all add: le_div_geq le_mod_geq)
    then show ?thesis using e m r True by simp
  next
    case False
    then show ?thesis using e m by simp
  qed
qed

lemma unat_of_nat64: "unat (of_nat x :: u64) = x mod 2 ^ 64"
  by (simp add: unat_of_nat take_bit_eq_mod)

lemma ADDINC128_bits128:
  assumes "k < 2 ^ 61"
  shows "ADDINC128 (bits128 n) (push_bit 3 (of_nat k)) = bits128 (n + k)"
proof -
  have b: "8 * k < 2 ^ 64" using assms by simp
  have inc: "push_bit 3 (of_nat k) = (of_nat (8 * k) :: u64)"
    by (simp add: push_bit_eq_mult mult.commute)
  have sum: "(of_nat (8 * n) :: u64) + of_nat (8 * k) = of_nat (8 * n + 8 * k)"
    by simp
  have lt: "(of_nat (8 * n + 8 * k) :: u64) < of_nat (8 * k) \<longleftrightarrow> (8 * n + 8 * k) mod 2 ^ 64 < 8 * k"
    unfolding word_less_nat_alt unat_of_nat64 using b by (simp only: mod_less)
  show ?thesis
    unfolding ADDINC128_def bits128_def Let_def fst_conv snd_conv inc sum lt distrib_left carry_nat [OF b, of "8 * n"]
    by (simp add: add.commute)
qed

lemma SHA512_usedspace_bits:
  assumes "bitcount512 c = bits128 n"
  shows "SHA512_usedspace c = n mod 128"
proof -
  have "unat (drop_bit 3 (of_nat (8 * n) :: u64)) = (8 * n) mod 2 ^ 64 div 2 ^ 3"
    by (simp only: unat_drop_bit_eq unat_of_nat64 drop_bit_eq_div [where 'a = nat])
  also have "\<dots> = n mod 2 ^ 61" 
    using mod_mult_mult1 [of 8 n "2 ^ 61"] by simp
  finally have "SHA512_usedspace c = n mod 2 ^ 61 mod 128"
    using assms by (simp only: SHA512_usedspace_def bits128_def SHA512_BLOCK_LENGTH_def fst_conv)
  also have "\<dots> = n mod 128" by (rule mod_mod_cancel) simp
  finally show ?thesis .
qed

definition bits64 :: "nat \<Rightarrow> u64" where
  "bits64 n = of_nat (8 * n)"

lemma pushed_count: "push_bit 3 (of_nat k) = (of_nat (8 * k) :: u64)"
  by (simp add: push_bit_eq_mult mult.commute)

lemma bits64_add: "bits64 n + push_bit 3 (of_nat k) = bits64 (n + k)"
  unfolding bits64_def pushed_count by (simp add: distrib_left)

lemma SHA256_usedspace_bits:
  assumes "bitcount256 c = bits64 n"
  shows "SHA256_usedspace c = n mod 64"
proof -
  have "unat (drop_bit 3 (of_nat (8 * n) :: u64)) = (8 * n) mod 2 ^ 64 div 2 ^ 3"
    by (simp only: unat_drop_bit_eq unat_of_nat64 drop_bit_eq_div [where 'a = nat])
  also have "\<dots> = n mod 2 ^ 61" using mod_mult_mult1 [of 8 n "2 ^ 61"] by simp
  finally have "SHA256_usedspace c = n mod 2 ^ 61 mod 64"
    using assms by (simp only: SHA256_usedspace_def bits64_def SHA256_BLOCK_LENGTH_def)
  also have "\<dots> = n mod 64" by (rule mod_mod_cancel) simp
  finally show ?thesis .
qed

section \<open>Two block hashes\<close>

definition put512 :: "SHA512_CTX \<Rightarrow> byte list \<Rightarrow> SHA512_CTX" where
  "put512 c b = c\<lparr>buffer512 := b\<rparr>"

definition count512 :: "SHA512_CTX \<Rightarrow> nat \<Rightarrow> SHA512_CTX" where
  "count512 c k = c\<lparr>bitcount512 := ADDINC128 (bitcount512 c) (push_bit 3 (of_nat k))\<rparr>"

definition put256 :: "SHA256_CTX \<Rightarrow> byte list \<Rightarrow> SHA256_CTX" where
  "put256 c b = c\<lparr>buffer256 := b\<rparr>"

definition count256 :: "SHA256_CTX \<Rightarrow> nat \<Rightarrow> SHA256_CTX" where
  "count256 c k = c\<lparr>bitcount256 := bitcount256 c + push_bit 3 (of_nat k)\<rparr>"

lemma transform_keeps_count: "bitcount512 (SHA512_Transform c d) = bitcount512 c" "bitcount256 (SHA256_Transform c' d) = bitcount256 c'"
  by (simp_all add: SHA512_Transform_def SHA256_Transform_def Let_def)

interpretation h512: block_hash 128 112 126 sha512_compress state512 buffer512 bitcount512 bits128
    "\<lambda>n. be_bytes 16 (of_nat (8 * n) :: 128 word)" put512 count512 SHA512_usedspace SHA512_Transform SHA512_blocks SHA512_tail SHA512_Update
proof unfold_locales
  show "SHA512_blocks c d = (if 128 \<le> length d then SHA512_blocks (count512 (SHA512_Transform c (take 128 d)) 128) (drop 128 d) else (c, d))" for c d
    by (subst SHA512_blocks.simps) (simp add: SHA512_BLOCK_LENGTH_def count512_def transform_keeps_count)
  show "SHA512_Update c d = (if d = [] then c
      else if 0 < SHA512_usedspace c
           then if 128 - SHA512_usedspace c \<le> length d
                then let c1 = count512 (put512 c (overwrite (buffer512 c) (SHA512_usedspace c) (take (128 - SHA512_usedspace c) d))) (128 - SHA512_usedspace c)
                     in case SHA512_blocks (SHA512_Transform c1 (buffer512 c1)) (drop (128 - SHA512_usedspace c) d) of (c2, r) \<Rightarrow> SHA512_tail c2 r
                else count512 (put512 c (overwrite (buffer512 c) (SHA512_usedspace c) d)) (length d)
           else case SHA512_blocks c d of (c2, r) \<Rightarrow> SHA512_tail c2 r)" for c d
    by (simp add: SHA512_Update_def Let_def SHA512_BLOCK_LENGTH_def put512_def count512_def)
  show "bitcount512 c = bits128 n \<Longrightarrow> k < 2 ^ 61 \<Longrightarrow> bitcount512 (count512 c k) = bits128 (n + k)" for c n k
    by (simp add: count512_def ADDINC128_bits128)
qed (simp_all add: put512_def count512_def SHA512_tail_def SHA512_usedspace_bits SHA512_Transform_correct transform_keeps_count)

interpretation h256: block_hash 64 56 56 sha256_compress state256 buffer256 bitcount256 bits64
    "\<lambda>n. be_bytes 8 (of_nat (8 * n) :: u64)" put256 count256 SHA256_usedspace SHA256_Transform SHA256_blocks SHA256_tail SHA256_Update
proof unfold_locales
  show "SHA256_blocks c d = (if 64 \<le> length d then SHA256_blocks (count256 (SHA256_Transform c (take 64 d)) 64) (drop 64 d) else (c, d))" for c d
    by (subst SHA256_blocks.simps) (simp add: SHA256_BLOCK_LENGTH_def count256_def transform_keeps_count)
  show "SHA256_Update c d = (if d = [] then c
      else if 0 < SHA256_usedspace c
           then if 64 - SHA256_usedspace c \<le> length d
                then let c1 = count256 (put256 c (overwrite (buffer256 c) (SHA256_usedspace c) (take (64 - SHA256_usedspace c) d))) (64 - SHA256_usedspace c)
                     in case SHA256_blocks (SHA256_Transform c1 (buffer256 c1)) (drop (64 - SHA256_usedspace c) d) of (c2, r) \<Rightarrow> SHA256_tail c2 r
                else count256 (put256 c (overwrite (buffer256 c) (SHA256_usedspace c) d)) (length d)
           else case SHA256_blocks c d of (c2, r) \<Rightarrow> SHA256_tail c2 r)" for c d
    by (simp add: SHA256_Update_def Let_def SHA256_BLOCK_LENGTH_def put256_def count256_def)
  show "bitcount256 c = bits64 n \<Longrightarrow> k < 2 ^ 61 \<Longrightarrow> bitcount256 (count256 c k) = bits64 (n + k)" for c n k
    by (simp add: count256_def bits64_add)
qed (simp_all add: put256_def count256_def SHA256_tail_def SHA256_usedspace_bits SHA256_Transform_correct transform_keeps_count)

section \<open>Padding and output\<close>

lemma bit128_halves:
  assumes "i < 8"
  shows "byte_of i (of_nat k :: u64) = byte_of i (of_nat k :: 128 word)"
    and "byte_of i (of_nat (k div 2 ^ 64) :: u64) = byte_of (8 + i) (of_nat k :: 128 word)"
proof -
  show "byte_of i (of_nat k :: u64) = byte_of i (of_nat k :: 128 word)"
    using assms by (intro bit_word_eqI) (auto simp: bit_byte_of bit_of_nat_iff)
  have "bit (of_nat (k div 2 ^ 64) :: u64) n \<longleftrightarrow> n < 64 \<and> bit (of_nat k :: 128 word) (64 + n)" for n
    by (auto simp only: bit_of_nat_iff drop_bit_eq_div [symmetric] bit_drop_bit_eq o_def) simp_all
  with assms show "byte_of i (of_nat (k div 2 ^ 64) :: u64) = byte_of (8 + i) (of_nat k :: 128 word)"
    by (intro bit_word_eqI) (simp add: bit_byte_of algebra_simps)
qed

lemma be_bytes_bits128:
  "be_bytes 8 (snd (bits128 n)) @ be_bytes 8 (fst (bits128 n)) = be_bytes 16 (of_nat (8 * n) :: 128 word)"
  (is "?l = ?r")
proof (rule nth_equalityI)
  fix i assume "i < length ?l"
  then have i: "i < 16" by simp
  show "?l ! i = ?r ! i"
  proof (cases "i < 8")
    case True
    then show ?thesis using bit128_halves(2) [of "7 - i" "8 * n"]
      by (simp add: nth_append nth_be_bytes bits128_def del: of_nat_mult)
  next
    case False
    with i show ?thesis using bit128_halves(1) [of "15 - i" "8 * n"]
      by (simp add: nth_append nth_be_bytes bits128_def del: of_nat_mult)
  qed
qed simp

lemma sha512_digest_md: "sha512_digest iv m = md_digest 128 112 (\<lambda>n. be_bytes 16 (of_nat (8 * n) :: 128 word)) sha512_compress iv m"
  by (simp add: sha512_digest_def md_digest_def sha512_pad_def md_pad_def)

lemma overwrite_twice:
  assumes "i + length ys + length zs \<le> length xs" and "j = i + length ys"
  shows "overwrite (overwrite xs i ys) j zs = overwrite xs i (ys @ zs)"
proof -
  let ?p = "take i xs @ ys" and ?r = "drop (i + length ys) xs"
  have "overwrite xs i ys = ?p @ ?r" by (simp add: overwrite_def)
  moreover have "overwrite (?p @ ?r) j zs = ?p @ zs @ drop (length zs) ?r"
    using assms by (intro overwrite_at) simp
  ultimately show ?thesis by (simp add: overwrite_def add_ac)
qed

lemma SHA512_Last_state:
  assumes r: "h512.rel iv c m"
  shows "state512 (SHA512_Last c) = sha512_digest iv m"
proof -
  note d = h512.relD [OF r]
  define c0 where "c0 = c\<lparr>bitcount512 := (REVERSE64 (fst (bitcount512 c)), REVERSE64 (snd (bitcount512 c)))\<rparr>"
  define p where "p = h512.pad c0 (length m mod 128)"
  define b where "b = overwrite (buffer512 p) 112 (be_bytes 16 (of_nat (8 * length m) :: 128 word))"
  have l: "length (buffer512 p) = 128"
    using h512.length_pad [of c0 "length m mod 128"] d by (simp add: p_def c0_def)
  have e: "overwrite (overwrite (buffer512 p) 112 (be_bytes 8 (snd (bits128 (length m))))) (112 + 8) (be_bytes 8 (fst (bits128 (length m)))) = b"
    using overwrite_twice [of 112 "be_bytes 8 (snd (bits128 (length m)))" "be_bytes 8 (fst (bits128 (length m)))" "buffer512 p"] l
    by (simp add: b_def be_bytes_bits128)
  have "SHA512_Last c = SHA512_Transform (put512 p b) b"
    unfolding e [symmetric]
    using d by (simp add: SHA512_Last_def padded_def p_def c0_def put512_def Let_def SHA512_BLOCK_LENGTH_def SHA512_SHORT_BLOCK_LENGTH_def le_bytes_REVERSE64)
  then show ?thesis
    using h512.final_state [OF r, of c0 b] by (simp add: c0_def p_def b_def sha512_digest_md)
qed

lemma SHA256_Final_state:
  assumes r: "h256.rel sha256_initial_hash_value c m"
  shows "SHA256_Final c = sha256_spec m"
proof -
  note d = h256.relD [OF r]
  define p where "p = h256.pad c (length m mod 64)"
  define b where "b = overwrite (buffer256 p) 56 (be_bytes 8 (bits64 (length m)))"
  have "SHA256_Final c = concat (map (be_bytes 4) (state256 (SHA256_Transform (put256 p b) b)))"
    using d by (simp add: SHA256_Final_def padded_def p_def b_def put256_def Let_def SHA256_BLOCK_LENGTH_def SHA256_SHORT_BLOCK_LENGTH_def le_bytes_REVERSE64 le_bytes_REVERSE32)
  moreover have "state256 (SHA256_Transform (put256 p b) b) = h256.digest sha256_initial_hash_value m"
    using h256.final_state [OF r, of c b] by (simp add: p_def b_def bits64_def)
  ultimately show ?thesis by (simp add: sha256_spec_def md_digest_def sha256_pad_def md_pad_def)
qed

text \<open>Any sequence of updates, then the digest.\<close>

lemma rel_Init: "h512.rel sha512_initial_hash_value SHA512_Init []" "h512.rel sha384_initial_hash_value SHA384_Init []"
  "h256.rel sha256_initial_hash_value SHA256_Init []"
  by (simp_all add: hash_rel_def SHA512_Init_def SHA384_Init_def SHA256_Init_def absorb_short bits128_def bits64_def)

lemma SHA512_Final_spec:
  assumes "\<forall>d \<in> set ds. length d < 2 ^ 61"
  shows "SHA512_Final (foldl SHA512_Update SHA512_Init ds) = sha512_spec (concat ds)"
  using SHA512_Last_state [OF h512.rel_updates [OF rel_Init(1) assms]]
  by (simp add: SHA512_Final_def sha512_spec_def le_bytes_REVERSE64)

lemma SHA384_Final_spec:
  assumes "\<forall>d \<in> set ds. length d < 2 ^ 61"
  shows "SHA384_Final (foldl SHA384_Update SHA384_Init ds) =
    concat (map (be_bytes 8) (take 6 (sha512_digest sha384_initial_hash_value (concat ds))))"
  using SHA512_Last_state [OF h512.rel_updates [OF rel_Init(2) assms]]
  by (simp add: SHA384_Final_def SHA384_Update_def [abs_def] le_bytes_REVERSE64)

lemma SHA256_Final_spec:
  assumes "\<forall>d \<in> set ds. length d < 2 ^ 61"
  shows "SHA256_Final (foldl SHA256_Update SHA256_Init ds) = sha256_spec (concat ds)"
  using SHA256_Final_state [OF h256.rel_updates [OF rel_Init(3) assms]] by simp

section \<open>The unrolled transforms\<close>

lemma unrolled_phases:
  "unroll_phase S0 S1 K upd [0, 8] s = roll_phase S0 S1 K upd [0..<16] s"
  "unroll_phase S0 S1 K upd [16, 24, 32, 40, 48, 56] s = roll_phase S0 S1 K upd [16..<64] s"
  "unroll_phase S0 S1 K upd [16, 24, 32, 40, 48, 56, 64, 72] s = roll_phase S0 S1 K upd [16..<80] s"
  using unroll_phase_eq [of S0 S1 K upd 0 2 s] unroll_phase_eq [of S0 S1 K upd 16 6 s]
    unroll_phase_eq [of S0 S1 K upd 16 8 s]
  by (simp_all add: upt_rec)

lemma SHA512_Transform_unrolled_eq: "SHA512_Transform_unrolled c d = SHA512_Transform c d"
  by (simp only: SHA512_Transform_unrolled_def SHA512_Transform_def unrolled_phases)

lemma SHA256_Transform_unrolled_eq: "SHA256_Transform_unrolled c d = SHA256_Transform c d"
  by (simp only: SHA256_Transform_unrolled_def SHA256_Transform_def unrolled_phases)

section \<open>The hexadecimal rendering\<close>

lemma hex_string_length: "length (hex_string ds) = 2 * length ds"
  by (simp add: hex_string_def length_concat_const [where n = 2] hex_byte_def)

lemma nibble_bounds: "unat (drop_bit 4 (d AND 0xf0) :: byte) < 16" "unat (d AND 0x0f :: byte) < 16"
proof -
  have "unat (x AND 0x0f) < 16" for x :: byte
    using word_and_le1 [of x "0x0f"] by (simp add: word_le_nat_alt)
  from this [of "drop_bit 4 d"] this [of d]
  show "unat (drop_bit 4 (d AND 0xf0) :: byte) < 16" "unat (d AND 0x0f :: byte) < 16" by simp_all
qed

lemma hex_string_digits: "set (hex_string ds) \<subseteq> set sha2_hex_digits"
proof -
  have n: "length sha2_hex_digits = 16" by (simp add: sha2_hex_digits_def)
  have "set (hex_byte d) \<subseteq> set sha2_hex_digits" for d
    unfolding hex_byte_def
    using nth_mem [of _ sha2_hex_digits, unfolded n, OF nibble_bounds(1) [of d]]
      nth_mem [of _ sha2_hex_digits, unfolded n, OF nibble_bounds(2) [of d]]
    by (simp only: list.set insert_subset empty_subsetI simp_thms)
  then show ?thesis by (auto simp: hex_string_def)
qed

section \<open>Properties\<close>

text \<open>
  (C1) Streaming SHA-512: however the message is cut into chunks (each below the 2^61 bytes
  the bit counter can take in one call), initialising, updating with the chunks in turn and
  ending gives the lower-case hexadecimal form of the FIPS 180-4 digest of the concatenation.
\<close>

theorem sha512_streaming:
  assumes "\<forall>d \<in> set ds. length d < 2 ^ 61"
  shows "SHA512_End (foldl SHA512_Update SHA512_Init ds) = hex_string (sha512_spec (concat ds))"
  using SHA512_Final_spec [OF assms] by (simp add: SHA512_End_def)

theorem sha512_streaming_witness:
  "SHA512_End (foldl SHA512_Update SHA512_Init [[0x61, 0x62], [], [0x63]]) = hex_string (sha512_spec [0x61, 0x62, 0x63])"
  using sha512_streaming [of "[[0x61, 0x62], [], [0x63]]"] by simp

text \<open>
  (C12) Streaming SHA-256: on the same terms, the update and final functions with 64-byte
  blocks and a 64-bit counter give the FIPS 180-4 digest of the concatenation.
\<close>

theorem sha256_streaming:
  assumes "\<forall>d \<in> set ds. length d < 2 ^ 61"
  shows "SHA256_End (foldl SHA256_Update SHA256_Init ds) = hex_string (sha256_spec (concat ds))"
  using SHA256_Final_spec [OF assms] by (simp add: SHA256_End_def)

theorem sha256_streaming_witness:
  "SHA256_End (foldl SHA256_Update SHA256_Init [[0x61, 0x62], [], [0x63]]) = hex_string (sha256_spec [0x61, 0x62, 0x63])"
  using sha256_streaming [of "[[0x61, 0x62], [], [0x63]]"] by simp

text \<open>
  SHA-384 shares the streaming code: its digest is the first six words of the chaining
  value started from the SHA-384 initial value.
\<close>

theorem sha384_streaming:
  assumes "\<forall>d \<in> set ds. length d < 2 ^ 61"
  shows "SHA384_End (foldl SHA384_Update SHA384_Init ds) =
    hex_string (concat (map (be_bytes 8) (take 6 (sha512_digest sha384_initial_hash_value (concat ds)))))"
  using SHA384_Final_spec [OF assms] by (simp add: SHA384_End_def)

theorem sha384_streaming_witness:
  "SHA384_End (foldl SHA384_Update SHA384_Init [[0x61]]) =
    hex_string (concat (map (be_bytes 8) (take 6 (sha512_digest sha384_initial_hash_value [0x61]))))"
  using sha384_streaming [of "[[0x61]]"] by simp

text \<open>
  (C30) The unrolled forms of both transforms, which rename registers instead of moving them,
  compute the same context as the rolled loops.
\<close>

theorem unrolled_transforms_equal:
  "SHA256_Transform_unrolled c d = SHA256_Transform c d \<and> SHA512_Transform_unrolled c' d' = SHA512_Transform c' d'"
  by (simp add: SHA256_Transform_unrolled_eq SHA512_Transform_unrolled_eq)

text \<open>
  (C17) One SHA-512 transform, with its schedule kept in sixteen words of the context's buffer,
  is the compression function of the standard on the big-endian words of the block.
\<close>

theorem sha512_transform_is_compression:
  assumes "length data = 128"
  shows "state512 (SHA512_Transform c data) =
    fips_compress Sigma0_512 Sigma1_512 sigma0_512 sigma1_512 K512 (state512 c)
      (map (\<lambda>j. be_load (take 8 (drop (8 * j) data))) [0..<16])"
  using SHA512_Transform_correct(1) [OF assms] by (simp add: sha512_compress_def block64_def)

theorem sha512_transform_is_compression_witness:
  "state512 (SHA512_Transform SHA512_Init (replicate 128 0)) =
    fips_compress Sigma0_512 Sigma1_512 sigma0_512 sigma1_512 K512 sha512_initial_hash_value
      (map (\<lambda>j. be_load (take 8 (drop (8 * j) (replicate 128 0)))) [0..<16])"
  using sha512_transform_is_compression [of "replicate 128 0" SHA512_Init] by (simp add: SHA512_Init_def)

end
