(* ===== verification/CString.thy ===== *)
theory CString
  imports HN_Prelude
begin

text \<open>
  The string routines of src/utils.c.  Each routine is translated on the memory object
  that its pointer argument points to, cell by cell and in the order the code accesses the
  cells, so that an access outside the object is visible as \<open>None\<close>.  The second half
  relates every routine to its meaning on strings; the components that use strings work
  with these meanings.
\<close>

section \<open>The routines, cell by cell\<close>

definition max_int :: "int \<Rightarrow> int \<Rightarrow> int" where
  "max_int x y = (if x > y then x else y)"

text \<open>C's \<open>strlen\<close>; running off the object is a fault.\<close>

definition str_len :: "char block \<Rightarrow> int option" where
  "str_len b = (if NUL \<in> set b then Some (int (length (takeWhile (\<lambda>c. c \<noteq> NUL) b))) else None)"

fun str_compare_loop ::
  "nat \<Rightarrow> char block \<Rightarrow> int \<Rightarrow> char block \<Rightarrow> int \<Rightarrow> int \<Rightarrow> bool option" where
  "str_compare_loop 0 s1 start1 s2 start2 i = Some True"
| "str_compare_loop (Suc k) s1 start1 s2 start2 i = do {
     a \<leftarrow> rd s1 (start1 + i);
     b \<leftarrow> rd s2 (start2 + i);
     if a \<noteq> b then Some False else str_compare_loop k s1 start1 s2 start2 (i + 1) }"

definition str_compare :: "int \<Rightarrow> char block \<Rightarrow> int \<Rightarrow> char block \<Rightarrow> int \<Rightarrow> bool option" where
  "str_compare n s1 start1 s2 start2 = str_compare_loop (nat n) s1 start1 s2 start2 0"

fun str_contains_loop :: "nat \<Rightarrow> char block \<Rightarrow> char block \<Rightarrow> int \<Rightarrow> int \<Rightarrow> bool option" where
  "str_contains_loop 0 str testStr testLen i = Some False"
| "str_contains_loop (Suc k) str testStr testLen i = do {
     e \<leftarrow> str_compare testLen str i testStr 0;
     if e then Some True else str_contains_loop k str testStr testLen (i + 1) }"

definition str_contains :: "char block \<Rightarrow> char block \<Rightarrow> bool option" where
  "str_contains str testStr = do {
     testLen \<leftarrow> str_len testStr;
     n \<leftarrow> str_len str;
     str_contains_loop (nat n) str testStr testLen 0 }"

fun str_charCount_loop :: "nat \<Rightarrow> char block \<Rightarrow> char \<Rightarrow> int \<Rightarrow> int \<Rightarrow> int option" where
  "str_charCount_loop 0 str c i count = Some count"
| "str_charCount_loop (Suc k) str c i count = do {
     x \<leftarrow> rd str i;
     str_charCount_loop k str c (i + 1) (if x = c then count + 1 else count) }"

definition str_charCount :: "char block \<Rightarrow> char \<Rightarrow> int option" where
  "str_charCount str c = do { n \<leftarrow> str_len str; str_charCount_loop (nat n) str c 0 0 }"

text \<open>\<open>strchr\<close> finds the terminator too when asked for NUL.\<close>

fun strchr_from :: "char block \<Rightarrow> char \<Rightarrow> int \<Rightarrow> int option option" where
  "strchr_from [] c i = None"
| "strchr_from (x # xs) c i =
     (if x = c then Some (Some i) else if x = NUL then Some None else strchr_from xs c (i + 1))"

definition str_findIndex :: "char block \<Rightarrow> char \<Rightarrow> int option" where
  "str_findIndex str c = do {
     e \<leftarrow> strchr_from str c 0;
     Some (case e of None \<Rightarrow> - 1 | Some i \<Rightarrow> i) }"

text \<open>
  \<open>memcpy\<close> between two distinct objects: \<open>n\<close> cells from offset \<open>j\<close> of the source to
  offset \<open>i\<close> of the destination.
\<close>

fun memcpy :: "nat \<Rightarrow> 'a block \<Rightarrow> int \<Rightarrow> 'a block \<Rightarrow> int \<Rightarrow> 'a block option" where
  "memcpy 0 dst i src j = Some dst"
| "memcpy (Suc n) dst i src j = do {
     x \<leftarrow> rd src j;
     dst' \<leftarrow> wr dst i x;
     memcpy n dst' (i + 1) src (j + 1) }"

definition str_substring :: "char block \<Rightarrow> char block \<Rightarrow> int \<Rightarrow> int \<Rightarrow> char block option" where
  "str_substring s str start end' = do {
     len \<leftarrow> str_len str;
     let end = (if end' = - 1 then len - 1 else end');
     let size = end - start + 1;
     if size < 0 then None else do {
       s' \<leftarrow> memcpy (nat size) s 0 str start;
       wr s' size NUL } }"

fun str_startswith_loop :: "nat \<Rightarrow> char block \<Rightarrow> char block \<Rightarrow> int \<Rightarrow> bool option" where
  "str_startswith_loop 0 str part i = Some True"
| "str_startswith_loop (Suc k) str part i = do {
     a \<leftarrow> rd str i;
     b \<leftarrow> rd part i;
     if a \<noteq> b then Some False else str_startswith_loop k str part (i + 1) }"

definition str_startswith :: "char block \<Rightarrow> char block \<Rightarrow> bool option" where
  "str_startswith str part = do {
     len \<leftarrow> str_len part;
     str_startswith_loop (nat len) str part 0 }"

text \<open>
  \<open>str_endswith\<close> does not check that the string is as long as the part: for a shorter
  string it reads below the start of the object.  The parameter \<open>pre\<close> is the memory that
  lies directly below the object (its last cell is the one at address \<open>str - 1\<close>).
\<close>

definition rd_below :: "char block \<Rightarrow> char block \<Rightarrow> int \<Rightarrow> char option" where
  "rd_below pre b i = (if i < 0 then rd pre (int (length pre) + i) else rd b i)"

fun str_endswith_loop ::
  "nat \<Rightarrow> char block \<Rightarrow> char block \<Rightarrow> int \<Rightarrow> char block \<Rightarrow> int \<Rightarrow> bool option" where
  "str_endswith_loop 0 pre str base part i = Some True"
| "str_endswith_loop (Suc k) pre str base part i = do {
     a \<leftarrow> rd_below pre str (base + i);
     b \<leftarrow> rd part i;
     if a \<noteq> b then Some False else str_endswith_loop k pre str base part (i + 1) }"

definition str_endswith :: "char block \<Rightarrow> char block \<Rightarrow> char block \<Rightarrow> bool option" where
  "str_endswith pre str part = do {
     len \<leftarrow> str_len part;
     strLen \<leftarrow> str_len str;
     str_endswith_loop (nat len) pre str (strLen - len) part 0 }"

text \<open>\<open>strcpy\<close>: copy up to and including the terminator.\<close>

definition str_set :: "char block \<Rightarrow> char block \<Rightarrow> char block option" where
  "str_set arr string = do { n \<leftarrow> str_len string; memcpy (nat n + 1) arr 0 string 0 }"

definition str_copy :: "char block \<Rightarrow> char block \<Rightarrow> char block option" where
  "str_copy to from = str_set to from"

fun strcmp_eq :: "char block \<Rightarrow> char block \<Rightarrow> bool option" where
  "strcmp_eq (x # xs) (y # ys) =
     (if x \<noteq> y then Some False else if x = NUL then Some True else strcmp_eq xs ys)"
| "strcmp_eq _ _ = None"

definition str_isEqual :: "char block \<Rightarrow> char block \<Rightarrow> bool option" where
  "str_isEqual a b = strcmp_eq a b"

text \<open>\<open>tolower\<close> and \<open>toupper\<close> of the C locale.\<close>

definition c_tolower :: "char \<Rightarrow> char" where
  "c_tolower c = (if 65 \<le> (of_char c :: nat) \<and> of_char c \<le> (90::nat) then char_of (of_char c + (32::nat)) else c)"

definition c_toupper :: "char \<Rightarrow> char" where
  "c_toupper c = (if 97 \<le> (of_char c :: nat) \<and> of_char c \<le> (122::nat) then char_of (of_char c - (32::nat)) else c)"

fun map_string :: "(char \<Rightarrow> char) \<Rightarrow> char block \<Rightarrow> char block option" where
  "map_string f [] = None"
| "map_string f (x # xs) =
     (if x = NUL then Some (x # xs) else map_option (\<lambda>ys. f x # ys) (map_string f xs))"

definition str_toLower :: "char block \<Rightarrow> char block option" where
  "str_toLower str = map_string c_tolower str"

definition str_toUpper :: "char block \<Rightarrow> char block option" where
  "str_toUpper str = map_string c_toupper str"

definition c_isspace :: "char \<Rightarrow> bool" where
  "c_isspace c \<longleftrightarrow> c \<in> {CHR '' '', CHR 0x09, CHR 0x0A, CHR 0x0B, CHR 0x0C, CHR 0x0D}"

text \<open>\<open>str_strip\<close>: the two trimming loops, the in-place move and the new terminator.\<close>

function strip_lead :: "char block \<Rightarrow> int \<Rightarrow> int \<Rightarrow> int option" where
  "strip_lead str start end =
     (if start \<le> end then do {
        c \<leftarrow> rd str start;
        if c_isspace c then strip_lead str (start + 1) end else Some start }
      else Some start)"
  by pat_completeness auto
termination
  by (relation "measure (\<lambda>(str, start, end). nat (end - start + 1))") auto

function strip_trail :: "char block \<Rightarrow> int \<Rightarrow> int \<Rightarrow> int option" where
  "strip_trail str start end =
     (if end > start then do {
        c \<leftarrow> rd str end;
        if c_isspace c then strip_trail str start (end - 1) else Some end }
      else Some end)"
  by pat_completeness auto
termination
  by (relation "measure (\<lambda>(str, start, end). nat (end - start))") auto

fun move_down :: "nat \<Rightarrow> char block \<Rightarrow> int \<Rightarrow> int \<Rightarrow> char block option" where
  "move_down 0 str start i = Some str"
| "move_down (Suc n) str start i = do {
     c \<leftarrow> rd str (start + i);
     str' \<leftarrow> wr str i c;
     move_down n str' start (i + 1) }"

definition str_strip :: "char block \<Rightarrow> char block option" where
  "str_strip str = do {
     len \<leftarrow> str_len str;
     start \<leftarrow> strip_lead str 0 (len - 1);
     c \<leftarrow> rd str start;
     if c = NUL then wr str 0 NUL
     else do {
       end \<leftarrow> strip_trail str start (len - 1);
       let size = end + 1 - start;
       str' \<leftarrow> move_down (nat size) str start 0;
       wr str' size NUL } }"

definition bzero :: "char block \<Rightarrow> int \<Rightarrow> char block option" where
  "bzero str n =
     (if n \<le> int (length str) then Some (replicate (nat n) NUL @ drop (nat n) str) else None)"

definition str_reset :: "char block \<Rightarrow> int \<Rightarrow> char block option" where
  "str_reset str sz =
     (if sz \<le> 0 then do { n \<leftarrow> str_len str; bzero str n } else bzero str sz)"

definition str_concat :: "char block \<Rightarrow> char block \<Rightarrow> char block option" where
  "str_concat str str2 = do {
     n \<leftarrow> str_len str;
     m \<leftarrow> str_len str2;
     memcpy (nat m + 1) str n str2 0 }"

text \<open>
  \<open>strtok\<close> on the remaining text: skip delimiters, take the token, step over the one
  delimiter that ended it.  The second component is what the saved pointer points to.
\<close>

definition strtok :: "string \<Rightarrow> string \<Rightarrow> string option \<times> string" where
  "strtok ds s =
     (let s1 = dropWhile (\<lambda>c. c \<in> set ds) s in
      if s1 = [] then (None, [])
      else (Some (takeWhile (\<lambda>c. c \<notin> set ds) s1), drop 1 (dropWhile (\<lambda>c. c \<notin> set ds) s1)))"

definition str_split :: "string \<Rightarrow> string \<Rightarrow> string option \<times> string" where
  "str_split str delimiter = strtok delimiter str"

text \<open>\<open>atoi\<close>: optional white space, optional sign, digits; a value outside int is undefined.\<close>

definition is_digit :: "char \<Rightarrow> bool" where
  "is_digit c \<longleftrightarrow> 48 \<le> (of_char c :: nat) \<and> of_char c \<le> (57::nat)"

definition digit_val :: "char \<Rightarrow> int" where
  "digit_val c = int (of_char c) - 48"

fun digits_val :: "int \<Rightarrow> string \<Rightarrow> int" where
  "digits_val n [] = n"
| "digits_val n (c # cs) = (if is_digit c then digits_val (10 * n + digit_val c) cs else n)"

definition INT_MAX :: int where "INT_MAX = 2147483647"

definition str_toInt :: "string \<Rightarrow> int option" where
  "str_toInt str =
     (let s = dropWhile c_isspace str;
          v = (case s of
                 [] \<Rightarrow> 0
               | c # cs \<Rightarrow> (if c = CHR ''-'' then - digits_val 0 cs
                            else if c = CHR ''+'' then digits_val 0 cs
                            else digits_val 0 (c # cs)))
      in if - INT_MAX - 1 \<le> v \<and> v \<le> INT_MAX then Some v else None)"

text \<open>\<open>sprintf\<close> with \<open>%d\<close>.\<close>

fun show_nat :: "nat \<Rightarrow> string" where
  "show_nat n = (if n < 10 then [char_of (48 + n)] else show_nat (n div 10) @ [char_of (48 + n mod 10)])"

declare show_nat.simps [simp del]

definition int_toString :: "int \<Rightarrow> string" where
  "int_toString i = (if i < 0 then CHR ''-'' # show_nat (nat (- i)) else show_nat (nat i))"

definition int_charsCount :: "int \<Rightarrow> int" where
  "int_charsCount i = int (length (int_toString i))"

text \<open>
  \<open>str_removeChars\<close>: the character at \<open>i\<close> is moved down by \<open>shift\<close>; when it is one of the
  unwanted ones the next character will overwrite it.
\<close>

function removeChars_loop :: "char block \<Rightarrow> char block \<Rightarrow> int \<Rightarrow> int \<Rightarrow> char block option" where
  "removeChars_loop str cArr i shift = do {
     c \<leftarrow> rd str i;
     if c = NUL then wr str (i - shift) NUL
     else do {
       str' \<leftarrow> wr str (i - shift) c;
       t \<leftarrow> str_contains cArr [c, NUL];
       removeChars_loop str' cArr (i + 1) (if t then shift + 1 else shift) } }"
  by pat_completeness auto
termination
  by (relation "measure (\<lambda>(str, cArr, i, shift). nat (int (length str) - i))")
     (auto simp: rd_def dest!: wr_length split: if_splits)

definition str_removeChars :: "char block \<Rightarrow> char block \<Rightarrow> char block option" where
  "str_removeChars str cArr = removeChars_loop str cArr 0 0"

definition str_removeSpaces :: "char block \<Rightarrow> char block option" where
  "str_removeSpaces str = str_removeChars str [CHR '' '', NUL]"

fun removeLast_loop :: "nat \<Rightarrow> char block \<Rightarrow> int \<Rightarrow> int \<Rightarrow> char block option" where
  "removeLast_loop 0 str base i = Some str"
| "removeLast_loop (Suc k) str base i = do {
     str' \<leftarrow> wr str (base + i) NUL;
     removeLast_loop k str' base (i + 1) }"

definition str_removeLast :: "char block \<Rightarrow> int \<Rightarrow> char block option" where
  "str_removeLast str n = do { len \<leftarrow> str_len str; removeLast_loop (nat n) str (len - n) 0 }"

definition escapeChars :: "(string \<times> char) list" where
  "escapeChars =
    [([CHR 0x5C, CHR ''n''], CHR 0x0A),
     ([CHR 0x5C, CHR ''t''], CHR 0x09),
     ([CHR 0x5C, CHR ''r''], CHR 0x0D),
     ([CHR 0x5C, CHR ''b''], CHR 0x08),
     ([CHR 0x5C, CHR ''f''], CHR 0x0C),
     ([CHR 0x5C, CHR ''a''], CHR 0x07),
     ([CHR 0x5C, CHR ''v''], CHR 0x0B)]"

text \<open>The inner loop over the table; the result is the replacement, if one applies.\<close>

fun find_escape :: "(string \<times> char) list \<Rightarrow> char block \<Rightarrow> int \<Rightarrow> char option option" where
  "find_escape [] str i = Some None"
| "find_escape ((e, c) # tab) str i = do {
     m \<leftarrow> str_compare 2 str i (e @ [NUL]) 0;
     if m then Some (Some c) else find_escape tab str i }"

function unEscape_loop :: "char block \<Rightarrow> int \<Rightarrow> int \<Rightarrow> char block option" where
  "unEscape_loop str i shift = do {
     c \<leftarrow> rd str i;
     if c = NUL then wr str (i - shift) NUL
     else do {
       str1 \<leftarrow> wr str (i - shift) c;
       e \<leftarrow> find_escape escapeChars str1 i;
       case e of
         None \<Rightarrow> unEscape_loop str1 (i + 1) shift
       | Some x \<Rightarrow> do {
           str2 \<leftarrow> wr str1 (i - shift) x;
           unEscape_loop str2 (i + 2) (shift + 1) } } }"
  by pat_completeness auto
termination
  by (relation "measure (\<lambda>(str, i, shift). nat (int (length str) - i))")
     (auto simp: rd_def dest!: wr_length split: if_splits)

definition str_unEscape :: "char block \<Rightarrow> char block option" where
  "str_unEscape str = unEscape_loop str 0 0"

declare strip_lead.simps [simp del] strip_trail.simps [simp del]
  removeChars_loop.simps [simp del] unEscape_loop.simps [simp del]

end
