(* ===== verification/Sha2_Tool.thy ===== *)
theory Sha2_Tool
  imports Sha2_Correct CString
begin

unbundle bit_operations_syntax

text \<open>
  lib/sha/sha2prog.c, the program that prints the hashes of a file or of its standard input, and
  of lib/sha/sha2speed.c the choice of the data and the hashes (its timing is floating point).
  A file is the list of what successive reads find: some bytes, or an error.
\<close>

section \<open>Reading\<close>

type_synonym input = "byte list option list"

definition BUFLEN :: nat where "BUFLEN = 16384"

text \<open>The result of \<open>read\<close>, the bytes stored and the input left; what does not fit stays.\<close>

fun read_fd :: "nat \<Rightarrow> input \<Rightarrow> int \<times> byte list \<times> input" where
  "read_fd n [] = (0, [], [])"
| "read_fd n (None # rest) = (- 1, [], rest)"
| "read_fd n (Some d # rest) = (int (min n (length d)), take n d, if length d \<le> n then rest else Some (drop n d) # rest)"

section \<open>The hash program\<close>

record sha2_opts =
  quiet :: bool
  hash :: u32
  fname :: "string option"

definition sha2_usage :: "string \<Rightarrow> string \<Rightarrow> string" where
  "sha2_usage prog msg = msg @ [LF] @ ''Usage:'' @ [TAB] @ prog @ '' [options] [<file>]'' @ [LF] @ ''Options:'' @ [LF]
     @ [TAB] @ ''-256'' @ [TAB] @ ''Generate SHA-256 hash'' @ [LF]
     @ [TAB] @ ''-384'' @ [TAB] @ ''Generate SHA-284 hash'' @ [LF]
     @ [TAB] @ ''-512'' @ [TAB] @ ''Generate SHA-512 hash'' @ [LF]
     @ [TAB] @ ''-ALL'' @ [TAB] @ ''Generate all three hashes'' @ [LF]
     @ [TAB] @ ''-q'' @ [TAB] @ ''Quiet mode - only output hexadecimal hashes, one per line'' @ [LF, LF]"

text \<open>The options; the left result is the message \<open>usage\<close> is called with.\<close>

fun sha2_args :: "string list \<Rightarrow> sha2_opts \<Rightarrow> string + sha2_opts" where
  "sha2_args [] so = Inr so"
| "sha2_args (arg # rest) so =
     (if arg \<noteq> [] \<and> hd arg = CHR ''-'' then
        let av = tl arg
        in if av = ''q'' then sha2_args rest (so\<lparr>quiet := True\<rparr>)
           else if av = ''256'' then sha2_args rest (so\<lparr>hash := hash so OR 1\<rparr>)
           else if av = ''384'' then sha2_args rest (so\<lparr>hash := hash so OR 2\<rparr>)
           else if av = ''512'' then sha2_args rest (so\<lparr>hash := hash so OR 4\<rparr>)
           else if av = ''ALL'' then sha2_args rest (so\<lparr>hash := 7\<rparr>)
           else Inl ''Invalid option.''
      else if rest \<noteq> [] then Inl ''Too many arguments.''
      else Inr (so\<lparr>fname := Some arg\<rparr>))"

record sha2_ctxs =
  kl :: int
  ctx256 :: SHA256_CTX
  ctx384 :: SHA512_CTX
  ctx512 :: SHA512_CTX

definition sha2_ctxs_init :: sha2_ctxs where
  "sha2_ctxs_init = \<lparr>kl = 0, ctx256 = SHA256_Init, ctx384 = SHA384_Init, ctx512 = SHA512_Init\<rparr>"

text \<open>One turn of the loop; the count of bytes is an int, and its overflow is undefined.\<close>

definition sha2_feed :: "sha2_ctxs \<Rightarrow> byte list \<Rightarrow> sha2_ctxs option" where
  "sha2_feed cs buf =
     (if kl cs + int (length buf) > INT_MAX then None
      else Some (cs\<lparr>kl := kl cs + int (length buf), ctx256 := SHA256_Update (ctx256 cs) buf,
                    ctx384 := SHA384_Update (ctx384 cs) buf, ctx512 := SHA512_Update (ctx512 cs) buf\<rparr>))"

definition input_measure :: "input \<Rightarrow> nat" where
  "input_measure inp = sum_list (map (\<lambda>d. case d of None \<Rightarrow> 1 | Some b \<Rightarrow> Suc (length b)) inp)"

lemma read_fd_measure: "read_fd n inp = (l, buf, inp') \<Longrightarrow> 0 < l \<Longrightarrow> input_measure inp' < input_measure inp"
  by (induction n inp rule: read_fd.induct) (auto simp: input_measure_def split: if_split_asm)

function sha2_loop :: "input \<Rightarrow> sha2_ctxs \<Rightarrow> sha2_ctxs option" where
  "sha2_loop inp cs =
     (case read_fd BUFLEN inp of
        (l, buf, inp') \<Rightarrow> if 0 < l then Option.bind (sha2_feed cs buf) (sha2_loop inp') else Some cs)"
  by pat_completeness auto
termination
  by (relation "measure (\<lambda>(inp, cs). input_measure inp)") (auto intro: read_fd_measure [OF sym])

declare sha2_loop.simps [simp del]

text \<open>A line of output; the name of standard input is a null pointer.\<close>

definition sha2_line :: "sha2_opts \<Rightarrow> string \<Rightarrow> string \<Rightarrow> string option" where
  "sha2_line so label digest =
     (if quiet so then Some (digest @ [LF])
      else map_option (\<lambda>f. label @ '' ('' @ f @ '') = '' @ digest @ [LF]) (fname so))"

text \<open>The exit status and what is written to standard output and to standard error.\<close>

definition sha2_main :: "string \<Rightarrow> string list \<Rightarrow> (string \<Rightarrow> string + input) \<Rightarrow> input \<Rightarrow> (int \<times> string \<times> string) option" where
  "sha2_main prog args opens stdin =
     (case sha2_args args \<lparr>quiet = False, hash = 0, fname = None\<rparr> of
        Inl msg \<Rightarrow> Some (- 1, [], sha2_usage prog msg)
      | Inr so \<Rightarrow>
          (case (case fname so of None \<Rightarrow> Inr stdin | Some f \<Rightarrow> opens f) of
             Inl err \<Rightarrow> Some (- 1, [], prog @ '': '' @ err @ [LF])
           | Inr inp \<Rightarrow> do {
               let h = (if hash so = 0 then 7 else hash so);
               cs \<leftarrow> sha2_loop inp sha2_ctxs_init;
               l1 \<leftarrow> (if h AND 1 \<noteq> 0 then sha2_line so ''SHA-256'' (SHA256_End (ctx256 cs)) else Some []);
               l2 \<leftarrow> (if h AND 2 \<noteq> 0 then sha2_line so ''SHA-384'' (SHA384_End (ctx384 cs)) else Some []);
               l3 \<leftarrow> (if h AND 4 \<noteq> 0 then sha2_line so ''SHA-512'' (SHA512_End (ctx512 cs)) else Some []);
               Some (1, l1 @ l2 @ l3, []) }))"

section \<open>The speed program\<close>

definition BUFSIZE :: nat where "BUFSIZE = 16384"

definition speed_bytes :: nat where "speed_bytes = 1024 * 1024 * 16"

text \<open>The blocks, the repetitions and the byte the data is filled with; no result after \<open>usage\<close>.\<close>

definition speed_params :: "string list \<Rightarrow> (nat \<times> int \<times> byte) option option" where
  "speed_params args =
     (if length args > 3 then Some None
      else do {
        blocks \<leftarrow> (case args of a # _ \<Rightarrow> str_toInt a | [] \<Rightarrow> Some 0);
        let blocks = speed_bytes div BUFSIZE;
        rep \<leftarrow> (case args of a # r # _ \<Rightarrow> str_toInt r | _ \<Rightarrow> Some 10);
        fill \<leftarrow> (case args of [a, r, f] \<Rightarrow> str_toInt r | _ \<Rightarrow> Some 0xb7);
        Some (Some (blocks, rep, word_of_int fill)) })"

definition speed_feed :: "('c \<Rightarrow> byte list \<Rightarrow> 'c) \<Rightarrow> 'c \<Rightarrow> nat \<Rightarrow> byte list \<Rightarrow> 'c" where
  "speed_feed upd c blocks buf =
     (let c' = foldl upd c (replicate blocks buf)
      in if speed_bytes mod BUFSIZE \<noteq> 0 then upd c' (take (speed_bytes mod BUFSIZE) buf) else c')"

text \<open>The hash texts printed, three for each repetition.\<close>

definition speed_hashes :: "nat \<Rightarrow> int \<Rightarrow> byte \<Rightarrow> string list" where
  "speed_hashes blocks rep fill =
     (let buf = replicate BUFSIZE fill
      in concat (replicate (nat rep)
           [SHA256_End (speed_feed SHA256_Update SHA256_Init blocks buf),
            SHA384_End (speed_feed SHA384_Update SHA384_Init blocks buf),
            SHA512_End (speed_feed SHA512_Update SHA512_Init blocks buf)]))"

section \<open>What they print\<close>

text \<open>The bytes up to the end of the file or the first error.\<close>

fun input_data :: "input \<Rightarrow> byte list" where
  "input_data [] = []"
| "input_data (None # rest) = []"
| "input_data (Some d # rest) = (if d = [] then [] else d @ input_data rest)"

lemma read_fd_data:
  assumes "read_fd n inp = (l, buf, inp')" and "0 < n"
  shows "(0 < l \<longrightarrow> input_data inp = buf @ input_data inp') \<and> (l \<le> 0 \<longrightarrow> input_data inp = []) \<and> length buf \<le> n"
  using assms by (induction n inp rule: read_fd.induct) (auto split: if_split_asm)

text \<open>The loop feeds the three contexts the same chunks, which make up the data.\<close>

lemma sha2_loop_chunks:
  "kl cs + int (length (input_data inp)) \<le> INT_MAX \<Longrightarrow>
   \<exists>ds cs'. sha2_loop inp cs = Some cs' \<and> concat ds = input_data inp \<and> (\<forall>d \<in> set ds. length d \<le> BUFLEN)
     \<and> ctx256 cs' = foldl SHA256_Update (ctx256 cs) ds \<and> ctx384 cs' = foldl SHA384_Update (ctx384 cs) ds
     \<and> ctx512 cs' = foldl SHA512_Update (ctx512 cs) ds"
proof (induction inp cs rule: sha2_loop.induct)
  case (1 inp cs)
  obtain l buf inp' where e: "read_fd BUFLEN inp = (l, buf, inp')" by (cases "read_fd BUFLEN inp")
  have d: "(0 < l \<longrightarrow> input_data inp = buf @ input_data inp') \<and> (l \<le> 0 \<longrightarrow> input_data inp = []) \<and> length buf \<le> BUFLEN"
    using e by (rule read_fd_data) (simp add: BUFLEN_def)
  show ?case
  proof (cases "0 < l")
    case True
    let ?cs = "cs\<lparr>kl := kl cs + int (length buf), ctx256 := SHA256_Update (ctx256 cs) buf,
                  ctx384 := SHA384_Update (ctx384 cs) buf, ctx512 := SHA512_Update (ctx512 cs) buf\<rparr>"
    have f: "sha2_feed cs buf = Some ?cs" using 1(2) d True by (simp add: sha2_feed_def)
    have "kl ?cs + int (length (input_data inp')) \<le> INT_MAX" using 1(2) d True by simp
    moreover have "?cs \<in> set_option (sha2_feed cs buf)" using f by simp
    ultimately obtain ds cs' where
      r: "sha2_loop inp' ?cs = Some cs'" "concat ds = input_data inp'" "\<forall>d \<in> set ds. length d \<le> BUFLEN"
      "ctx256 cs' = foldl SHA256_Update (ctx256 ?cs) ds" "ctx384 cs' = foldl SHA384_Update (ctx384 ?cs) ds"
      "ctx512 cs' = foldl SHA512_Update (ctx512 ?cs) ds"
      using 1(1) [OF e [symmetric] refl True] by blast
    with d True show ?thesis
      by (intro exI [of _ "buf # ds"] exI [of _ cs']) (simp add: sha2_loop.simps [of inp] e f)
  next
    case False
    with d show ?thesis by (intro exI [of _ "[]"]) (simp add: sha2_loop.simps [of inp] e)
  qed
qed

lemma sha2_loop_digests:
  assumes "int (length (input_data inp)) \<le> INT_MAX"
  shows "\<exists>cs. sha2_loop inp sha2_ctxs_init = Some cs
    \<and> SHA256_End (ctx256 cs) = hex_string (sha256_spec (input_data inp))
    \<and> SHA384_End (ctx384 cs) = hex_string (concat (map (be_bytes 8) (take 6 (sha512_digest sha384_initial_hash_value (input_data inp)))))
    \<and> SHA512_End (ctx512 cs) = hex_string (sha512_spec (input_data inp))"
proof -
  have "kl sha2_ctxs_init + int (length (input_data inp)) \<le> INT_MAX" using assms by (simp add: sha2_ctxs_init_def)
  from sha2_loop_chunks [OF this] obtain ds cs where c: "sha2_loop inp sha2_ctxs_init = Some cs" "concat ds = input_data inp"
    "\<forall>d \<in> set ds. length d \<le> BUFLEN" "ctx256 cs = foldl SHA256_Update SHA256_Init ds" "ctx384 cs = foldl SHA384_Update SHA384_Init ds"
    "ctx512 cs = foldl SHA512_Update SHA512_Init ds" by (auto simp: sha2_ctxs_init_def)
  have "\<forall>d \<in> set ds. length d < 2 ^ 61" using c(3) by (auto simp: BUFLEN_def dest!: bspec)
  from SHA256_Final_spec [OF this] SHA384_Final_spec [OF this] SHA512_Final_spec [OF this] c show ?thesis
    by (simp add: SHA256_End_def SHA384_End_def SHA512_End_def)
qed

text \<open>The speed program ignores its first and its last argument.\<close>

lemma speed_params_ignores:
  assumes "str_toInt a = Some i" and "str_toInt a' = Some i'"
  shows "speed_params [a, r, f] = speed_params [a', r, f']"
  using assms by (simp add: speed_params_def)

lemma speed_feed_chunks: "speed_feed upd c 1024 buf = foldl upd c (replicate 1024 buf)"
  by (simp add: speed_feed_def speed_bytes_def BUFSIZE_def Let_def)

lemma concat_replicate_const: "concat (replicate n (replicate k x)) = replicate (n * k) x"
  by (induction n) (simp_all add: replicate_add)

lemma speed_hashes_digests:
  assumes "speed_params args = Some (Some (blocks, rep, fill))"
  shows "speed_hashes blocks rep fill = (let m = replicate speed_bytes fill in
    concat (replicate (nat rep) [hex_string (sha256_spec m),
      hex_string (concat (map (be_bytes 8) (take 6 (sha512_digest sha384_initial_hash_value m)))), hex_string (sha512_spec m)]))"
proof -
  let ?ds = "replicate 1024 (replicate BUFSIZE fill)"
  have b: "blocks = 1024"
    using assms by (auto simp: speed_params_def speed_bytes_def BUFSIZE_def Let_def split: if_split_asm bind_split_asm)
  have l: "\<forall>d \<in> set ?ds. length d < 2 ^ 61" by (simp add: BUFSIZE_def)
  have c: "concat ?ds = replicate speed_bytes fill" by (simp only: concat_replicate_const) (simp add: BUFSIZE_def speed_bytes_def)
  show ?thesis
    using SHA256_Final_spec [OF l] SHA384_Final_spec [OF l] SHA512_Final_spec [OF l]
    by (simp only: speed_hashes_def b speed_feed_chunks SHA256_End_def SHA384_End_def SHA512_End_def Let_def c)
qed

text \<open>
  (C25) The hash program prints the digests of the standard: with options it accepts, an input it
  can open and a name to print (or the quiet option), it writes one line for each hash asked for,
  over the bytes up to the end of the input, however the system cuts them into reads.
\<close>

theorem sha2_main_prints_digests:
  assumes "sha2_args args \<lparr>quiet = False, hash = 0, fname = None\<rparr> = Inr so" and "quiet so \<or> fname so \<noteq> None"
    and "(case fname so of None \<Rightarrow> Inr stdin | Some f \<Rightarrow> opens f) = Inr inp"
    and "int (length (input_data inp)) \<le> INT_MAX" and "h = (if hash so = 0 then 7 else hash so)"
    and "line = (\<lambda>label ds. (if quiet so then [] else label @ '' ('' @ the (fname so) @ '') = '') @ hex_string ds @ [LF])"
  shows "sha2_main prog args opens stdin = Some (1,
      (if h AND 1 \<noteq> 0 then line ''SHA-256'' (sha256_spec (input_data inp)) else [])
    @ (if h AND 2 \<noteq> 0 then line ''SHA-384'' (concat (map (be_bytes 8) (take 6 (sha512_digest sha384_initial_hash_value (input_data inp))))) else [])
    @ (if h AND 4 \<noteq> 0 then line ''SHA-512'' (sha512_spec (input_data inp)) else []), [])"
proof -
  from sha2_loop_digests [OF assms(4)] obtain cs where c: "sha2_loop inp sha2_ctxs_init = Some cs"
    "SHA256_End (ctx256 cs) = hex_string (sha256_spec (input_data inp))"
    "SHA384_End (ctx384 cs) = hex_string (concat (map (be_bytes 8) (take 6 (sha512_digest sha384_initial_hash_value (input_data inp)))))"
    "SHA512_End (ctx512 cs) = hex_string (sha512_spec (input_data inp))" by blast
  have p: "sha2_line so label (hex_string ds) = Some (line label ds)" for label ds
    using assms(2,6) by (auto simp: sha2_line_def)
  show ?thesis
    using assms(1,3,5) by (simp add: sha2_main_def c p)
qed

theorem sha2_main_prints_digests_witness:
  "sha2_main ''sha2'' [''-256'', ''abc.txt''] (\<lambda>f. Inr [Some [0x61, 0x62], Some [0x63]]) [] =
     Some (1, ''SHA-256 (abc.txt) = '' @ hex_string (sha256_spec [0x61, 0x62, 0x63]) @ [LF], [])"
  using sha2_main_prints_digests [of "[''-256'', ''abc.txt'']" "\<lparr>quiet = False, hash = 1, fname = Some ''abc.txt''\<rparr>" "[]"
      "\<lambda>f. Inr [Some [0x61, 0x62], Some [0x63]]" "[Some [0x61, 0x62], Some [0x63]]" 1 _ "''sha2''", OF _ _ _ _ _ refl]
  by (simp add: INT_MAX_def)

text \<open>Standard input has no name, and printing it without the quiet option is undefined.\<close>

lemma sha2_main_stdin_unnamed:
  assumes "int (length (input_data stdin)) \<le> INT_MAX"
  shows "sha2_main prog [] opens stdin = None"
  using sha2_loop_digests [OF assms] by (auto simp: sha2_main_def sha2_line_def)

end
