(* ===== verification/CString_Meaning.thy ===== *)
theory CString_Meaning
  imports CString
begin

text \<open>
  What the string routines compute on strings.  A block that holds a string is in the
  relation \<open>holds\<close> of the prelude; every lemma of the collection \<open>cstr_refine\<close> says that a
  routine, started on blocks that hold its arguments, neither faults nor misses its
  string-level meaning.  The string-level functions defined here are the ones the other
  components are written with.
\<close>

section \<open>String-level meanings\<close>

definition startsWith :: "string \<Rightarrow> string \<Rightarrow> bool" where
  "startsWith s part \<longleftrightarrow> prefix part s"

definition endsWith :: "string \<Rightarrow> string \<Rightarrow> bool" where
  "endsWith s part \<longleftrightarrow> suffix part s"

definition containsStr :: "string \<Rightarrow> string \<Rightarrow> bool" where
  "containsStr s t \<longleftrightarrow> list_ex (\<lambda>i. prefix t (drop i s)) [0..<length s]"

definition removeChars :: "string \<Rightarrow> string \<Rightarrow> string" where
  "removeChars s cs = filter (\<lambda>c. c \<notin> set cs) s"

definition strip :: "string \<Rightarrow> string" where
  "strip s = rev (dropWhile c_isspace (rev (dropWhile c_isspace s)))"

definition substring :: "string \<Rightarrow> nat \<Rightarrow> nat \<Rightarrow> string" where
  "substring s start n = take n (drop start s)"

fun unEscape :: "string \<Rightarrow> string" where
  "unEscape [] = []"
| "unEscape [c] = [c]"
| "unEscape (c # d # s) =
     (case map_of escapeChars [c, d] of Some x \<Rightarrow> x # unEscape s | None \<Rightarrow> c # unEscape (d # s))"

section \<open>Lengths, comparison and search\<close>

lemma str_len_holds [cstr_refine]: "holds b s \<Longrightarrow> str_len b = Some (int (length s))"
  by (auto simp: str_len_def takeWhile_upto elim!: holdsE)

lemma compare_loop_prefix:
  assumes "NUL \<notin> set t" and "i + j \<le> length s" and "k + j = length t"
  shows "str_compare_loop k (s @ NUL # r) (int i) (t @ NUL # r') 0 (int j)
         = Some (prefix (drop j t) (drop (i + j) s))"
  using assms(2,3)
proof (induction k arbitrary: j)
  case 0
  then show ?case by simp
next
  case (Suc k)
  have j: "j < length t" using Suc.prems by simp
  have b: "rd (t @ NUL # r') (0 + int j) = Some (t ! j)"
    using j by (simp add: nth_append)
  have tj: "t ! j \<noteq> NUL" using assms(1) j by (metis nth_mem)
  have dt: "drop j t = t ! j # drop (Suc j) t" using j by (rule drop_Cons_nth)
  show ?case
  proof (cases "i + j < length s")
    case True
    have a: "rd (s @ NUL # r) (int i + int j) = Some (s ! (i + j))"
      using True by (simp add: rd_def nth_append nat_add_distrib)
    have ds: "drop (i + j) s = s ! (i + j) # drop (i + Suc j) s"
      using True by (simp add: drop_Cons_nth)
    have "str_compare_loop k (s @ NUL # r) (int i) (t @ NUL # r') 0 (int j + 1)
          = Some (prefix (drop (Suc j) t) (drop (i + Suc j) s))"
      using Suc.IH [of "Suc j"] Suc.prems True by (simp add: add.commute)
    with a b show ?thesis by (simp add: dt ds)
  next
    case False
    with Suc.prems have e: "i + j = length s" by simp
    then have "rd (s @ NUL # r) (int i + int j) = Some NUL"
      by (simp add: rd_def flip: of_nat_add)
    with b tj dt e show ?thesis by simp
  qed
qed

lemma compare_prefix:
  assumes "holds b s" and "holds b' t" and "i \<le> length s"
  shows "str_compare (int (length t)) b (int i) b' 0 = Some (prefix t (drop i s))"
proof -
  from assms(1) obtain r where b: "b = s @ NUL # r" by (rule holdsE)
  from assms(2) obtain r' where b': "b' = t @ NUL # r'" and t: "NUL \<notin> set t" by (rule holdsE)
  from compare_loop_prefix [OF t, of i 0 s "length t" r r'] assms(3)
  show ?thesis by (simp add: str_compare_def b b')
qed

lemma contains_loop_ex:
  assumes "holds b s" and "holds b' t" and "k + i = length s"
  shows "str_contains_loop k b b' (int (length t)) (int i)
         = Some (list_ex (\<lambda>i. prefix t (drop i s)) [i..<length s])"
  using assms(3)
proof (induction k arbitrary: i)
  case 0
  then show ?case by simp
next
  case (Suc k)
  then have i: "i < length s" by simp
  have "str_contains_loop k b b' (int (length t)) (int i + 1)
        = Some (list_ex (\<lambda>i. prefix t (drop i s)) [Suc i..<length s])"
    using Suc.IH [of "Suc i"] Suc.prems by (simp add: add.commute)
  moreover have "[i..<length s] = i # [Suc i..<length s]" using i by (rule upt_conv_Cons)
  ultimately show ?case
    using compare_prefix [OF assms(1,2), of i] i by auto
qed

lemma str_contains_holds [cstr_refine]:
  "holds b s \<Longrightarrow> holds b' t \<Longrightarrow> str_contains b b' = Some (containsStr s t)"
  using contains_loop_ex [of b s b' t "length s" 0]
  by (simp add: str_contains_def str_len_holds containsStr_def)

lemma containsStr_single: "containsStr s [c] \<longleftrightarrow> c \<in> set s"
proof -
  have "prefix [c] (drop i s) \<longleftrightarrow> s ! i = c" if "i < length s" for i
    using that by (auto simp: drop_Cons_nth)
  then show ?thesis
    by (auto simp: containsStr_def list_ex_iff in_set_conv_nth)
qed

lemma startswith_loop_prefix:
  assumes "NUL \<notin> set t" and "j \<le> length s" and "k + j = length t"
  shows "str_startswith_loop k (s @ NUL # r) (t @ NUL # r') (int j)
         = Some (prefix (drop j t) (drop j s))"
proof -
  have "str_startswith_loop k b b' i = str_compare_loop k b 0 b' 0 i" for b b' i
    by (induction k arbitrary: i) (auto cong: if_cong)
  with compare_loop_prefix [OF assms(1), of 0 j s k r r'] assms(2,3) show ?thesis by simp
qed

lemma str_startswith_holds [cstr_refine]:
  "holds b s \<Longrightarrow> holds b' t \<Longrightarrow> str_startswith b b' = Some (startsWith s t)"
proof -
  assume b: "holds b s" and b': "holds b' t"
  from b obtain r where r: "b = s @ NUL # r" by (rule holdsE)
  from b' obtain r' where r': "b' = t @ NUL # r'" "NUL \<notin> set t" by (rule holdsE)
  from startswith_loop_prefix [OF r'(2), of 0 s "length t" r r'] show ?thesis
    using str_len_holds [OF b'] by (simp add: str_startswith_def startsWith_def r r')
qed

lemma charCount_loop_count:
  assumes "k + i = length s"
  shows "str_charCount_loop k (s @ NUL # r) c (int i) n
         = Some (n + int (count_list (drop i s) c))"
  using assms
proof (induction k arbitrary: i n)
  case 0
  then show ?case by simp
next
  case (Suc k)
  then have i: "i < length s" by simp
  have "str_charCount_loop k (s @ NUL # r) c (int i + 1) m
        = Some (m + int (count_list (drop (Suc i) s) c))" for m
    using Suc.IH [of "Suc i" m] Suc.prems by (simp add: add.commute)
  then show ?case using i by (simp add: nth_append drop_Cons_nth [OF i])
qed

lemma str_charCount_holds [cstr_refine]:
  "holds b s \<Longrightarrow> str_charCount b c = Some (int (count_list s c))"
  using charCount_loop_count [of "length s" 0 s _ c 0]
  by (auto simp: str_charCount_def str_len_holds holdsI elim!: holdsE)

lemma strcmp_eq_append:
  "NUL \<notin> set s \<Longrightarrow> NUL \<notin> set t \<Longrightarrow> strcmp_eq (s @ NUL # r) (t @ NUL # r') = Some (s = t)"
proof (induction s arbitrary: t)
  case Nil
  then show ?case by (cases t) auto
next
  case (Cons a s)
  then show ?case by (cases t) auto
qed

lemma str_isEqual_holds [cstr_refine]:
  "holds b s \<Longrightarrow> holds b' t \<Longrightarrow> str_isEqual b b' = Some (s = t)"
  by (auto simp: str_isEqual_def strcmp_eq_append elim!: holdsE)

section \<open>Copying\<close>

lemma memcpy_list:
  assumes "i + n \<le> length dst" and "j + n \<le> length src"
  shows "memcpy n dst (int i) src (int j)
         = Some (take i dst @ take n (drop j src) @ drop (i + n) dst)"
  using assms
proof (induction n arbitrary: dst i j)
  case 0
  then show ?case by simp
next
  case (Suc n)
  let ?d = "dst[i := src ! j]"
  have i: "i < length dst" and j: "j < length src" using Suc.prems by auto
  have "memcpy n ?d (int (Suc i)) src (int (Suc j))
        = Some (take (Suc i) ?d @ take n (drop (Suc j) src) @ drop (Suc i + n) ?d)"
    using Suc.prems by (intro Suc.IH) auto
  moreover have "take (Suc i) ?d = take i dst @ [src ! j]"
    using i by (simp add: take_Suc_conv_app_nth)
  moreover have "take (Suc n) (drop j src) = src ! j # take n (drop (Suc j) src)"
    using j by (simp add: drop_Cons_nth)
  ultimately show ?case using i j by (simp add: add.commute)
qed

lemma str_set_holds [cstr_refine]:
  assumes "holds b s" and "length s < length dst"
  shows "\<exists>dst'. str_set dst b = Some dst' \<and> holds dst' s \<and> length dst' = length dst"
proof -
  from assms(1) obtain r where b: "b = s @ NUL # r" and s: "NUL \<notin> set s" by (rule holdsE)
  have "str_set dst b = Some (s @ NUL # drop (Suc (length s)) dst)"
    using memcpy_list [of 0 "Suc (length s)" dst 0 b] str_len_holds [OF assms(1)] assms(2) b
    by (simp add: str_set_def del: memcpy.simps)
  then show ?thesis using s assms(2) by (auto intro: holdsI)
qed

lemma memcpy_overflow:
  "length dst < i + n \<Longrightarrow> 0 < n \<Longrightarrow> memcpy n dst (int i) src j = None"
proof (induction n arbitrary: dst i j)
  case 0
  from 0(2) show ?case by (rule less_irrefl [THEN notE])
next
  case (Suc n)
  show ?case
  proof (cases "i < length dst")
    case True
    with Suc.prems have "0 < n" by simp
    with Suc.prems have "memcpy n (dst[i := x]) (int (Suc i)) src (j + 1) = None" for x
      by (intro Suc.IH) auto
    with True show ?thesis by (cases "rd src j") (simp_all add: add.commute)
  next
    case False
    then show ?thesis by (cases "rd src j") auto
  qed
qed

lemma str_set_overflow:
  "holds b s \<Longrightarrow> length dst \<le> length s \<Longrightarrow> str_set dst b = None"
  using memcpy_overflow [of dst 0 "Suc (length s)" b 0]
  by (simp add: str_set_def str_len_holds)

lemma str_concat_holds [cstr_refine]:
  assumes "holds b s" and "holds b' t" and "length s + length t < length b"
  shows "\<exists>b''. str_concat b b' = Some b'' \<and> holds b'' (s @ t) \<and> length b'' = length b"
proof -
  from assms(1) obtain r where b: "b = s @ NUL # r" and s: "NUL \<notin> set s" by (rule holdsE)
  from assms(2) obtain r' where b': "b' = t @ NUL # r'" and t: "NUL \<notin> set t" by (rule holdsE)
  have "str_concat b b' = Some ((s @ t) @ NUL # drop (Suc (length s + length t)) b)"
    using memcpy_list [of "length s" "Suc (length t)" b 0 b'] assms(3) b b'
      str_len_holds [OF assms(1)] str_len_holds [OF assms(2)]
    by (simp add: str_concat_def del: memcpy.simps)
  moreover have "NUL \<notin> set (s @ t)" using s t by simp
  ultimately show ?thesis
    using holdsI [of "s @ t" "drop (Suc (length s + length t)) b"] assms(3) by simp
qed

lemma str_substring_holds [cstr_refine]:
  assumes "holds b s" and "start \<le> length s" and "start + n \<le> length s" and "n < length dst"
    and "end' = (if m then - 1 else int start + int n - 1)"
    and "if m then start + n = length s else 0 < start + n"
  shows "\<exists>dst'. str_substring dst b (int start) end' = Some dst' \<and> holds dst' (substring s start n)"
proof -
  from assms(1) obtain r where b: "b = s @ NUL # r" and s: "NUL \<notin> set s" by (rule holdsE)
  have sub: "take n (drop start b) = substring s start n"
    using assms(3) by (simp add: b substring_def)
  have cp: "memcpy n dst 0 b (int start) = Some (substring s start n @ drop n dst)"
    using memcpy_list [of 0 n dst start b] assms(3,4) sub by (simp add: b)
  have sz: "(if end' = - 1 then int (length s) - 1 else end') - int start + 1 = int n"
    using assms(5,6) by (auto split: if_splits)
  have ln: "length (substring s start n) = n" using assms(3) by (simp add: substring_def)
  have "wr (substring s start n @ drop n dst) (int n) NUL
        = Some (substring s start n @ NUL # drop (Suc n) dst)"
    using assms(4) ln by (simp add: list_update_append list_update_take_drop)
  then have "str_substring dst b (int start) end' = Some (substring s start n @ NUL # drop (Suc n) dst)"
    by (simp add: str_substring_def str_len_holds [OF assms(1)] sz cp Let_def)
  moreover have "NUL \<notin> set (substring s start n)"
    using s by (auto simp: substring_def dest: in_set_takeD in_set_dropD)
  ultimately show ?thesis by (auto intro: holdsI)
qed

section \<open>In-place filtering and unescaping\<close>

lemma removeChars_loop_filter:
  assumes "holds cb cs" and "drop i b = w @ NUL # r" and "NUL \<notin> set w" and "sh \<le> i" and "i \<le> length b"
  shows "\<exists>r'. removeChars_loop b cb (int i) (int sh)
              = Some (take (i - sh) b @ removeChars w cs @ NUL # r')"
  using assms(2-5)
proof (induction w arbitrary: b i sh)
  case Nil
  have i: "i < length b" using Nil.prems(1) by (cases "i < length b") auto
  then have c: "rd b (int i) = Some NUL"
    using Nil.prems(1) by (simp add: drop_Cons_nth)
  have "wr b (int i - int sh) NUL = Some (b[i - sh := NUL])"
    using i Nil.prems(3) by (simp flip: of_nat_diff)
  then have "removeChars_loop b cb (int i) (int sh)
             = Some (take (i - sh) b @ NUL # drop (Suc (i - sh)) b)"
    using c i by (simp add: removeChars_loop.simps [of b] list_update_take_drop)
  then show ?case by (simp add: removeChars_def)
next
  case (Cons c w)
  have i: "i < length b" using Cons.prems(1) by (cases "i < length b") auto
  have ci: "b ! i = c" and dw: "drop (Suc i) b = w @ NUL # r"
    using Cons.prems(1) i by (simp_all add: drop_Cons_nth)
  have c: "c \<noteq> NUL" using Cons.prems(2) by auto
  let ?b = "b[i - sh := c]"
  have w1: "wr b (int i - int sh) c = Some ?b"
    using i Cons.prems(3) by (simp flip: of_nat_diff)
  have t: "str_contains cb [c, NUL] = Some (c \<in> set cs)"
    using str_contains_holds [OF assms(1), of "[c, NUL]" "[c]"] c
    by (simp add: holds_def containsStr_single)
  have d: "drop (Suc i) ?b = w @ NUL # r"
    using dw Cons.prems(3) by (simp add: drop_update_cancel)
  have ih: "\<exists>r'. removeChars_loop ?b cb (int (Suc i)) (int sh')
              = Some (take (Suc i - sh') ?b @ removeChars w cs @ NUL # r')"
    if "sh' \<le> Suc i" for sh'
    using Cons.IH [OF d] Cons.prems(2) that i by simp
  have st: "removeChars_loop b cb (int i) (int sh)
            = removeChars_loop ?b cb (int (Suc i)) (int (if c \<in> set cs then Suc sh else sh))"
    using ci c i w1 t by (simp add: removeChars_loop.simps [of b] add.commute)
  show ?case
  proof (cases "c \<in> set cs")
    case True
    with ih [of "Suc sh"] st Cons.prems(3) show ?thesis
      by (auto simp: removeChars_def)
  next
    case False
    have "take (Suc i - sh) ?b = take (i - sh) b @ [c]"
      using i Cons.prems(3) by (simp add: Suc_diff_le take_Suc_conv_app_nth)
    with ih [of sh] st False Cons.prems(3) show ?thesis
      by (auto simp: removeChars_def)
  qed
qed

lemma str_removeChars_holds [cstr_refine]:
  assumes "holds b s" and "holds cb cs"
  shows "\<exists>b'. str_removeChars b cb = Some b' \<and> holds b' (removeChars s cs)"
proof -
  from assms(1) obtain r where b: "b = s @ NUL # r" and s: "NUL \<notin> set s" by (rule holdsE)
  from removeChars_loop_filter [OF assms(2), of 0 b s r 0] b s
  obtain r' where "removeChars_loop b cb 0 0 = Some (removeChars s cs @ NUL # r')" by auto
  moreover have "NUL \<notin> set (removeChars s cs)" using s by (simp add: removeChars_def)
  ultimately show ?thesis by (auto simp: str_removeChars_def intro: holdsI)
qed

lemma find_escape_map_of:
  assumes "b = u @ c # d # v" and "\<forall>e \<in> set tab. length (fst e) = 2"
  shows "find_escape tab b (int (length u)) = Some (map_of tab [c, d])"
  using assms(2)
proof (induction tab)
  case Nil
  then show ?case by simp
next
  case (Cons e tab)
  obtain k x where e: "e = (k, x)" by (cases e)
  with Cons.prems obtain k0 k1 where k: "k = [k0, k1]"
    by (auto simp: length_Suc_conv numeral_2_eq_2)
  have r0: "rd b (int (length u)) = Some c"
    by (simp add: assms(1))
  have r1: "rd b (int (length u) + 1) = Some d"
    using rd_at_length [of "u @ [c]" d v] by (simp add: assms(1) add.commute)
  have "str_compare 2 b (int (length u)) (k @ [NUL]) 0 = Some (k = [c, d])"
    using r0 r1 by (auto simp: str_compare_def k numeral_2_eq_2 rd_def)
  with Cons e show ?case by auto
qed

lemma escape_table_width: "\<forall>e \<in> set escapeChars. length (fst e) = 2"
  by (simp add: escapeChars_def)

lemma escape_table_values: "map_of escapeChars k = Some x \<Longrightarrow> x \<noteq> NUL"
  by (auto simp: escapeChars_def split: if_splits)

lemma escape_table_nul: "map_of escapeChars [c, NUL] = None"
  by (simp add: escapeChars_def)

lemma unEscape_loop_stop:
  assumes "drop i b = NUL # r" and "sh \<le> i"
  shows "unEscape_loop b (int i) (int sh)
         = Some (take (i - sh) b @ NUL # drop (Suc (i - sh)) b)"
proof -
  have i: "i < length b" using assms(1) by (cases "i < length b") auto
  have "rd b (int i) = Some NUL" using assms(1) i by (simp add: drop_Cons_nth)
  moreover have "wr b (int i - int sh) NUL = Some (b[i - sh := NUL])"
    using i assms(2) by (simp flip: of_nat_diff)
  ultimately show ?thesis
    using i by (simp add: unEscape_loop.simps [of b] list_update_take_drop)
qed

lemma unEscape_loop_step:
  assumes "drop i b = c # d # v" and "c \<noteq> NUL" and "sh \<le> i"
  shows "unEscape_loop b (int i) (int sh) =
    (case map_of escapeChars [c, d] of
       None \<Rightarrow> unEscape_loop (b[i - sh := c]) (int (Suc i)) (int sh)
     | Some x \<Rightarrow> unEscape_loop (b[i - sh := x]) (int (Suc (Suc i))) (int (Suc sh)))"
proof -
  have i: "i < length b" using assms(1) by (cases "i < length b") auto
  have ci: "b ! i = c" and dw: "drop (Suc i) b = d # v"
    using assms(1) i by (simp_all add: drop_Cons_nth)
  let ?b = "b[i - sh := c]"
  have "?b ! i = c" using ci i by (cases "i - sh = i") auto
  moreover have "drop (Suc i) ?b = d # v" using dw by (simp add: drop_update_cancel)
  ultimately have "?b = take i ?b @ c # d # v"
    using i by (metis id_take_nth_drop length_list_update)
  from find_escape_map_of [OF this escape_table_width] i
  have "find_escape escapeChars ?b (int i) = Some (map_of escapeChars [c, d])" by simp
  moreover have "wr b (int i - int sh) c = Some ?b"
    and "wr ?b (int i - int sh) x = Some (b[i - sh := x])" for x
    using i assms(3) by (simp_all flip: of_nat_diff)
  ultimately show ?thesis
    using assms(2) ci i by (simp add: unEscape_loop.simps [of b] add.commute split: option.split)
qed

lemma take_after_write:
  "i < length b \<Longrightarrow> sh \<le> i \<Longrightarrow> take (Suc i - sh) (b[i - sh := x]) = take (i - sh) b @ [x]"
  by (simp add: Suc_diff_le take_Suc_conv_app_nth)

lemma unEscape_loop_list:
  assumes "drop i b = w @ NUL # r" and "NUL \<notin> set w" and "sh \<le> i"
  shows "\<exists>r'. unEscape_loop b (int i) (int sh) = Some (take (i - sh) b @ unEscape w @ NUL # r')"
  using assms
proof (induction w arbitrary: b i sh rule: unEscape.induct)
  case 1
  then show ?case by (simp add: unEscape_loop_stop)
next
  case (2 c)
  have i: "i < length b" using 2(1) by (cases "i < length b") auto
  have d: "drop (Suc i) (b[i - sh := c]) = NUL # r"
    using 2(1) i by (simp add: drop_Cons_nth drop_update_cancel)
  have "unEscape_loop b (int i) (int sh) = unEscape_loop (b[i - sh := c]) (int (Suc i)) (int sh)"
    using unEscape_loop_step [of i b c NUL r sh] 2 by (simp add: escape_table_nul)
  with unEscape_loop_stop [OF d, of sh] take_after_write [OF i 2(3)] 2(3) show ?case by simp
next
  case (3 c d s)
  have i: "i < length b" using 3(3) by (cases "i < length b") auto
  have drops: "drop (Suc i) (b[i - sh := x]) = d # s @ NUL # r"
    "drop (Suc (Suc i)) (b[i - sh := x]) = s @ NUL # r" for x
    using 3(3) i by (simp_all add: drop_Cons_nth drop_update_cancel)
       (metis drop_Suc list.sel(3) tl_drop)
  have st: "unEscape_loop b (int i) (int sh) =
    (case map_of escapeChars [c, d] of
       None \<Rightarrow> unEscape_loop (b[i - sh := c]) (int (Suc i)) (int sh)
     | Some x \<Rightarrow> unEscape_loop (b[i - sh := x]) (int (Suc (Suc i))) (int (Suc sh)))"
    using 3(3,4,5) by (intro unEscape_loop_step) auto
  show ?case
  proof (cases "map_of escapeChars [c, d]")
    case None
    from 3(1) [OF None, of "Suc i" "b[i - sh := c]" sh] drops 3(4,5) st None
      take_after_write [OF i 3(5)] show ?thesis by auto
  next
    case (Some x)
    from 3(2) [OF Some drops(2), of "Suc sh"] 3(4,5) st Some
      take_after_write [OF i 3(5)] show ?thesis by auto
  qed
qed

lemma unEscape_no_nul: "NUL \<notin> set s \<Longrightarrow> NUL \<notin> set (unEscape s)"
proof (induction s rule: unEscape.induct)
  case (3 c d s)
  then show ?case by (auto split: option.splits dest: escape_table_values)
qed auto

lemma str_unEscape_holds [cstr_refine]:
  assumes "holds b s"
  shows "\<exists>b'. str_unEscape b = Some b' \<and> holds b' (unEscape s)"
proof -
  from assms obtain r where b: "b = s @ NUL # r" and s: "NUL \<notin> set s" by (rule holdsE)
  from unEscape_loop_list [of 0 b s r 0] b s
  obtain r' where "unEscape_loop b 0 0 = Some (unEscape s @ NUL # r')" by auto
  with unEscape_no_nul [OF s] show ?thesis by (auto simp: str_unEscape_def intro: holdsI)
qed

section \<open>Trimming\<close>

lemma strip_lead_list:
  assumes "b = s @ NUL # r" and "i \<le> length s"
  shows "strip_lead b (int i) (int (length s) - 1)
         = Some (int (i + length (takeWhile c_isspace (drop i s))))"
  using assms(2)
proof (induction "length s - i" arbitrary: i)
  case 0
  then show ?case by (simp add: strip_lead.simps)
next
  case (Suc n)
  then have i: "i < length s" by simp
  have c: "rd b (int i) = Some (s ! i)" using i by (simp add: assms(1) nth_append)
  have "strip_lead b (int (Suc i)) (int (length s) - 1)
        = Some (int (Suc i + length (takeWhile c_isspace (drop (Suc i) s))))"
    using Suc.hyps(2) i by (intro Suc.hyps(1)) auto
  with c i show ?case
    by (simp add: strip_lead.simps [of b "int i"] drop_Cons_nth [OF i] add.commute)
qed

lemma strip_trail_list:
  assumes "b = s @ NUL # r" and "i + length w = length s" and "drop i s = w"
    and "w \<noteq> []" and "\<not> c_isspace (hd w)" and "k \<le> length w" and "k > 0"
    and "\<forall>c \<in> set (drop k w). c_isspace c"
  shows "strip_trail b (int i) (int (i + k) - 1)
         = Some (int (i + length (dropWhile c_isspace (rev w))) - 1)"
  using assms(6-8)
proof (induction k)
  case 0
  from 0(2) show ?case by (rule less_irrefl [THEN notE])
next
  case (Suc k)
  have rw: "rev w = rev (drop (Suc k) w) @ w ! k # rev (take k w)"
    using Suc.prems(1) id_take_nth_drop [of k w] by (metis Suc_le_lessD append_Cons append_Nil append_assoc rev.simps(2) rev_append)
  have dw: "dropWhile c_isspace (rev w) = dropWhile c_isspace (w ! k # rev (take k w))"
    unfolding rw using Suc.prems(3) by (subst dropWhile_append2) auto
  have at: "rd b (int (i + k)) = Some (w ! k)"
    using assms(2,3) Suc.prems(1) unfolding rd_nat by (auto simp: assms(1) nth_append)
  show ?case
  proof (cases "c_isspace (w ! k)")
    case True
    have k: "k > 0" using True assms(4,5) by (cases k) (auto simp: hd_conv_nth)
    have "\<forall>c \<in> set (drop k w). c_isspace c"
      using True Suc.prems by (simp add: drop_Cons_nth [of k w])
    with Suc.IH k Suc.prems(1) at True show ?thesis
      by (simp add: strip_trail.simps [of b "int i" "int i + int k"])
  next
    case False
    have "min (length w) k = k" using Suc.prems(1) by simp
    with at False dw show ?thesis
      by (cases "k = 0") (simp_all add: strip_trail.simps [of b "int i" "int i + int k"] strip_trail.simps [of b "int i" "int i"])
  qed
qed

lemma move_down_list:
  assumes "start + i + n \<le> length b"
  shows "move_down n b (int start) (int i)
         = Some (take i b @ take n (drop (start + i) b) @ drop (i + n) b)"
  using assms
proof (induction n arbitrary: b i)
  case 0
  then show ?case by simp
next
  case (Suc n)
  let ?b = "b[i := b ! (start + i)]"
  have si: "start + i < length b" and i: "i < length b" using Suc.prems by auto
  have "move_down n ?b (int start) (int (Suc i))
        = Some (take (Suc i) ?b @ take n (drop (start + Suc i) ?b) @ drop (Suc i + n) ?b)"
    using Suc.prems by (intro Suc.IH) simp
  moreover have "take (Suc i) ?b = take i b @ [b ! (start + i)]"
    using i by (simp add: take_Suc_conv_app_nth)
  moreover have "rd b (int start + int i) = Some (b ! (start + i))"
    using si by (simp flip: of_nat_add)
  moreover have "drop (start + i) b = b ! (start + i) # drop (Suc (start + i)) b"
    using si by (rule drop_Cons_nth)
  ultimately show ?case using si i by (simp add: add.commute)
qed

lemma str_strip_holds [cstr_refine]:
  assumes "holds b s"
  shows "\<exists>b'. str_strip b = Some b' \<and> holds b' (strip s)"
proof -
  from assms obtain r where b: "b = s @ NUL # r" and s: "NUL \<notin> set s" by (rule holdsE)
  define w where "w = dropWhile c_isspace s"
  define i where "i = length (takeWhile c_isspace s)"
  have iw: "i + length w = length s" and dw: "drop i s = w"
    unfolding i_def w_def
    by (metis length_append takeWhile_dropWhile_id) (simp add: dropWhile_eq_drop)
  have lead: "strip_lead b 0 (int (length s) - 1) = Some (int i)"
    using strip_lead_list [OF b, of 0] by (simp add: i_def)
  show ?thesis
  proof (cases "w = []")
    case True
    with iw have "i = length s" by simp
    then have "rd b (int i) = Some NUL" unfolding b by (simp only: rd_at_length)
    moreover have "wr b 0 NUL = Some (NUL # tl b)"
      unfolding b by (cases s) (simp_all add: wr_def)
    moreover have "strip s = []" using True unfolding strip_def w_def by (simp only: rev.simps dropWhile.simps)
    ultimately show ?thesis
      by (auto simp: str_strip_def str_len_holds [OF assms] lead intro: holdsI [of "[]", simplified])
  next
    case False
    define n where "n = length (dropWhile c_isspace (rev w))"
    have hw: "\<not> c_isspace (hd w)" using False unfolding w_def by (rule hd_dropWhile)
    have at: "rd b (int i) = Some (hd w)"
      using False iw hd_drop_conv_nth [of i s] by (cases w) (auto simp: b nth_append dw)
    have "hd w \<noteq> NUL" using False s unfolding w_def
      by (metis hd_in_set set_dropWhileD)
    moreover have "strip_trail b (int i) (int (length s) - 1) = Some (int (i + n) - 1)"
      using strip_trail_list [OF b iw dw False hw, of "length w"] False iw by (simp add: n_def)
    moreover have nw: "n \<le> length w" unfolding n_def by (metis length_dropWhile_le length_rev)
    moreover have st: "strip s = take n w"
      unfolding strip_def w_def [symmetric] n_def
      by (metis dropWhile_eq_drop length_drop length_rev rev_drop rev_rev_ident)
    moreover have "move_down n b (int i) 0 = Some (take n w @ drop n b)"
      using move_down_list [of i 0 n b] iw nw dw by (simp add: b)
    moreover have nb: "n < length b" using nw iw by (simp add: b)
    moreover have "wr (take n w @ drop n b) (int n) NUL = Some (take n w @ NUL # drop (Suc n) b)"
      using nw nb by (simp add: list_update_append drop_Cons_nth [OF nb])
    moreover have "NUL \<notin> set (take n w)" using s unfolding w_def
      by (meson in_set_takeD set_dropWhileD)
    ultimately have "str_strip b = Some (take n w @ NUL # drop (Suc n) b)"
      by (simp add: str_strip_def str_len_holds [OF assms] lead at Let_def del: rd_nat wr_nat)
    with \<open>NUL \<notin> set (take n w)\<close> st show ?thesis by (simp add: holdsI)
  qed
qed

section \<open>Suffix test and its reads below the object\<close>

lemma endswith_loop_list:
  assumes "NUL \<notin> set t" and "length t \<le> length s" and "k + j = length t"
  shows "str_endswith_loop k pre (s @ NUL # r) (int (length s) - int (length t)) (t @ NUL # r') (int j)
         = Some (drop (length s - length t + j) s = drop j t)"
  using assms(3)
proof (induction k arbitrary: j)
  case 0
  with assms(2) show ?case by simp
next
  case (Suc k)
  let ?i = "length s - length t + j"
  have j: "j < length t" and i: "?i < length s" using Suc.prems assms(2) by auto
  have "int (length s) - int (length t) + int j = int ?i" using assms(2) by simp
  moreover have "rd_below pre (s @ NUL # r) (int ?i) = Some (s ! ?i)"
    using i unfolding rd_below_def rd_nat by (simp only: of_nat_less_0_iff if_False) (simp add: nth_append)
  ultimately have a: "rd_below pre (s @ NUL # r) (int (length s) - int (length t) + int j) = Some (s ! ?i)"
    by (simp only:)
  have "rd (t @ NUL # r') (int j) = Some (t ! j)" using j by (simp add: nth_append)
  moreover have "str_endswith_loop k pre (s @ NUL # r) (int (length s) - int (length t)) (t @ NUL # r') (int j + 1)
    = Some (drop (Suc ?i) s = drop (Suc j) t)"
    using Suc.IH [of "Suc j"] Suc.prems by (simp add: add.commute)
  ultimately show ?case using a by (simp add: drop_Cons_nth [OF i] drop_Cons_nth [OF j])
qed

lemma str_endswith_holds [cstr_refine]:
  assumes "holds b s" and "holds b' t" and "length t \<le> length s"
  shows "str_endswith pre b b' = Some (endsWith s t)"
proof -
  from assms(1) obtain r where b: "b = s @ NUL # r" by (rule holdsE)
  from assms(2) obtain r' where b': "b' = t @ NUL # r'" and t: "NUL \<notin> set t" by (rule holdsE)
  have "suffix t s \<longleftrightarrow> drop (length s - length t) s = t"
    by (auto simp: suffix_def) (metis append_take_drop_id)
  with endswith_loop_list [OF t assms(3), of "length t" 0 pre r r'] show ?thesis
    using str_len_holds [OF assms(1)] str_len_holds [OF assms(2)]
    by (simp add: str_endswith_def endsWith_def b b')
qed

section \<open>Tokens\<close>

lemma strtok_word:
  assumes "w \<noteq> []" and "set w \<inter> set ds = {}" and "d \<in> set ds"
  shows "strtok ds (w @ d # r) = (Some w, r)" and "strtok ds w = (Some w, [])"
proof -
  obtain a as where a: "w = a # as" using assms(1) by (cases w) auto
  have n: "\<forall>x \<in> set w. x \<notin> set ds" using assms(2) by auto
  then have d: "dropWhile (\<lambda>c. c \<in> set ds) (w @ z) = w @ z" for z using a by simp
  have t: "takeWhile (\<lambda>c. c \<notin> set ds) (w @ d # r) = w" "dropWhile (\<lambda>c. c \<notin> set ds) (w @ d # r) = d # r"
    using n assms(3) by (simp_all add: takeWhile_append2 dropWhile_append2)
  have e: "takeWhile (\<lambda>c. c \<notin> set ds) w = w" "dropWhile (\<lambda>c. c \<notin> set ds) w = []"
    using n by (auto simp: takeWhile_eq_all_conv dropWhile_eq_Nil_conv)
  show "strtok ds (w @ d # r) = (Some w, r)"
    unfolding strtok_def Let_def d t using assms(1) by simp
  show "strtok ds w = (Some w, [])"
    unfolding strtok_def Let_def d [of "[]", unfolded append_Nil2] e using assms(1) by simp
qed

section \<open>Numbers in strings\<close>

lemma digits_val_append:
  "list_all is_digit a \<Longrightarrow> digits_val n (a @ b) = digits_val (digits_val n a) b"
  by (induction a arbitrary: n) auto

lemma digit_char: "k < 10 \<Longrightarrow> is_digit (char_of (48 + k)) \<and> digit_val (char_of (48 + k)) = int k"
proof -
  assume "k < (10::nat)"
  then have o: "(of_char (char_of (48 + k)) :: nat) = 48 + k" by simp
  with \<open>k < 10\<close> show ?thesis by (simp add: is_digit_def digit_val_def)
qed

lemma show_nat_digits: "list_all is_digit (show_nat n) \<and> show_nat n \<noteq> []"
proof (induction n rule: show_nat.induct)
  case (1 n)
  then show ?case using digit_char [of n] digit_char [of "n mod 10"]
    by (cases "n < 10") (simp_all add: show_nat.simps [of n])
qed

lemma digits_val_show_nat: "digits_val 0 (show_nat n) = int n"
proof (induction n rule: show_nat.induct)
  case (1 n)
  show ?case
  proof (cases "n < 10")
    case True
    then show ?thesis using digit_char [of n] by (simp add: show_nat.simps [of n])
  next
    case False
    then show ?thesis
      using 1 digit_char [of "n mod 10"] show_nat_digits [of "n div 10"]
      by (simp add: show_nat.simps [of n] digits_val_append) presburger
  qed
qed

lemma is_digit_not_space: "is_digit c \<Longrightarrow> \<not> c_isspace c \<and> c \<noteq> CHR ''-'' \<and> c \<noteq> CHR ''+''"
  by (auto simp: is_digit_def c_isspace_def)

text \<open>Printing an int with \<open>%d\<close> and reading it back with \<open>atoi\<close> is the identity on int.\<close>

lemma str_toInt_int_toString:
  assumes "- INT_MAX - 1 \<le> i" and "i \<le> INT_MAX"
  shows "str_toInt (int_toString i) = Some i"
proof (cases "i < 0")
  case True
  have m: "\<not> c_isspace CHR ''-''" by (simp add: c_isspace_def)
  with True assms digits_val_show_nat [of "nat (- i)"] show ?thesis
    by (simp add: str_toInt_def int_toString_def Let_def)
next
  case False
  obtain c cs where e: "show_nat (nat i) = c # cs" and c: "is_digit c"
    using show_nat_digits [of "nat i"] by (cases "show_nat (nat i)") auto
  with False assms digits_val_show_nat [of "nat i"] is_digit_not_space [OF c] show ?thesis
    by (simp add: str_toInt_def int_toString_def Let_def)
qed

section \<open>Properties\<close>

lemma endswith_loop_below:
  assumes "NUL \<notin> set t" and "k + j = length t" and "length pre + length s = length t" and "NUL \<notin> set s"
  shows "str_endswith_loop k pre (s @ NUL # r) (int (length s) - int (length t)) (t @ NUL # r') (int j)
         = Some (drop j (pre @ s) = drop j t)"
  using assms(2)
proof (induction k arbitrary: j)
  case 0
  with assms(3) show ?case by simp
next
  case (Suc k)
  have j: "j < length t" and j': "j < length (pre @ s)" using Suc.prems assms(3) by auto
  have a: "rd_below pre (s @ NUL # r) (int (length s) - int (length t) + int j) = Some ((pre @ s) ! j)"
  proof (cases "j < length pre")
    case True
    then have e: "int (length pre) + (int (length s) - int (length t) + int j) = int j"
      and n: "int (length s) - int (length t) + int j < 0" using assms(3) by linarith+
    from True show ?thesis
      unfolding rd_below_def if_P [OF n] e rd_nat by (simp add: nth_append)
  next
    case False
    then have e: "int (length s) - int (length t) + int j = int (j - length pre)"
      using assms(3) by linarith
    from False j assms(3) have "j - length pre < length s" by linarith
    with False show ?thesis
      unfolding e rd_below_def rd_nat by (simp only: of_nat_less_0_iff if_False) (simp add: nth_append)
  qed
  have "rd (t @ NUL # r') (int j) = Some (t ! j)" using j by (simp add: nth_append)
  moreover have "str_endswith_loop k pre (s @ NUL # r) (int (length s) - int (length t)) (t @ NUL # r') (int j + 1)
    = Some (drop (Suc j) (pre @ s) = drop (Suc j) t)"
    using Suc.IH [of "Suc j"] Suc.prems by (simp add: add.commute)
  ultimately show ?case using a
    by (simp del: rd_nat drop_append add: drop_Cons_nth [OF j] drop_Cons_nth [OF j'])
qed

text \<open>
  \<open>str_removeChars\<close> works in place: on a block that holds a string it never leaves the
  block, and the block then holds exactly the characters of the string that are not in the
  set, in their order.
\<close>

theorem str_removeChars_filters:
  assumes "holds b s" and "holds cb cs"
  shows "\<exists>b'. str_removeChars b cb = Some b' \<and> holds b' (filter (\<lambda>c. c \<notin> set cs) s)"
  using str_removeChars_holds [OF assms] by (simp add: removeChars_def)

theorem str_removeChars_filters_witness:
  "\<exists>b'. str_removeChars (''a b'' @ [NUL, CHR ''z'']) ('' '' @ [NUL]) = Some b' \<and> holds b' ''ab''"
  using str_removeChars_filters [of "''a b'' @ [NUL, CHR ''z'']" "''a b''" "'' '' @ [NUL]" "'' ''"]
  by (simp add: holds_def)

text \<open>
  \<open>str_strip\<close> removes the white space at both ends and nothing else, within the block.
\<close>

theorem str_strip_trims:
  assumes "holds b s"
  shows "\<exists>b'. str_strip b = Some b' \<and> holds b' (rev (dropWhile c_isspace (rev (dropWhile c_isspace s))))"
  using str_strip_holds [OF assms] by (simp add: strip_def)

theorem str_strip_trims_witness:
  "\<exists>b'. str_strip ('' a  '' @ [NUL]) = Some b' \<and> holds b' ''a''"
  using str_strip_trims [of "'' a  '' @ [NUL]" "'' a  ''"] by (simp add: holds_def c_isspace_def)

text \<open>
  (C31) \<open>str_endswith\<close> answers the suffix question only for strings at least as long as the
  part.  For a shorter string it reads the bytes below the string: the answer is whether
  those bytes followed by the string are the part.
\<close>

theorem str_endswith_cases:
  assumes "holds b s" and "holds b' t"
  shows "(length t \<le> length s \<longrightarrow> str_endswith pre b b' = Some (suffix t s))
    \<and> (length pre + length s = length t \<longrightarrow> str_endswith pre b b' = Some (pre @ s = t))"
proof -
  from assms(1) obtain r where b: "b = s @ NUL # r" and s: "NUL \<notin> set s" by (rule holdsE)
  from assms(2) obtain r' where b': "b' = t @ NUL # r'" and t: "NUL \<notin> set t" by (rule holdsE)
  have "str_endswith pre b b' = Some (pre @ s = t)" if "length pre + length s = length t"
    using endswith_loop_below [OF t _ that s, of "length t" 0 r r']
      str_len_holds [OF assms(1)] str_len_holds [OF assms(2)]
    by (simp add: str_endswith_def b b')
  then show ?thesis using str_endswith_holds [OF assms] by (simp add: endsWith_def)
qed

theorem str_endswith_cases_witness:
  "str_endswith ''x'' (''y'' @ [NUL]) (''xy'' @ [NUL]) = Some True"
  using str_endswith_cases [of "''y'' @ [NUL]" "''y''" "''xy'' @ [NUL]" "''xy''" "''x''"]
  by (simp add: holds_def)

text \<open>Printing an int and reading it back with \<open>atoi\<close> is the identity on the range of int.\<close>

theorem toInt_toString_roundtrip:
  assumes "- 2147483648 \<le> i" and "i \<le> 2147483647"
  shows "str_toInt (int_toString i) = Some i"
  using assms by (intro str_toInt_int_toString) (simp_all add: INT_MAX_def)

theorem toInt_toString_roundtrip_witness: "str_toInt (int_toString (- 42)) = Some (- 42)"
  by (rule toInt_toString_roundtrip) simp_all

end
