(* ===== verification/CMap.thy ===== *)
theory CMap
  imports CString_Meaning
begin

text \<open>
  The containers of src/utils.c: the string-keyed map (a singly linked list of items with a
  30 byte key field) and the pointer list.  The linked structure is the list of its nodes in
  link order.  Operations that free values return the freed values as well, so that
  releasing a value twice or losing one can be stated.
\<close>

section \<open>The map\<close>

definition KEY_SIZE :: nat where "KEY_SIZE = 30"

record 'v Map =
  map_start :: "(string \<times> 'v) list"
  map_count :: int

definition map_init :: "'v Map" where
  "map_init = \<lparr>map_start = [], map_count = 0\<rparr>"

fun find_item :: "(string \<times> 'v) list \<Rightarrow> string \<Rightarrow> (string \<times> 'v) option" where
  "find_item [] key = None"
| "find_item (i # is) key = (if fst i = key then Some i else find_item is key)"

definition map_getItem :: "'v Map \<Rightarrow> string \<Rightarrow> (string \<times> 'v) option" where
  "map_getItem mp key = find_item (map_start mp) key"

text \<open>\<open>map_lastItem\<close> dereferences the head without a check.\<close>

definition map_lastItem :: "'v Map \<Rightarrow> (string \<times> 'v) option" where
  "map_lastItem mp = (if map_start mp = [] then None else Some (last (map_start mp)))"

fun set_value :: "(string \<times> 'v) list \<Rightarrow> string \<Rightarrow> 'v \<Rightarrow> (string \<times> 'v) list" where
  "set_value [] key v = []"
| "set_value (i # is) key v = (if fst i = key then (fst i, v) # is else i # set_value is key v)"

text \<open>
  A key that does not fit the item's key field is an overflow of the new node.  The second
  component of the result lists the values passed to \<open>free\<close>.  The counter of the source is an
  \<open>int\<close> that only grows; here it has no bound, so the model is that of the code for the first
  2147483647 insertions of new keys into one map.
\<close>

definition map_set :: "'v Map \<Rightarrow> string \<Rightarrow> 'v \<Rightarrow> bool \<Rightarrow> ('v Map \<times> 'v list) option" where
  "map_set mp key value freeItem =
     (case map_getItem mp key of
        Some prevItem \<Rightarrow>
          Some (mp\<lparr>map_start := set_value (map_start mp) key value\<rparr>,
                if freeItem then [snd prevItem] else [])
      | None \<Rightarrow>
          if length key < KEY_SIZE
          then Some (mp\<lparr>map_start := (key, value) # map_start mp,
                         map_count := (if map_count mp \<noteq> 0 then map_count mp + 1 else 1)\<rparr>, [])
          else None)"

definition map_get :: "'v Map \<Rightarrow> string \<Rightarrow> 'v option" where
  "map_get mp key = map_option snd (map_getItem mp key)"

fun unlink_item :: "(string \<times> 'v) list \<Rightarrow> string \<Rightarrow> (string \<times> 'v) list" where
  "unlink_item [] key = []"
| "unlink_item (i # is) key = (if fst i = key then is else i # unlink_item is key)"

text \<open>The item counter is not touched by a deletion.\<close>

definition map_del :: "'v Map \<Rightarrow> string \<Rightarrow> bool \<Rightarrow> bool \<times> 'v Map \<times> 'v list" where
  "map_del mp key freeItem =
     (case map_getItem mp key of
        None \<Rightarrow> (False, mp, [])
      | Some i \<Rightarrow> (True, mp\<lparr>map_start := unlink_item (map_start mp) key\<rparr>,
                   if freeItem then [snd i] else []))"

text \<open>
  The iterator: its static variable is the node last returned, given here as the list from
  that node on.  A non-null argument restarts it.
\<close>

definition map_forEach ::
  "'v Map option \<Rightarrow> (string \<times> 'v) list \<Rightarrow> (string \<times> 'v) option \<times> (string \<times> 'v) list" where
  "map_forEach mp item =
     (case mp of
        Some m \<Rightarrow> (case map_start m of [] \<Rightarrow> (None, []) | i # is \<Rightarrow> (Some i, i # is))
      | None \<Rightarrow> (case item of
                   [] \<Rightarrow> (None, [])
                 | _ # [] \<Rightarrow> (None, [])
                 | _ # j # js \<Rightarrow> (Some j, j # js)))"

definition map_cleanup :: "'v Map \<Rightarrow> bool \<Rightarrow> 'v Map \<times> 'v list" where
  "map_cleanup mp freeItem =
     (mp\<lparr>map_start := [], map_count := 0\<rparr>, if freeItem then List.map snd (map_start mp) else [])"

section \<open>The pointer list\<close>

record 'a clist =
  list_start :: "'a list"
  list_count :: int

definition list_init :: "'a clist" where
  "list_init = \<lparr>list_start = [], list_count = 0\<rparr>"

definition list_add :: "'a clist \<Rightarrow> 'a \<Rightarrow> 'a clist" where
  "list_add store data = store\<lparr>list_start := data # list_start store\<rparr>"

text \<open>
  The removal loop runs while the current node has a successor, so it never inspects the
  last node, and it dereferences a null head on an empty list.
\<close>

fun list_remove_loop :: "'a list \<Rightarrow> 'a \<Rightarrow> (bool \<times> 'a list) option" where
  "list_remove_loop [] data = None"
| "list_remove_loop [i] data = Some (False, [i])"
| "list_remove_loop (i # j # is) data =
     (if i = data then Some (True, j # is)
      else map_option (\<lambda>(r, rest). (r, i # rest)) (list_remove_loop (j # is) data))"

definition list_remove :: "'a clist \<Rightarrow> 'a \<Rightarrow> (bool \<times> 'a clist) option" where
  "list_remove store data =
     map_option (\<lambda>(r, l). (r, store\<lparr>list_start := l\<rparr>)) (list_remove_loop (list_start store) data)"

definition list_cleanup :: "'a clist \<Rightarrow> 'a list \<times> 'a clist" where
  "list_cleanup store = (list_start store, store)"

text \<open>
  The list iterator.  The outer option is the fault of restarting on an empty list, which
  reads the data of a null node.
\<close>

definition list_forEach :: "'a clist option \<Rightarrow> 'a list \<Rightarrow> ('a option \<times> 'a list) option" where
  "list_forEach store node =
     (case store of
        Some l \<Rightarrow> (case list_start l of [] \<Rightarrow> None | n # ns \<Rightarrow> Some (Some n, n # ns))
      | None \<Rightarrow> (case node of
                   [] \<Rightarrow> Some (None, [])
                 | _ # [] \<Rightarrow> Some (None, [])
                 | _ # m # ms \<Rightarrow> Some (Some m, m # ms)))"

section \<open>The map implements a finite map\<close>

definition map_inv :: "'v Map \<Rightarrow> bool" where
  "map_inv m \<longleftrightarrow> distinct (List.map fst (map_start m))
     \<and> list_all (\<lambda>k. length k < KEY_SIZE) (List.map fst (map_start m))
     \<and> int (length (map_start m)) \<le> map_count m"

lemma find_item_map_of: "find_item xs k = map_option (\<lambda>v. (k, v)) (map_of xs k)"
  by (induction xs) auto

lemma map_get_map_of: "map_get m k = map_of (map_start m) k"
  by (simp add: map_get_def map_getItem_def find_item_map_of option.map_comp comp_def option.map_ident)

lemma map_of_set_value:
  "map_of (set_value xs k v) k' = (if k' = k \<and> map_of xs k \<noteq> None then Some v else map_of xs k')"
  by (induction xs) auto

lemma keys_set_value [simp]: "List.map fst (set_value xs k v) = List.map fst xs"
  by (induction xs) auto

lemma map_of_unlink:
  "distinct (List.map fst xs) \<Longrightarrow> map_of (unlink_item xs k) = (map_of xs)(k := None)"
proof (induction xs)
  case Nil
  then show ?case by simp
next
  case (Cons i xs)
  then show ?case by (auto simp: fun_eq_iff map_of_eq_None_iff)
qed

lemma unlink_keys_subset: "set (List.map fst (unlink_item xs k)) \<subseteq> set (List.map fst xs)"
  by (induction xs) auto

lemma unlink_distinct: "distinct (List.map fst xs) \<Longrightarrow> distinct (List.map fst (unlink_item xs k))"
proof (induction xs)
  case (Cons i xs)
  then show ?case using unlink_keys_subset [of xs k] by auto
qed simp

lemma unlink_length: "length (unlink_item xs k) \<le> length xs"
  by (induction xs) auto

lemma map_inv_init [simp]: "map_inv map_init"
  by (simp add: map_inv_def map_init_def)

lemma map_set_spec:
  assumes "map_inv m" and "length k < KEY_SIZE"
  shows "\<exists>m' fr. map_set m k v f = Some (m', fr) \<and> map_inv m'
           \<and> map_get m' = (map_get m)(k \<mapsto> v)"
proof (cases "map_of (map_start m) k")
  case None
  then have "k \<notin> fst ` set (map_start m)" by (simp add: map_of_eq_None_iff)
  with assms None show ?thesis
    by (auto simp: map_set_def map_getItem_def find_item_map_of map_inv_def fun_eq_iff
        map_get_map_of)
next
  case (Some w)
  with assms show ?thesis
    by (auto simp: map_set_def map_getItem_def find_item_map_of map_inv_def fun_eq_iff
        map_get_map_of map_of_set_value dest: arg_cong [where f = length])
       (metis keys_set_value length_map)
qed

lemma map_set_SomeD:
  assumes "map_inv m" and "map_set m k v f = Some (m', fr)"
  shows "map_inv m' \<and> map_get m' = (map_get m)(k \<mapsto> v)"
proof -
  have "length k < KEY_SIZE"
  proof (cases "map_of (map_start m) k")
    case None
    with assms(2) show ?thesis
      by (auto simp: map_set_def map_getItem_def find_item_map_of split: if_splits)
  next
    case (Some w)
    then have "k \<in> set (List.map fst (map_start m))" by (force dest: map_of_SomeD)
    with assms(1) show ?thesis by (auto simp: map_inv_def list_all_iff)
  qed
  from map_set_spec [OF assms(1) this, of v f] assms(2) show ?thesis by auto
qed

lemma map_del_spec:
  assumes "map_inv m" and "map_del m k f = (r, m', fr)"
  shows "map_inv m' \<and> map_get m' = (map_get m)(k := None) \<and> r = (map_get m k \<noteq> None)"
proof (cases "map_of (map_start m) k")
  case None
  with assms show ?thesis
    by (auto simp: map_del_def map_getItem_def find_item_map_of map_get_map_of fun_eq_iff)
next
  case (Some w)
  have "list_all (\<lambda>k. length k < KEY_SIZE) (List.map fst (unlink_item (map_start m) k))"
    using assms(1) unlink_keys_subset [of "map_start m" k]
    unfolding map_inv_def list_all_iff by blast
  with assms Some unlink_length [of "map_start m" k] show ?thesis
    by (auto simp: map_del_def map_getItem_def find_item_map_of map_inv_def map_of_unlink
        map_get_map_of unlink_distinct fun_eq_iff)
qed

section \<open>The interface clients rely on\<close>

text \<open>
  A client of the map sees a partial \<open>put\<close> (it faults on a key that does not fit), a
  lookup and a deletion; the laws are those of a finite map.
\<close>

locale dictionary =
  fixes get :: "'m \<Rightarrow> string \<Rightarrow> 'v option"
    and put :: "'m \<Rightarrow> string \<Rightarrow> 'v \<Rightarrow> 'm option"
    and del :: "'m \<Rightarrow> string \<Rightarrow> 'm"
    and inv :: "'m \<Rightarrow> bool"
    and ok_key :: "string \<Rightarrow> bool"
  assumes put_total: "inv m \<Longrightarrow> ok_key k \<Longrightarrow> \<exists>m'. put m k v = Some m'"
    and put_inv: "inv m \<Longrightarrow> put m k v = Some m' \<Longrightarrow> inv m'"
    and get_put: "inv m \<Longrightarrow> put m k v = Some m' \<Longrightarrow> get m' = (get m)(k \<mapsto> v)"
    and del_inv: "inv m \<Longrightarrow> inv (del m k)"
    and get_del: "inv m \<Longrightarrow> get (del m k) = (get m)(k := None)"
begin

fun put_all :: "'m \<Rightarrow> (string \<times> 'v) list \<Rightarrow> 'm option" where
  "put_all m [] = Some m"
| "put_all m ((k, v) # kvs) = do { m' \<leftarrow> put m k v; put_all m' kvs }"

lemma put_all_get:
  "inv m \<Longrightarrow> put_all m kvs = Some m' \<Longrightarrow> inv m' \<and> get m' = get m ++ map_of (rev kvs)"
proof (induction kvs arbitrary: m)
  case Nil
  then show ?case by simp
next
  case (Cons kv kvs)
  obtain k v where kv: "kv = (k, v)" by (cases kv)
  with Cons.prems(2) obtain m1 where m1: "put m k v = Some m1" and r: "put_all m1 kvs = Some m'"
    by (auto simp: bind_eq_Some_conv)
  from Cons.IH [OF put_inv [OF Cons.prems(1) m1] r] get_put [OF Cons.prems(1) m1] kv
  show ?case by (auto simp: fun_eq_iff map_add_def split: option.splits)
qed

lemma put_all_total:
  "inv m \<Longrightarrow> list_all (\<lambda>(k, v). ok_key k) kvs \<Longrightarrow> \<exists>m'. put_all m kvs = Some m'"
proof (induction kvs arbitrary: m)
  case Nil
  then show ?case by simp
next
  case (Cons kv kvs)
  obtain k v where kv: "kv = (k, v)" by (cases kv)
  with Cons.prems put_total obtain m1 where m1: "put m k v = Some m1" by fastforce
  with Cons.IH [OF put_inv [OF Cons.prems(1) m1]] Cons.prems(2) kv show ?case by auto
qed

lemma del_put_absent:
  "inv m \<Longrightarrow> get m k = None \<Longrightarrow> put m k v = Some m' \<Longrightarrow> get (del m' k) = get m"
  using get_put [of m k v m'] get_del [OF put_inv, of m k v m' k] by (auto simp: fun_eq_iff)

end

definition map_put :: "bool \<Rightarrow> 'v Map \<Rightarrow> string \<Rightarrow> 'v \<Rightarrow> 'v Map option" where
  "map_put f m k v = map_option fst (map_set m k v f)"

definition map_remove :: "bool \<Rightarrow> 'v Map \<Rightarrow> string \<Rightarrow> 'v Map" where
  "map_remove f m k = fst (snd (map_del m k f))"

definition key_fits :: "string \<Rightarrow> bool" where
  "key_fits k \<longleftrightarrow> length k < KEY_SIZE"

interpretation cmap: dictionary map_get "map_put f" "map_remove f" map_inv key_fits
proof unfold_locales
  fix m :: "'a Map" and k :: string and v :: 'a and m'
  assume i: "map_inv m"
  show "\<exists>m'. map_put f m k v = Some m'" if "key_fits k"
    using map_set_spec [OF i, of k v f] that by (auto simp: map_put_def key_fits_def)
  show "map_inv m'" if "map_put f m k v = Some m'"
    using that map_set_SomeD [OF i, of k v f] by (auto simp: map_put_def)
  show "map_get m' = (map_get m)(k \<mapsto> v)" if "map_put f m k v = Some m'"
    using that map_set_SomeD [OF i, of k v f] by (auto simp: map_put_def)
  show "map_inv (map_remove f m k)"
    using map_del_spec [OF i, of k f] by (cases "map_del m k f") (simp add: map_remove_def)
  show "map_get (map_remove f m k) = (map_get m)(k := None)"
    using map_del_spec [OF i, of k f] by (cases "map_del m k f") (simp add: map_remove_def)
qed

section \<open>Properties\<close>

text \<open>
  (C2) The map is a finite map: on a well-formed map, setting a key that fits the key field
  never faults, keeps the map well formed and changes the lookup at that key only; a
  deletion removes the key and reports whether it was there.
\<close>

theorem map_is_finite_map:
  assumes "map_inv m" and "length k < 30"
  shows "(\<exists>m' fr. map_set m k v f = Some (m', fr) \<and> map_inv m' \<and> map_get m' = (map_get m)(k \<mapsto> v))
    \<and> (\<exists>m' fr. map_del m k f = (map_get m k \<noteq> None, m', fr) \<and> map_inv m'
          \<and> map_get m' = (map_get m)(k := None))"
proof -
  obtain r m' fr where "map_del m k f = (r, m', fr)" by (cases "map_del m k f")
  with map_del_spec [OF assms(1), of k f] map_set_spec [OF assms(1), of k v f] assms(2)
  show ?thesis by (auto simp: KEY_SIZE_def)
qed

lemma map_get_init [simp]: "map_get map_init = Map.empty"
  by (simp add: fun_eq_iff map_get_def map_getItem_def map_init_def)

theorem map_is_finite_map_witness:
  "\<exists>m' fr. map_set (map_init :: nat Map) ''salt'' 1 True = Some (m', fr) \<and> map_inv m'
     \<and> map_get m' = Map.empty(''salt'' \<mapsto> 1)"
  using map_is_finite_map [of map_init "''salt''" "1::nat" True]
  by simp

lemma list_remove_loop_butlast:
  "list_remove_loop (xs @ [z]) x = Some (x \<in> set xs, remove1 x xs @ [z])"
proof (induction xs)
  case (Cons a xs)
  obtain b bs where e: "xs @ [z] = b # bs" by (cases xs) auto
  with Cons show ?case by auto
qed simp

text \<open>
  (C32) \<open>list_remove\<close> never removes the last node of the list: it behaves as a removal of the
  first occurrence among the nodes before the last one, and faults on an empty list.
\<close>

theorem list_remove_spares_last:
  "list_remove l x = (if list_start l = [] then None
     else Some (x \<in> set (butlast (list_start l)),
                l\<lparr>list_start := remove1 x (butlast (list_start l)) @ [last (list_start l)]\<rparr>))"
proof (cases "list_start l = []")
  case True
  then show ?thesis by (simp add: list_remove_def)
next
  case False
  then obtain xs z where "list_start l = xs @ [z]" by (metis append_butlast_last_id)
  then show ?thesis by (simp add: list_remove_def list_remove_loop_butlast)
qed

end
