(* ===== verification/Utils_Tests.thy ===== *)
theory Utils_Tests
  imports CString_Meaning CMap
begin

text \<open>
  The test program of the utilities, test/utils.test.c, run on the model.  A test is the list of
  values it prints; what an array holds that the test does not initialise is a parameter.  The
  program has no assertions: a test passes when it prints only ones.
\<close>

section \<open>The tests\<close>

definition lit :: "string \<Rightarrow> char block" where
  "lit s = s @ [NUL]"

definition test_str_len :: "bool list option" where
  "test_str_len = do { res \<leftarrow> str_len (lit ''Hello''); Some [res = 5] }"

definition test_str_compare :: "bool list option" where
  "test_str_compare = do {
     let s1 = lit ''He-meow-12''; let s2 = lit ''Mefjsmeow-33'';
     res1 \<leftarrow> str_compare 4 s1 3 s2 5;
     res2 \<leftarrow> str_compare 6 s1 3 s2 5;
     Some [res1, res2 = False] }"

definition test_str_contains :: "bool list option" where
  "test_str_contains = do {
     let s1 = lit ''meow''; let s2 = lit ''Mefjsmeow-33'';
     res1 \<leftarrow> str_contains s2 (lit ''meow'');
     res2 \<leftarrow> str_contains s2 s1;
     Some [res1, res2] }"

definition test_str_findIndex :: "bool list option" where
  "test_str_findIndex = do { res1 \<leftarrow> str_findIndex (lit ''Mefjsmeow-33'') CHR ''j''; Some [res1 = 3] }"

definition test_str_substring :: "char block \<Rightarrow> char block \<Rightarrow> bool list option" where
  "test_str_substring res1 res2 = do {
     let s1 = lit ''Mefjsmeow-33'';
     res1 \<leftarrow> str_substring res1 s1 5 8;
     res2 \<leftarrow> str_substring res2 s1 4 (- 1);
     e1 \<leftarrow> str_isEqual res1 (lit ''meow'');
     e2 \<leftarrow> str_isEqual res2 (lit ''smeow-33'');
     Some [e1, e2] }"

definition test_str_set :: "char block \<Rightarrow> char block \<Rightarrow> bool list option" where
  "test_str_set res1 res2 = do {
     let s1 = lit ''cat'';
     res1 \<leftarrow> str_set res1 (lit ''meow'');
     res2 \<leftarrow> str_set res2 s1;
     s1 \<leftarrow> str_set s1 (lit ''mat'');
     e1 \<leftarrow> str_isEqual res1 (lit ''meow'');
     e2 \<leftarrow> str_isEqual res2 (lit ''cat'');
     e3 \<leftarrow> str_isEqual s1 (lit ''mat'');
     Some [e1, e2, e3] }"

definition test_str_isEqual :: "bool list option" where
  "test_str_isEqual = do {
     e1 \<leftarrow> str_isEqual (lit ''cat'') (lit ''cat'');
     e2 \<leftarrow> str_isEqual (lit ''meow'') (lit ''not meow'');
     Some [e1, e2 = False] }"

definition test_str_copy :: "char block \<Rightarrow> char block \<Rightarrow> bool list option" where
  "test_str_copy res1 res2 = do {
     let s1 = lit ''cat'';
     res1 \<leftarrow> str_copy res1 (lit ''meow'');
     res2 \<leftarrow> str_copy res2 s1;
     e1 \<leftarrow> str_isEqual res1 (lit ''meow'');
     e2 \<leftarrow> str_isEqual res2 (lit ''cat'');
     Some [e1, e2] }"

definition test_str_toLower :: "bool list option" where
  "test_str_toLower = do {
     s1 \<leftarrow> str_toLower (lit ''CAT'');
     s2 \<leftarrow> str_toLower (lit ''MeOw'');
     e1 \<leftarrow> str_isEqual s2 (lit ''meow'');
     e2 \<leftarrow> str_isEqual s1 (lit ''cat'');
     Some [e1, e2] }"

definition test_str_toUpper :: "bool list option" where
  "test_str_toUpper = do {
     s1 \<leftarrow> str_toUpper (lit ''ca T'');
     s2 \<leftarrow> str_toUpper (lit ''meOw'');
     e1 \<leftarrow> str_isEqual s2 (lit ''MEOW'');
     e2 \<leftarrow> str_isEqual s1 (lit ''CA T'');
     Some [e1, e2] }"

definition test_str_strip :: "bool list option" where
  "test_str_strip = do {
     s1 \<leftarrow> str_strip (lit '' Mello Cat '');
     s2 \<leftarrow> str_strip (lit ''  Chonkey katt'');
     e1 \<leftarrow> str_isEqual s2 (lit ''Chonkey katt'');
     e2 \<leftarrow> str_isEqual s1 (lit ''Mello Cat'');
     Some [e1, e2] }"

text \<open>An array initialised by a shorter string is filled up with zeros.\<close>

definition test_str_concat :: "bool list option" where
  "test_str_concat = do {
     let s1 = ''Habibi Cat is '' @ replicate 16 NUL; let s2 = ''Chonky'' @ replicate 24 NUL;
     s1 \<leftarrow> str_concat s1 s2;
     s2 \<leftarrow> str_concat s2 (lit '' kat'');
     e1 \<leftarrow> str_isEqual s1 (lit ''Habibi Cat is Chonky'');
     e2 \<leftarrow> str_isEqual s2 (lit ''Chonky kat'');
     Some [e1, e2] }"

text \<open>The tokens printed, with the number of calls that are enough as fuel.\<close>

fun split_loop :: "nat \<Rightarrow> string \<Rightarrow> string \<Rightarrow> string list option" where
  "split_loop 0 ds s = None"
| "split_loop (Suc k) ds s =
     (case str_split s ds of
        (None, s') \<Rightarrow> Some []
      | (Some tok, s') \<Rightarrow> map_option (\<lambda>ts. tok # ts) (split_loop k ds s'))"

definition test_str_split :: "string option" where
  "test_str_split = map_option (\<lambda>ts. ''str_split: '' @ concat (map (\<lambda>tok. '' '' @ tok @ '','') ts) @ [LF])
     (split_loop 20 '' '' ''Habibi Cat  Chonky'')"

text \<open>
  The map test prints the two values and then the items; the values are shown instead of the
  pointers to them.  The walk has the number of items as its fuel.
\<close>

fun walk_items :: "nat \<Rightarrow> (string \<times> int) option \<Rightarrow> (string \<times> int) list \<Rightarrow> string option" where
  "walk_items k None it = Some []"
| "walk_items 0 (Some i) it = None"
| "walk_items (Suc k) (Some i) it =
     (let (j, it') = map_forEach None it
      in map_option (\<lambda>out. ''key: '' @ fst i @ '', Val: '' @ int_toString (snd i) @ '' '' @ [LF] @ out) (walk_items k j it'))"

definition test_map :: "(string \<times> int list) option" where
  "test_map = do {
     (m, f1) \<leftarrow> map_set map_init ''m1'' 3 False;
     (m, f2) \<leftarrow> map_set m ''m2'' 5 False;
     (m, f3) \<leftarrow> map_set m ''m1'' 6 True;
     let r1 = map_get m ''m1''; let r2 = map_get m ''m2'';
     let (i, it) = map_forEach (Some m) [];
     out \<leftarrow> walk_items (length (map_start m)) i it;
     Some (''m1 val: '' @ int_toString (case r1 of Some v \<Rightarrow> v | None \<Rightarrow> - 1) @ '' '' @ [LF]
         @ ''m2 val: '' @ int_toString (case r2 of Some v \<Rightarrow> v | None \<Rightarrow> - 1) @ '' '' @ [LF] @ out, f1 @ f2 @ f3) }"

definition run_tests :: "char block \<Rightarrow> char block \<Rightarrow> bool list list option" where
  "run_tests res1 res2 = do {
     a \<leftarrow> test_str_len; b \<leftarrow> test_str_compare; c \<leftarrow> test_str_contains; d \<leftarrow> test_str_findIndex;
     e \<leftarrow> test_str_substring res1 res2; f \<leftarrow> test_str_set res1 res2; g \<leftarrow> test_str_isEqual; h \<leftarrow> test_str_copy res1 res2;
     i \<leftarrow> test_str_toLower; j \<leftarrow> test_str_toUpper; k \<leftarrow> test_str_strip; l \<leftarrow> test_str_concat;
     Some [a, b, c, d, e, f, g, h, i, j, k, l] }"

section \<open>They pass\<close>

lemma lit_holds: "NUL \<notin> set s \<Longrightarrow> holds (lit s) s"
  by (simp add: lit_def holdsI)

lemma isEqual_lit: "holds b s \<Longrightarrow> NUL \<notin> set t \<Longrightarrow> str_isEqual b (lit t) = Some (s = t)"
  by (simp add: str_isEqual_holds lit_holds)

lemma pass_len: "test_str_len = Some [True]"
  by (simp add: test_str_len_def str_len_holds [OF lit_holds])

lemma pass_compare: "test_str_compare = Some [True, True]"
  by (simp add: test_str_compare_def str_compare_def lit_def rd_def numeral_eq_Suc)

lemma pass_contains: "test_str_contains = Some [True, True]"
  by (simp add: test_str_contains_def str_contains_holds [OF lit_holds lit_holds] containsStr_def upt_rec)

lemma pass_findIndex: "test_str_findIndex = Some [True]"
  by (simp add: test_str_findIndex_def str_findIndex_def lit_def)

lemma pass_substring:
  assumes "length res1 = 20" and "length res2 = 20"
  shows "test_str_substring res1 res2 = Some [True, True]"
proof -
  have h: "holds (lit ''Mefjsmeow-33'') ''Mefjsmeow-33''" by (rule lit_holds) simp
  obtain r1 where "str_substring res1 (lit ''Mefjsmeow-33'') 5 8 = Some r1" "holds r1 ''meow''"
    using str_substring_holds [OF h, of 5 4 res1 8 False] assms by (auto simp: substring_def)
  moreover obtain r2 where "str_substring res2 (lit ''Mefjsmeow-33'') 4 (- 1) = Some r2" "holds r2 ''smeow-33''"
    using str_substring_holds [OF h, of 4 8 res2 "- 1" True] assms by (auto simp: substring_def)
  ultimately show ?thesis by (simp add: test_str_substring_def isEqual_lit)
qed

lemma set_lit:
  assumes "NUL \<notin> set s" and "length s < length dst"
  obtains d where "str_set dst (lit s) = Some d" and "holds d s"
  using str_set_holds [OF lit_holds [OF assms(1)] assms(2)] by blast

lemma pass_set:
  assumes "length res1 = 20" and "length res2 = 20"
  shows "test_str_set res1 res2 = Some [True, True, True]"
proof -
  obtain a where "str_set res1 (lit ''meow'') = Some a" "holds a ''meow''" using assms by (elim set_lit [rotated 2]) simp_all
  moreover obtain b where "str_set res2 (lit ''cat'') = Some b" "holds b ''cat''" using assms by (elim set_lit [rotated 2]) simp_all
  moreover obtain c where "str_set (lit ''cat'') (lit ''mat'') = Some c" "holds c ''mat''" by (rule set_lit [of "''mat''" "lit ''cat''"]) (simp_all add: lit_def)
  ultimately show ?thesis by (simp add: test_str_set_def isEqual_lit)
qed

lemma pass_isEqual: "test_str_isEqual = Some [True, True]"
  by (simp add: test_str_isEqual_def isEqual_lit [OF lit_holds])

lemma pass_copy:
  assumes "length res1 = 20" and "length res2 = 20"
  shows "test_str_copy res1 res2 = Some [True, True]"
proof -
  obtain a where "str_set res1 (lit ''meow'') = Some a" "holds a ''meow''" using assms by (elim set_lit [rotated 2]) simp_all
  moreover obtain b where "str_set res2 (lit ''cat'') = Some b" "holds b ''cat''" using assms by (elim set_lit [rotated 2]) simp_all
  ultimately show ?thesis by (simp add: test_str_copy_def str_copy_def isEqual_lit)
qed

lemma pass_case: "test_str_toLower = Some [True, True]" "test_str_toUpper = Some [True, True]"
  by (simp_all add: test_str_toLower_def test_str_toUpper_def str_toLower_def str_toUpper_def lit_def c_tolower_def c_toupper_def
      str_isEqual_def char_of_def bit_iff_odd)

lemma strip_lit:
  assumes "NUL \<notin> set s"
  obtains b where "str_strip (lit s) = Some b" and "holds b (strip s)"
  using str_strip_holds [OF lit_holds [OF assms]] by blast

lemma pass_strip: "test_str_strip = Some [True, True]"
proof -
  obtain a where "str_strip (lit '' Mello Cat '') = Some a" "holds a (strip '' Mello Cat '')"
    by (rule strip_lit [of "'' Mello Cat ''"]) simp
  moreover obtain b where "str_strip (lit ''  Chonkey katt'') = Some b" "holds b (strip ''  Chonkey katt'')"
    by (rule strip_lit [of "''  Chonkey katt''"]) simp
  ultimately show ?thesis by (simp add: test_str_strip_def isEqual_lit) (simp add: strip_def c_isspace_def)
qed

lemma filled_holds: "NUL \<notin> set s \<Longrightarrow> 0 < k \<Longrightarrow> holds (s @ replicate k NUL) s"
  by (cases k) (simp_all add: holdsI)

lemma pass_concat: "test_str_concat = Some [True, True]"
proof -
  let ?a = "''Habibi Cat is '' @ replicate 16 NUL" and ?b = "''Chonky'' @ replicate 24 NUL"
  have a: "holds ?a ''Habibi Cat is ''" and b: "holds ?b ''Chonky''" and c: "holds (lit '' kat'') '' kat''"
    by (rule filled_holds filled_holds lit_holds; simp)+
  obtain a' where a': "str_concat ?a ?b = Some a'" "holds a' (''Habibi Cat is '' @ ''Chonky'')"
    using str_concat_holds [OF a b] by auto
  obtain b' where b': "str_concat ?b (lit '' kat'') = Some b'" "holds b' (''Chonky'' @ '' kat'')"
    using str_concat_holds [OF b c] by auto
  show ?thesis
    unfolding test_str_concat_def Let_def a'(1) b'(1) Option.bind.simps
    by (simp add: isEqual_lit [OF a'(2)] isEqual_lit [OF b'(2)])
qed

text \<open>Every test of the program passes, whatever the two result arrays held before.\<close>

theorem tests_pass:
  assumes "length res1 = 20" and "length res2 = 20"
  shows "map_option (list_all (list_all (\<lambda>b. b))) (run_tests res1 res2) = Some True"
  by (simp add: run_tests_def pass_len pass_compare pass_contains pass_findIndex pass_substring [OF assms] pass_set [OF assms]
      pass_isEqual pass_copy [OF assms] pass_case pass_strip pass_concat)

theorem tests_pass_witness: "map_option (list_all (list_all (\<lambda>b. b))) (run_tests (replicate 20 CHR ''x'') (replicate 20 NUL)) = Some True"
  by (rule tests_pass) simp_all

lemma split_prints: "test_str_split = Some (''str_split:  Habibi, Cat, Chonky,'' @ [LF])"
  by (simp add: test_str_split_def str_split_def strtok_def numeral_eq_Suc)

lemma map_prints:
  "test_map = Some (''m1 val: 6 '' @ [LF] @ ''m2 val: 5 '' @ [LF] @ ''key: m2, Val: 5 '' @ [LF] @ ''key: m1, Val: 6 '' @ [LF], [3])"
  by (simp add: test_map_def map_set_def map_get_def map_getItem_def map_init_def map_forEach_def KEY_SIZE_def
      int_toString_def show_nat.simps char_of_def bit_iff_odd)

end
