(* ===== verification/Config_File.thy ===== *)
theory Config_File
  imports CMap
begin

text \<open>
  The configuration file reader: \<open>readConfigFile\<close> of src/utils.c and \<open>configFileToMap\<close> of
  src/store.c.  The file system is a parameter that gives the text of a path; an open
  stream is its whole text with what is left to read.  Strings are at the level of
  \<open>CString_Meaning\<close>; the caller's fixed arrays appear as capacities, and copying a token that
  does not fit, or a null token, is a fault.
\<close>

type_synonym files = "string \<Rightarrow> string option"
type_synonym stream = "string \<times> string"

section \<open>Lines\<close>

text \<open>\<open>getdelim\<close> with a newline: the line with its newline, and what follows.\<close>

definition getline :: "string \<Rightarrow> (string \<times> string) option" where
  "getline s =
     (if s = [] then None
      else let l = takeWhile (\<lambda>c. c \<noteq> LF) s; r = dropWhile (\<lambda>c. c \<noteq> LF) s
           in case r of [] \<Rightarrow> Some (l, []) | _ # r' \<Rightarrow> Some (l @ [LF], r'))"

lemma getline_shorter: "getline s = Some (l, r) \<Longrightarrow> length r < length s"
proof -
  assume a: "getline s = Some (l, r)"
  have "length (dropWhile (\<lambda>c. c \<noteq> LF) s) \<le> length s" by (rule length_dropWhile_le)
  with a show ?thesis by (auto simp: getline_def Let_def split: if_splits list.splits)
qed

function skip_to_section :: "string \<Rightarrow> string \<Rightarrow> string" where
  "skip_to_section sec s =
     (case getline s of
        None \<Rightarrow> []
      | Some (l, r) \<Rightarrow>
          if removeChars l [TAB, LF] = ''['' @ sec @ '']'' then r else skip_to_section sec r)"
  by pat_completeness auto
termination
  by (relation "measure (\<lambda>(sec, s). length s)") (auto dest: getline_shorter)

datatype config_line = Section_start | Ignored | Entry string string

text \<open>
  One line of the file: the last character is cut off (it is taken to be the newline), tabs
  and newlines are removed, and key and value are the first two tokens around \<open>=\<close>.
\<close>

definition unquote :: "string \<Rightarrow> string" where
  "unquote v = (if take 1 v = ''\"'' then removeChars v ''\"'' else v)"

definition parse_line :: "nat \<Rightarrow> nat \<Rightarrow> string \<Rightarrow> config_line option" where
  "parse_line kcap vcap l =
     (if startsWith l ''['' then Some Section_start
      else if startsWith l ''#'' then Some Ignored
      else
        let t = removeChars (butlast l) [TAB, LF]
        in if containsStr t ''=''
           then (let (lKey, rest) = str_split t ''=''; (lValue, _) = str_split rest ''=''
                 in do {
                   k \<leftarrow> lKey;
                   v \<leftarrow> lValue;
                   if length k < kcap \<and> length v < vcap
                   then Some (Entry (strip k) (unquote (strip v)))
                   else None })
           else Some Ignored)"

text \<open>Reading on to the next entry: ignored lines make the routine call itself again.\<close>

function read_entry :: "nat \<Rightarrow> nat \<Rightarrow> string \<Rightarrow> ((string \<times> string) option \<times> string) option" where
  "read_entry kcap vcap s =
     (case getline s of
        None \<Rightarrow> Some (None, [])
      | Some (l, r) \<Rightarrow>
          (case parse_line kcap vcap l of
             None \<Rightarrow> None
           | Some Section_start \<Rightarrow> Some (None, [])
           | Some Ignored \<Rightarrow> read_entry kcap vcap r
           | Some (Entry k v) \<Rightarrow> Some (Some (k, v), r)))"
  by pat_completeness auto
termination
  by (relation "measure (\<lambda>(k, v, s). length s)") (auto dest: getline_shorter)

declare skip_to_section.simps [simp del] read_entry.simps [simp del]

lemma read_entry_shorter:
  "read_entry kcap vcap s = Some (Some kv, r) \<Longrightarrow> length r < length s"
proof (induction kcap vcap s rule: read_entry.induct)
  case (1 kcap vcap s)
  from 1(2) obtain l t where g: "getline s = Some (l, t)"
    by (auto simp: read_entry.simps [of kcap vcap s] split: option.splits)
  then have "length t < length s" by (rule getline_shorter)
  moreover have "length r < length t" if "parse_line kcap vcap l = Some Ignored" "read_entry kcap vcap t = Some (Some kv, r)"
    using 1(1) [OF g refl that(1) refl that(2)] .
  ultimately show ?case using 1(2) g
    by (auto simp: read_entry.simps [of kcap vcap s] split: option.splits config_line.splits)
qed

section \<open>The routine with its static stream\<close>

text \<open>
  The static stream is \<open>fp\<close>.  A path opens the file anew; a null path continues, and faults
  when no stream is open.  The result is the entry, if there is one, and the new stream.
\<close>

definition readConfigFile ::
  "files \<Rightarrow> nat \<Rightarrow> nat \<Rightarrow> string option \<Rightarrow> string option \<Rightarrow> stream option
   \<Rightarrow> ((string \<times> string) option \<times> stream option) option" where
  "readConfigFile files kcap vcap filePath section fp =
     (case (filePath, fp) of
        (None, None) \<Rightarrow> None
      | _ \<Rightarrow>
        (let fp1 = (case filePath of Some p \<Rightarrow> map_option (\<lambda>t. (t, t)) (files p) | None \<Rightarrow> fp)
         in case fp1 of
              None \<Rightarrow> Some (None, None)
            | Some (whole, rest) \<Rightarrow>
                (let rest1 = (case section of
                                None \<Rightarrow> rest
                              | Some sec \<Rightarrow> if sec = [] then whole else skip_to_section sec whole)
                 in case read_entry kcap vcap rest1 of
                      None \<Rightarrow> None
                    | Some (None, _) \<Rightarrow> Some (None, None)
                    | Some (Some kv, r) \<Rightarrow> Some (Some kv, Some (whole, r)))))"

text \<open>
  The loop of \<open>configFileToMap\<close>.  \<open>store\<close> says where an entry goes: nowhere, or under which
  key; the measure is the text left in the stream.
\<close>

definition entry_measure :: "(string \<times> string) option \<times> stream option \<Rightarrow> nat" where
  "entry_measure r = (case r of (Some _, Some (w, s)) \<Rightarrow> Suc (Suc (length s)) | (Some _, None) \<Rightarrow> 1 | _ \<Rightarrow> 0)"

lemma readConfigFile_continue_shorter:
  assumes "readConfigFile files kcap vcap None None fp = Some r"
  shows "entry_measure r < entry_measure (Some kv, fp)"
  using assms
  by (auto simp: readConfigFile_def entry_measure_def split: option.splits dest!: read_entry_shorter)

function config_loop ::
  "files \<Rightarrow> (string \<Rightarrow> string option) \<Rightarrow> string Map \<Rightarrow> (string \<times> string) option \<times> stream option \<Rightarrow> string Map option" where
  "config_loop files keyOf m r =
     (case r of
        (None, _) \<Rightarrow> Some m
      | (Some (k, v), fp) \<Rightarrow> do {
          m' \<leftarrow> (case keyOf k of Some k' \<Rightarrow> map_put True m k' v | None \<Rightarrow> Some m);
          r' \<leftarrow> readConfigFile files 50 200 None None fp;
          config_loop files keyOf m' r' })"
  by pat_completeness auto
termination
  by (relation "measure (\<lambda>(files, keyOf, m, r). entry_measure r)")
    (auto dest: readConfigFile_continue_shorter)

declare config_loop.simps [simp del]

section \<open>Reading a file is a fold over its entries\<close>

function read_all :: "nat \<Rightarrow> nat \<Rightarrow> string \<Rightarrow> (string \<times> string) list option" where
  "read_all kcap vcap s =
     (case read_entry kcap vcap s of
        None \<Rightarrow> None
      | Some (None, _) \<Rightarrow> Some []
      | Some (Some kv, r) \<Rightarrow> map_option (\<lambda>kvs. kv # kvs) (read_all kcap vcap r))"
  by pat_completeness auto
termination
  by (relation "measure (\<lambda>(k, v, s). length s)") (auto dest: read_entry_shorter)

declare read_all.simps [simp del]

text \<open>The entries that are stored, under the key they are stored with.\<close>

definition stored_entries :: "(string \<Rightarrow> string option) \<Rightarrow> (string \<times> string) list \<Rightarrow> (string \<times> string) list" where
  "stored_entries keyOf kvs =
     List.map_filter (\<lambda>(k, v). map_option (\<lambda>k'. (k', v)) (keyOf k)) kvs"

lemma config_loop_put_all:
  assumes "config_loop files keyOf m (Some (k, v), Some (w, s)) = Some m'"
  shows "\<exists>kvs. read_all 50 200 s = Some kvs \<and> cmap.put_all True m (stored_entries keyOf ((k, v) # kvs)) = Some m'"
  using assms
proof (induction s arbitrary: m k v rule: length_induct)
  case (1 s)
  from 1(2) obtain m1 r where m1: "(case keyOf k of Some k' \<Rightarrow> map_put True m k' v | None \<Rightarrow> Some m) = Some m1"
    and r: "readConfigFile files 50 200 None None (Some (w, s)) = Some r"
    and l: "config_loop files keyOf m1 r = Some m'"
    by (auto simp: config_loop.simps [of files keyOf m] bind_eq_Some_conv)
  have first: "cmap.put_all True m (stored_entries keyOf ((k, v) # kvs)) = cmap.put_all True m1 (stored_entries keyOf kvs)" for kvs
    using m1 by (auto simp: stored_entries_def map_filter_simps split: option.splits)
  show ?case
  proof (cases "fst r")
    case None
    with r have "read_all 50 200 s = Some []"
      by (auto simp: readConfigFile_def read_all.simps [of 50 200 s] split: option.splits)
    moreover from None l have "m' = m1" by (cases r) (simp add: config_loop.simps [of files keyOf m1])
    ultimately show ?thesis using first by (simp add: stored_entries_def map_filter_simps)
  next
    case (Some kv)
    with r obtain s' where e: "read_entry 50 200 s = Some (Some kv, s')" and r': "r = (Some kv, Some (w, s'))"
      by (auto simp: readConfigFile_def split: option.splits)
    have "length s' < length s" using e by (rule read_entry_shorter)
    with 1(1) l r' obtain kvs where "read_all 50 200 s' = Some kvs"
      "cmap.put_all True m1 (stored_entries keyOf (kv # kvs)) = Some m'" by (cases kv) blast
    moreover from this e have "read_all 50 200 s = Some (kv # kvs)" by (simp add: read_all.simps [of 50 200 s])
    ultimately show ?thesis using first [of "kv # kvs"] by (intro exI [of _ "kv # kvs"]) simp
  qed
qed

section \<open>Writing and reading back\<close>

definition config_render :: "(string \<times> string) list \<Rightarrow> string" where
  "config_render kvs = concat (map (\<lambda>(k, v). k @ '' = '' @ v @ [LF]) kvs)"

definition clean_field :: "string \<Rightarrow> bool" where
  "clean_field s \<longleftrightarrow> s \<noteq> [] \<and> \<not> c_isspace (hd s) \<and> \<not> c_isspace (last s)
     \<and> list_all (\<lambda>c. c \<notin> {CHR ''='', TAB, LF}) s"

definition clean_entry :: "string \<times> string \<Rightarrow> bool" where
  "clean_entry kv \<longleftrightarrow> clean_field (fst kv) \<and> clean_field (snd kv) \<and> length (fst kv) < 49 \<and> length (snd kv) < 199
     \<and> hd (fst kv) \<notin> {CHR ''['', CHR ''#''} \<and> hd (snd kv) \<noteq> CHR 0x22"

lemma strip_padded:
  assumes "clean_field s"
  shows "strip (s @ '' '') = s" and "strip ('' '' @ s) = s"
proof -
  have sp: "c_isspace CHR '' ''" by (simp add: c_isspace_def)
  from assms obtain a as where a: "s = a # as" "\<not> c_isspace a" by (cases s) (auto simp: clean_field_def)
  from assms obtain bs b where b: "s = bs @ [b]" "\<not> c_isspace b"
    by (cases s rule: rev_cases) (auto simp: clean_field_def)
  have d: "dropWhile c_isspace s = s" "dropWhile c_isspace (s @ '' '') = s @ '' ''" using a by simp_all
  have r: "dropWhile c_isspace (rev s) = rev s" using b by simp
  show "strip (s @ '' '') = s" unfolding strip_def d using r sp by simp
  show "strip ('' '' @ s) = s" using d r sp by (simp add: strip_def)
qed

lemma clean_filter: "clean_field s \<Longrightarrow> removeChars s [TAB, LF] = s"
  by (auto simp: clean_field_def removeChars_def list_all_iff intro!: filter_True)

lemma parse_line_render:
  assumes "clean_entry (k, v)"
  shows "parse_line 50 200 (k @ '' = '' @ v @ [LF]) = Some (Entry k v)"
proof -
  from assms have k: "clean_field k" and v: "clean_field v" and lk: "length k < 49" and lv: "length v < 199"
    and hk: "hd k \<notin> {CHR ''['', CHR ''#''}" and hv: "hd v \<noteq> CHR 0x22" by (auto simp: clean_entry_def)
  have eq: "CHR ''='' \<notin> set k" "CHR ''='' \<notin> set v" using k v by (auto simp: clean_field_def list_all_iff)
  obtain a as where a: "k = a # as" "a \<noteq> CHR ''=''" using k eq by (cases k) (auto simp: clean_field_def)
  let ?t = "k @ '' = '' @ v"
  have t: "removeChars (butlast (?t @ [LF])) [TAB, LF] = ?t"
    unfolding butlast_snoc using clean_filter [OF k] clean_filter [OF v] by (simp add: removeChars_def)
  have s1: "str_split ?t ''='' = (Some (k @ '' ''), '' '' @ v)"
  proof -
    have e: "takeWhile (\<lambda>c. c \<notin> set ''='') ?t = k @ '' ''" "dropWhile (\<lambda>c. c \<notin> set ''='') ?t = ''= '' @ v"
      using eq(1) by (simp_all add: takeWhile_append dropWhile_append)
    show ?thesis using a e by (simp add: str_split_def strtok_def Let_def)
  qed
  have s2: "str_split ('' '' @ v) ''='' = (Some ('' '' @ v), [])"
  proof -
    have d: "dropWhile (\<lambda>c. c \<notin> set ''='') ('' '' @ v) = []" "takeWhile (\<lambda>c. c \<notin> set ''='') ('' '' @ v) = '' '' @ v"
      using eq(2) by (auto simp: takeWhile_eq_all_conv dropWhile_eq_Nil_conv)
    have "dropWhile (\<lambda>c. c \<in> set ''='') ('' '' @ v) = '' '' @ v" by simp
    then show ?thesis by (simp only: str_split_def strtok_def Let_def d) simp
  qed
  have c: "containsStr ?t ''=''" by (simp add: containsStr_single)
  have b: "\<not> startsWith (?t @ [LF]) ''[''" "\<not> startsWith (?t @ [LF]) ''#''"
    using hk a by (auto simp: startsWith_def)
  have u: "unquote v = v" using hv v by (cases v) (auto simp: unquote_def clean_field_def)
  show ?thesis
    using b t c s1 s2 lk lv strip_padded(1) [OF k] strip_padded(2) [OF v] u
    by (simp only: parse_line_def Let_def append_assoc if_False if_True prod.case bind.bind_lunit length_append)
      simp
qed

lemma getline_render:
  assumes "LF \<notin> set l"
  shows "getline (l @ LF # r) = Some (l @ [LF], r)"
proof -
  have "takeWhile (\<lambda>c. c \<noteq> LF) (l @ LF # r) = l" "dropWhile (\<lambda>c. c \<noteq> LF) (l @ LF # r) = LF # r"
    using assms by (induction l) auto
  then show ?thesis by (simp add: getline_def)
qed

lemma read_entry_entry:
  "getline s = Some (l, r) \<Longrightarrow> parse_line kc vc l = Some (Entry k v) \<Longrightarrow> read_entry kc vc s = Some (Some (k, v), r)"
  by (subst read_entry.simps) simp

lemma read_all_entry:
  "read_entry kc vc s = Some (Some kv, r) \<Longrightarrow> read_all kc vc s = map_option (\<lambda>kvs. kv # kvs) (read_all kc vc r)"
  by (subst read_all.simps) simp

lemma read_all_first:
  "read_all kc vc s = Some kvs \<Longrightarrow> \<exists>r. read_entry kc vc s = Some (case kvs of [] \<Rightarrow> None | kv # _ \<Rightarrow> Some kv, r)"
  by (subst (asm) read_all.simps) (auto split: option.splits)

lemma read_all_Nil: "read_all kc vc [] = Some []"
  by (subst read_all.simps, subst read_entry.simps) (simp add: getline_def)

lemma read_all_render: "list_all clean_entry kvs \<Longrightarrow> read_all 50 200 (config_render kvs) = Some kvs"
proof (induction kvs)
  case Nil
  then show ?case by (simp add: config_render_def read_all_Nil)
next
  case (Cons kv kvs)
  obtain k v where kv: "kv = (k, v)" by (cases kv)
  let ?l = "k @ '' = '' @ v"
  have ce: "clean_entry (k, v)" using Cons.prems kv by simp
  then have "LF \<notin> set ?l" by (auto simp: clean_entry_def clean_field_def list_all_iff)
  from getline_render [OF this, of "config_render kvs"]
  have g: "getline (config_render (kv # kvs)) = Some (k @ '' = '' @ v @ [LF], config_render kvs)"
    by (simp add: config_render_def kv)
  from read_all_entry [OF read_entry_entry [OF g parse_line_render [OF ce]]] Cons kv show ?case
    by simp
qed

section \<open>Properties\<close>

text \<open>
  (C37) A configuration file written as lines \<open>key = value\<close> is read back exactly: the reader
  returns every entry in order, for keys and values without surrounding white space,
  equals signs, tabs or newlines that fit the caller's arrays.
\<close>

theorem config_file_roundtrip:
  assumes "list_all clean_entry kvs" and "files path = Some (config_render kvs)"
  shows "read_all 50 200 (config_render kvs) = Some kvs
    \<and> (\<exists>fp. readConfigFile files 50 200 (Some path) None None =
         Some (case kvs of [] \<Rightarrow> None | kv # _ \<Rightarrow> Some kv, fp))"
proof -
  note r = read_all_render [OF assms(1)]
  from read_all_first [OF r] assms(2)
  have "\<exists>fp. readConfigFile files 50 200 (Some path) None None = Some (case kvs of [] \<Rightarrow> None | kv # _ \<Rightarrow> Some kv, fp)"
    by (cases kvs) (auto simp: readConfigFile_def)
  with r show ?thesis by blast
qed

theorem config_file_roundtrip_witness:
  "read_all 50 200 (''Port = 6969'' @ [LF] @ ''Use Mdns = true'' @ [LF]) = Some [(''Port'', ''6969''), (''Use Mdns'', ''true'')]"
  using config_file_roundtrip [of "[(''Port'', ''6969''), (''Use Mdns'', ''true'')]"
      "\<lambda>p. Some (config_render [(''Port'', ''6969''), (''Use Mdns'', ''true'')])" "[]"]
  by (simp add: config_render_def clean_entry_def clean_field_def c_isspace_def)

text \<open>
  The reader cuts off the last character of every line without looking at it: an
  entry on a last line without a newline loses the last character of its value.
\<close>

theorem last_line_truncated:
  assumes "clean_entry (k, v @ [c])" and "clean_field v"
  shows "read_all 50 200 (k @ '' = '' @ v @ [c]) = Some [(k, v)]"
proof -
  have e: "clean_entry (k, v)" using assms by (cases v) (auto simp: clean_entry_def clean_field_def)
  have nl: "LF \<notin> set (k @ '' = '' @ v @ [c])" using assms(1) by (auto simp: clean_entry_def clean_field_def list_all_iff)
  then have "takeWhile (\<lambda>x. x \<noteq> LF) (k @ '' = '' @ v @ [c]) = k @ '' = '' @ v @ [c]"
    "dropWhile (\<lambda>x. x \<noteq> LF) (k @ '' = '' @ v @ [c]) = []"
    by (auto simp: takeWhile_eq_all_conv dropWhile_eq_Nil_conv)
  then have g: "getline (k @ '' = '' @ v @ [c]) = Some (k @ '' = '' @ v @ [c], [])"
    by (simp add: getline_def)
  have b: "butlast (k @ '' = '' @ v @ [c]) = butlast (k @ '' = '' @ v @ [LF])"
    using butlast_snoc [of "k @ '' = '' @ v"] by simp
  have h: "startsWith (k @ '' = '' @ v @ [c]) [x] = startsWith (k @ '' = '' @ v @ [LF]) [x]" for x
    by (cases k) (simp_all add: startsWith_def)
  have "parse_line 50 200 (k @ '' = '' @ v @ [c]) = parse_line 50 200 (k @ '' = '' @ v @ [LF])"
    unfolding parse_line_def b h ..
  with parse_line_render [OF e] have "parse_line 50 200 (k @ '' = '' @ v @ [c]) = Some (Entry k v)" by (simp only:)
  from read_all_entry [OF read_entry_entry [OF g this]] show ?thesis by (simp add: read_all_Nil)
qed

theorem last_line_truncated_witness: "read_all 50 200 ''Port = 6969'' = Some [(''Port'', ''696'')]"
  using last_line_truncated [of "''Port''" "''696''" "CHR ''9''"]
  by (simp add: clean_entry_def clean_field_def c_isspace_def)


end
