(* ===== verification/Ring_Buffer.thy ===== *)
theory Ring_Buffer
  imports CString_Meaning
begin

text \<open>
  The \<open>Buffer\<close> of src/utils.c, used as the write buffer of a socket.  The operations are
  translated with the index arithmetic of the source on C ints, which here may become
  negative.  The ring view gives the bytes a reader sees: \<open>size\<close> cells from the start index
  on, wrapping at the capacity.
\<close>

section \<open>Operations\<close>

record Buffer =
  buf_data :: "char block"
  buf_size :: int
  buf_capacity :: int
  buf_startIndex :: int

definition DEFAULT_BUFFER_SIZE :: int where "DEFAULT_BUFFER_SIZE = 1024"

text \<open>Fresh memory from \<open>malloc\<close> has arbitrary contents, supplied by \<open>fill\<close>.\<close>

definition buffer_init :: "char \<Rightarrow> int \<Rightarrow> Buffer" where
  "buffer_init fill capacity =
     (let c = (if capacity \<le> 0 then DEFAULT_BUFFER_SIZE else capacity) in
      \<lparr>buf_data = replicate (nat c) fill, buf_size = 0, buf_capacity = c, buf_startIndex = 0\<rparr>)"

definition buffer_cleanup :: "Buffer \<Rightarrow> Buffer" where
  "buffer_cleanup b = b\<lparr>buf_data := [], buf_size := 0, buf_capacity := 0, buf_startIndex := 0\<rparr>"

definition buffer_getFreeSpace :: "Buffer \<Rightarrow> int" where
  "buffer_getFreeSpace b = buf_capacity b - buf_size b"

definition ring_next :: "int \<Rightarrow> int \<Rightarrow> int" where
  "ring_next cap ind = (if ind + 1 \<ge> cap then 0 else ind + 1)"

fun buffer_write_loop ::
  "nat \<Rightarrow> char block \<Rightarrow> int \<Rightarrow> int \<Rightarrow> char block \<Rightarrow> int \<Rightarrow> char block option" where
  "buffer_write_loop 0 dst cap ind data i = Some dst"
| "buffer_write_loop (Suc n) dst cap ind data i = do {
     c \<leftarrow> rd data i;
     dst' \<leftarrow> wr dst ind c;
     buffer_write_loop n dst' cap (ring_next cap ind) data (i + 1) }"

text \<open>The bytes are stored from the start index on, also when the buffer is not empty.\<close>

definition buffer_write :: "Buffer \<Rightarrow> char block \<Rightarrow> int \<Rightarrow> (int \<times> Buffer) option" where
  "buffer_write b data sz =
     (let freeSpace = buffer_getFreeSpace b;
          n = (if freeSpace < sz then freeSpace else sz)
      in do {
        dst \<leftarrow> buffer_write_loop (nat n) (buf_data b) (buf_capacity b) (buf_startIndex b) data 0;
        Some (n, b\<lparr>buf_data := dst, buf_size := buf_size b + n\<rparr>) })"

definition buffer_clear :: "Buffer \<Rightarrow> int \<Rightarrow> int \<times> Buffer" where
  "buffer_clear b n' =
     (let n = (if n' > buf_size b then buf_size b else n');
          s = buf_startIndex b + n
      in (n, b\<lparr>buf_size := buf_size b - n,
               buf_startIndex := (if s \<ge> buf_capacity b then buf_capacity b - s else s)\<rparr>))"

fun buffer_read_loop :: "nat \<Rightarrow> char block \<Rightarrow> int \<Rightarrow> int \<Rightarrow> char block \<Rightarrow> int \<Rightarrow> char block option" where
  "buffer_read_loop 0 src cap ind data i = Some data"
| "buffer_read_loop (Suc n) src cap ind data i = do {
     c \<leftarrow> rd src ind;
     data' \<leftarrow> wr data i c;
     buffer_read_loop n src cap (ring_next cap ind) data' (i + 1) }"

text \<open>The result is the number read, the caller's array and the buffer.\<close>

definition buffer_read :: "Buffer \<Rightarrow> char block \<Rightarrow> int \<Rightarrow> (int \<times> char block \<times> Buffer) option" where
  "buffer_read b data sz =
     (if buf_size b = 0 \<or> sz = 0 then Some (0, data, b)
      else
        (let n = (if buf_size b < sz then buf_size b else sz) in do {
           data' \<leftarrow> buffer_read_loop (nat n) (buf_data b) (buf_capacity b) (buf_startIndex b) data 0;
           (let (r, b') = buffer_clear b n in Some (r, data', b')) }))"

text \<open>
  \<open>buffer_readChar\<close> keeps the position in a static variable; a non-null argument restarts
  it at the start index.  The result is the position the returned pointer addresses (none
  for a null pointer) and the new static position.
\<close>

definition buffer_readChar :: "Buffer \<Rightarrow> bool \<Rightarrow> int \<Rightarrow> int option \<times> int" where
  "buffer_readChar b restart ind0 =
     (let ind = (if restart then buf_startIndex b else ind0);
          ind' = ring_next (buf_capacity b) ind
      in if \<not> restart \<and> ind' = buf_startIndex b then (None, ind') else (Some ind, ind'))"

definition buffer_isEmpty :: "Buffer \<Rightarrow> bool" where
  "buffer_isEmpty b \<longleftrightarrow> buf_size b = 0"

section \<open>The ring view\<close>

definition buf_ok :: "Buffer \<Rightarrow> bool" where
  "buf_ok b \<longleftrightarrow> int (length (buf_data b)) = buf_capacity b
     \<and> 0 \<le> buf_startIndex b \<and> buf_startIndex b < buf_capacity b
     \<and> 0 \<le> buf_size b \<and> buf_size b \<le> buf_capacity b"

definition ring_slice :: "'a list \<Rightarrow> nat \<Rightarrow> nat \<Rightarrow> 'a list" where
  "ring_slice d s n = map (\<lambda>k. d ! ((s + k) mod length d)) [0..<n]"

definition buf_contents :: "Buffer \<Rightarrow> string" where
  "buf_contents b = ring_slice (buf_data b) (nat (buf_startIndex b)) (nat (buf_size b))"

lemma ring_next_nat: "ind < cap \<Longrightarrow> ring_next (int cap) (int ind) = int (Suc ind mod cap)"
  by (auto simp: ring_next_def mod_Suc)

lemma ring_shift: "(Suc ind mod cap + k) mod cap = (ind + Suc k) mod cap"
  by (simp add: mod_add_left_eq)

lemma ring_index_neq: "0 < k \<Longrightarrow> k < cap \<Longrightarrow> ind < cap \<Longrightarrow> (ind + k) mod cap \<noteq> (ind :: nat)"
  by (cases "ind + k < cap") (auto simp: le_mod_geq)

lemma ring_slice_length [simp]: "length (ring_slice d s n) = n"
  by (simp add: ring_slice_def)

lemma ring_slice_nth: "k < n \<Longrightarrow> ring_slice d s n ! k = d ! ((s + k) mod length d)"
  by (simp add: ring_slice_def)

lemma ring_slice_Suc:
  "length d = cap \<Longrightarrow> ind < cap \<Longrightarrow>
   ring_slice d ind (Suc n) = d ! ind # ring_slice d (Suc ind mod cap) n"
  by (rule nth_equalityI) (auto simp: ring_slice_nth nth_Cons mod_add_left_eq split: nat.splits)

lemma write_loop_ring:
  assumes "length dst = cap" and "ind < cap" and "n \<le> cap" and "i + n \<le> length data"
  shows "\<exists>dst'. buffer_write_loop n dst (int cap) (int ind) data (int i) = Some dst'
      \<and> length dst' = cap
      \<and> (\<forall>k < n. dst' ! ((ind + k) mod cap) = data ! (i + k))
      \<and> (\<forall>k. n \<le> k \<and> k < cap \<longrightarrow> dst' ! ((ind + k) mod cap) = dst ! ((ind + k) mod cap))"
  using assms
proof (induction n arbitrary: dst ind i)
  case 0
  then show ?case by simp
next
  case (Suc n)
  let ?d = "dst[ind := data ! i]" and ?j = "Suc ind mod cap"
  obtain dst' where w: "buffer_write_loop n ?d (int cap) (int ?j) data (int (Suc i)) = Some dst'"
    and l: "length dst' = cap"
    and new: "\<And>k. k < n \<Longrightarrow> dst' ! ((ind + Suc k) mod cap) = data ! (Suc i + k)"
    and old: "\<And>k. n \<le> k \<and> k < cap \<Longrightarrow> dst' ! ((ind + Suc k) mod cap) = ?d ! ((ind + Suc k) mod cap)"
    using Suc.IH [of ?d ?j "Suc i"] Suc.prems unfolding ring_shift by auto
  have zero: "dst' ! ind = data ! i"
    using old [of "cap - 1"] Suc.prems by simp
  have "dst' ! ((ind + k) mod cap) = data ! (i + k)" if "k < Suc n" for k
    using that zero new [of "k - 1"] Suc.prems by (cases k) auto
  moreover have "dst' ! ((ind + k) mod cap) = dst ! ((ind + k) mod cap)"
    if "Suc n \<le> k" "k < cap" for k
    using that old [of "k - 1"] ring_index_neq [of k cap ind] Suc.prems by (cases k) auto
  moreover have "buffer_write_loop (Suc n) dst (int cap) (int ind) data (int i) = Some dst'"
    using w Suc.prems by (simp add: ring_next_nat add.commute)
  ultimately show ?case using l by blast
qed

lemma read_loop_ring:
  assumes "length src = cap" and "ind < cap" and "i + n \<le> length data"
  shows "buffer_read_loop n src (int cap) (int ind) data (int i)
         = Some (take i data @ ring_slice src ind n @ drop (i + n) data)"
  using assms(2,3)
proof (induction n arbitrary: data ind i)
  case 0
  then show ?case by (simp add: ring_slice_def)
next
  case (Suc n)
  let ?d = "data[i := src ! ind]" and ?j = "Suc ind mod cap"
  have "buffer_read_loop n src (int cap) (int ?j) ?d (int (Suc i))
        = Some (take (Suc i) ?d @ ring_slice src ?j n @ drop (Suc i + n) ?d)"
    using Suc.prems by (intro Suc.IH) auto
  moreover have "take (Suc i) ?d = take i data @ [src ! ind]"
    using Suc.prems by (simp add: take_Suc_conv_app_nth)
  moreover have "ring_slice src ind (Suc n) = src ! ind # ring_slice src ?j n"
    using Suc.prems assms(1) ring_slice_Suc by blast
  ultimately show ?case
    using Suc.prems assms(1) by (simp add: ring_next_nat add.commute)
qed

section \<open>What the operations guarantee\<close>

lemma buf_okE:
  assumes "buf_ok b"
  obtains cap s n where "length (buf_data b) = cap" "buf_capacity b = int cap"
    "buf_startIndex b = int s" "buf_size b = int n" "s < cap" "n \<le> cap"
proof -
  from assms have "buf_capacity b = int (length (buf_data b))"
    and "buf_startIndex b = int (nat (buf_startIndex b))" and "buf_size b = int (nat (buf_size b))"
    and "nat (buf_startIndex b) < length (buf_data b)" and "nat (buf_size b) \<le> length (buf_data b)"
    by (auto simp: buf_ok_def)
  then show thesis using that by blast
qed

lemma buffer_init_ok: "buf_ok (buffer_init fill c) \<and> buf_contents (buffer_init fill c) = []"
  by (auto simp: buffer_init_def buf_ok_def buf_contents_def ring_slice_def DEFAULT_BUFFER_SIZE_def Let_def)

text \<open>
  Every write leaves the caller's bytes at the front of the ring, whatever the ring held
  before: the new contents start with the bytes written.
\<close>

lemma buffer_write_front:
  assumes "buf_ok b" and "n \<le> length data" and "m = min n (nat (buffer_getFreeSpace b))"
  shows "\<exists>b'. buffer_write b data (int n) = Some (int m, b') \<and> buf_ok b'
          \<and> take m (buf_contents b') = take m data \<and> buf_size b' = buf_size b + int m"
proof -
  from assms(1) obtain cap s k where f: "length (buf_data b) = cap" "buf_capacity b = int cap"
    "buf_startIndex b = int s" "buf_size b = int k" "s < cap" "k \<le> cap" by (rule buf_okE)
  have m: "m \<le> cap" "m \<le> length data" "k + m \<le> cap"
    using f assms(2,3) by (auto simp: buffer_getFreeSpace_def)
  obtain d where d: "buffer_write_loop m (buf_data b) (int cap) (int s) data 0 = Some d"
    and l: "length d = cap" and new: "\<And>k. k < m \<Longrightarrow> d ! ((s + k) mod cap) = data ! k"
    using write_loop_ring [of "buf_data b" cap s m 0 data] f m by auto
  let ?b = "b\<lparr>buf_data := d, buf_size := int k + int m\<rparr>"
  have "(if buffer_getFreeSpace b < int n then buffer_getFreeSpace b else int n) = int m"
    using f assms(3) by (auto simp: buffer_getFreeSpace_def)
  then have "buffer_write b data (int n) = Some (int m, ?b)"
    using d f by (simp add: buffer_write_def Let_def)
  moreover have "buf_ok ?b" using f l m by (auto simp: buf_ok_def)
  moreover have "take m (buf_contents ?b) = take m data"
    using new l f m
    by (intro nth_equalityI) (auto simp: buf_contents_def ring_slice_nth nat_add_distrib)
  ultimately show ?thesis using f by auto
qed

lemma buffer_clear_no_wrap:
  assumes "buf_ok b" and "0 \<le> n" and "buf_startIndex b + n \<le> buf_capacity b" and "n \<le> buf_size b"
  shows "buf_ok (snd (buffer_clear b n)) \<and> buf_contents (snd (buffer_clear b n)) = drop (nat n) (buf_contents b)"
proof -
  from assms(1) obtain cap s k where f: "length (buf_data b) = cap" "buf_capacity b = int cap"
    "buf_startIndex b = int s" "buf_size b = int k" "s < cap" "k \<le> cap" by (rule buf_okE)
  obtain m where m: "n = int m" using assms(2) nonneg_int_cases by blast
  let ?b = "snd (buffer_clear b n)"
  have st: "buf_startIndex ?b = int ((s + m) mod cap)" and sz: "buf_size ?b = int (k - m)"
    and dt: "buf_data ?b = buf_data b" and cp: "buf_capacity ?b = int cap"
    using f m assms(3,4) by (auto simp: buffer_clear_def Let_def mod_if)
  have "buf_ok ?b" using st sz dt cp f by (auto simp: buf_ok_def)
  moreover have "buf_contents ?b = drop m (buf_contents b)"
    using f st sz dt
    by (intro nth_equalityI)
       (auto simp: buf_contents_def ring_slice_nth mod_add_left_eq add.assoc simp del: of_nat_mod)
  ultimately show ?thesis using m by simp
qed

lemma buffer_read_no_wrap:
  assumes "buf_ok b" and "0 \<le> sz" and "sz \<le> int (length data)"
    and "buf_startIndex b + min sz (buf_size b) \<le> buf_capacity b"
  shows "\<exists>data' b'. buffer_read b data sz = Some (min sz (buf_size b), data', b')
     \<and> take (nat (min sz (buf_size b))) data' = take (nat sz) (buf_contents b)
     \<and> buf_contents b' = drop (nat sz) (buf_contents b) \<and> buf_ok b'"
proof -
  from assms(1) obtain cap s k where f: "length (buf_data b) = cap" "buf_capacity b = int cap"
    "buf_startIndex b = int s" "buf_size b = int k" "s < cap" "k \<le> cap" by (rule buf_okE)
  obtain m where m: "sz = int m" using assms(2) nonneg_int_cases by blast
  have lc: "length (buf_contents b) = k" using f by (simp add: buf_contents_def)
  show ?thesis
  proof (cases "k = 0 \<or> m = 0")
    case True
    then show ?thesis using f m lc assms(1) by (auto simp: buffer_read_def)
  next
    case False
    let ?n = "min m k"
    have r: "buffer_read_loop ?n (buf_data b) (int cap) (int s) data 0
          = Some (ring_slice (buf_data b) s ?n @ drop ?n data)"
      using read_loop_ring [of "buf_data b" cap s 0 ?n data] f m assms(3) by simp
    have n: "(if int k < int m then int k else int m) = int ?n" by auto
    have cl: "buf_ok (snd (buffer_clear b (int ?n)))"
      "buf_contents (snd (buffer_clear b (int ?n))) = drop ?n (buf_contents b)"
      using buffer_clear_no_wrap [OF assms(1), of "int ?n"] f m assms(4) by auto
    have "fst (buffer_clear b (int ?n)) = int ?n" using f by (simp add: buffer_clear_def Let_def)
    moreover have "ring_slice (buf_data b) s ?n = take m (buf_contents b)"
      using f by (intro nth_equalityI) (auto simp: buf_contents_def ring_slice_nth)
    moreover have "drop ?n (buf_contents b) = drop m (buf_contents b)"
      using lc by (cases "m \<le> k") auto
    ultimately show ?thesis using False f m r n cl lc
      by (auto simp: buffer_read_def Let_def split_beta)
  qed
qed

section \<open>Properties\<close>

text \<open>
  (C33) A write to a buffer stores as many bytes as fit, keeps the buffer well formed and
  puts the new bytes in front: pending bytes are overwritten rather than followed.
\<close>

theorem buffer_write_goes_to_front:
  assumes "buf_ok b" and "n \<le> length data"
  shows "\<exists>m b'. m = min n (nat (buf_capacity b - buf_size b)) \<and> buffer_write b data (int n) = Some (int m, b')
     \<and> buf_ok b' \<and> take m (buf_contents b') = take m data \<and> buf_size b' = buf_size b + int m"
  using buffer_write_front [OF assms refl] by (auto simp: buffer_getFreeSpace_def)

theorem buffer_write_goes_to_front_witness:
  "\<exists>b'. buffer_write \<lparr>buf_data = ''ab..'', buf_size = 2, buf_capacity = 4, buf_startIndex = 0\<rparr> ''xy'' 2 = Some (2, b')
     \<and> take 2 (buf_contents b') = ''xy''"
  using buffer_write_goes_to_front
    [of "\<lparr>buf_data = ''ab..'', buf_size = 2, buf_capacity = 4, buf_startIndex = 0\<rparr>" 2 "''xy''"]
  by (auto simp: buf_ok_def)

text \<open>
  Writing into an empty buffer and reading back returns the bytes written, as long as
  the bytes read do not reach past the end of the storage.
\<close>

theorem buffer_write_read_roundtrip:
  assumes "buf_ok b" and "buf_size b = 0" and "n = length data" and "buf_startIndex b + int n \<le> buf_capacity b"
    and "n \<le> length dst"
  shows "\<exists>b1 d' b2. buffer_write b data (int n) = Some (int n, b1) \<and> buffer_read b1 dst (int n) = Some (int n, d', b2)
     \<and> take n d' = data \<and> buf_contents b2 = [] \<and> buf_ok b2"
proof -
  from assms have "min n (nat (buffer_getFreeSpace b)) = n" by (auto simp: buffer_getFreeSpace_def buf_ok_def)
  with buffer_write_front [OF assms(1), of n data n] assms obtain b1 where
    w: "buffer_write b data (int n) = Some (int n, b1)" and ok: "buf_ok b1"
    and c: "take n (buf_contents b1) = data" and sz: "buf_size b1 = int n" by auto
  have f: "buf_startIndex b1 = buf_startIndex b" "buf_capacity b1 = buf_capacity b"
    using w by (auto simp: buffer_write_def Let_def bind_eq_Some_conv)
  have l: "length (buf_contents b1) = n" using sz by (simp add: buf_contents_def)
  from buffer_read_no_wrap [OF ok, of "int n" dst] assms f sz
  obtain d' b2 where "buffer_read b1 dst (int n) = Some (int n, d', b2)"
    "take n d' = take n (buf_contents b1)" "buf_contents b2 = drop n (buf_contents b1)" "buf_ok b2" by auto
  with w c l show ?thesis by simp
qed

theorem buffer_write_read_roundtrip_witness:
  "\<exists>b1 d' b2. buffer_write (buffer_init NUL 8) ''hey'' 3 = Some (3, b1) \<and> buffer_read b1 ''....'' 3 = Some (3, d', b2)
     \<and> take 3 d' = ''hey''"
  using buffer_write_read_roundtrip [of "buffer_init NUL 8" 3 "''hey''" "''....''"] buffer_init_ok [of NUL 8]
  by (auto simp: buffer_init_def)

end
