(* ===== verification/Dns_Types.thy ===== *)
theory Dns_Types
  imports HN_Prelude
begin

text \<open>
  The data of lib/dns/dns.h: record types, classes and return codes, and the structs of a
  message.  A resource record is its generic part and the member of the union that its type
  selects.  Packets are lists of characters, a character standing for the byte with its code.
  Structure sizes are those of the LP64 ABI.
\<close>

section \<open>Constants\<close>

definition RR_A :: nat where [simp]: "RR_A = 1"
definition RR_NS :: nat where [simp]: "RR_NS = 2"
definition RR_MD :: nat where [simp]: "RR_MD = 3"
definition RR_MF :: nat where [simp]: "RR_MF = 4"
definition RR_CNAME :: nat where [simp]: "RR_CNAME = 5"
definition RR_SOA :: nat where [simp]: "RR_SOA = 6"
definition RR_MB :: nat where [simp]: "RR_MB = 7"
definition RR_MG :: nat where [simp]: "RR_MG = 8"
definition RR_MR :: nat where [simp]: "RR_MR = 9"
definition RR_NULL :: nat where [simp]: "RR_NULL = 10"
definition RR_WKS :: nat where [simp]: "RR_WKS = 11"
definition RR_PTR :: nat where [simp]: "RR_PTR = 12"
definition RR_HINFO :: nat where [simp]: "RR_HINFO = 13"
definition RR_MINFO :: nat where [simp]: "RR_MINFO = 14"
definition RR_MX :: nat where [simp]: "RR_MX = 15"
definition RR_TXT :: nat where [simp]: "RR_TXT = 16"
definition RR_RP :: nat where [simp]: "RR_RP = 17"
definition RR_AFSDB :: nat where [simp]: "RR_AFSDB = 18"
definition RR_X25 :: nat where [simp]: "RR_X25 = 19"
definition RR_ISDN :: nat where [simp]: "RR_ISDN = 20"
definition RR_RT :: nat where [simp]: "RR_RT = 21"
definition RR_NSAP :: nat where [simp]: "RR_NSAP = 22"
definition RR_NSAP_PTR :: nat where [simp]: "RR_NSAP_PTR = 23"
definition RR_SIG :: nat where [simp]: "RR_SIG = 24"
definition RR_KEY :: nat where [simp]: "RR_KEY = 25"
definition RR_PX :: nat where [simp]: "RR_PX = 26"
definition RR_GPOS :: nat where [simp]: "RR_GPOS = 27"
definition RR_AAAA :: nat where [simp]: "RR_AAAA = 28"
definition RR_LOC :: nat where [simp]: "RR_LOC = 29"
definition RR_NXT :: nat where [simp]: "RR_NXT = 30"
definition RR_EID :: nat where [simp]: "RR_EID = 31"
definition RR_NIMLOC :: nat where [simp]: "RR_NIMLOC = 32"
definition RR_SRV :: nat where [simp]: "RR_SRV = 33"
definition RR_ATMA :: nat where [simp]: "RR_ATMA = 34"
definition RR_NAPTR :: nat where [simp]: "RR_NAPTR = 35"
definition RR_KX :: nat where [simp]: "RR_KX = 36"
definition RR_CERT :: nat where [simp]: "RR_CERT = 37"
definition RR_A6 :: nat where [simp]: "RR_A6 = 38"
definition RR_DNAME :: nat where [simp]: "RR_DNAME = 39"
definition RR_SINK :: nat where [simp]: "RR_SINK = 40"
definition RR_OPT :: nat where [simp]: "RR_OPT = 41"
definition RR_APL :: nat where [simp]: "RR_APL = 42"
definition RR_DS :: nat where [simp]: "RR_DS = 43"
definition RR_SSHFP :: nat where [simp]: "RR_SSHFP = 44"
definition RR_ISECKEY :: nat where [simp]: "RR_ISECKEY = 45"
definition RR_RRSIG :: nat where [simp]: "RR_RRSIG = 46"
definition RR_NSEC :: nat where [simp]: "RR_NSEC = 47"
definition RR_DNSKEY :: nat where [simp]: "RR_DNSKEY = 48"
definition RR_DHCID :: nat where [simp]: "RR_DHCID = 49"
definition RR_NSEC3 :: nat where [simp]: "RR_NSEC3 = 50"
definition RR_NSEC3PARAM :: nat where [simp]: "RR_NSEC3PARAM = 51"
definition RR_TLSA :: nat where [simp]: "RR_TLSA = 52"
definition RR_SMIMEA :: nat where [simp]: "RR_SMIMEA = 53"
definition RR_HIP :: nat where [simp]: "RR_HIP = 55"
definition RR_NINFO :: nat where [simp]: "RR_NINFO = 56"
definition RR_RKEY :: nat where [simp]: "RR_RKEY = 57"
definition RR_TALINK :: nat where [simp]: "RR_TALINK = 58"
definition RR_CDS :: nat where [simp]: "RR_CDS = 59"
definition RR_CDNSKEY :: nat where [simp]: "RR_CDNSKEY = 60"
definition RR_OPENPGPKEY :: nat where [simp]: "RR_OPENPGPKEY = 61"
definition RR_CSYNC :: nat where [simp]: "RR_CSYNC = 62"
definition RR_ZONEMD :: nat where [simp]: "RR_ZONEMD = 63"
definition RR_SVCB :: nat where [simp]: "RR_SVCB = 64"
definition RR_HTTPS :: nat where [simp]: "RR_HTTPS = 65"
definition RR_SPF :: nat where [simp]: "RR_SPF = 99"
definition RR_UINFO :: nat where [simp]: "RR_UINFO = 100"
definition RR_UID :: nat where [simp]: "RR_UID = 101"
definition RR_GID :: nat where [simp]: "RR_GID = 102"
definition RR_UNSPEC :: nat where [simp]: "RR_UNSPEC = 103"
definition RR_NID :: nat where [simp]: "RR_NID = 104"
definition RR_L32 :: nat where [simp]: "RR_L32 = 105"
definition RR_L64 :: nat where [simp]: "RR_L64 = 106"
definition RR_LP :: nat where [simp]: "RR_LP = 107"
definition RR_EUI48 :: nat where [simp]: "RR_EUI48 = 108"
definition RR_EUI64 :: nat where [simp]: "RR_EUI64 = 109"
definition RR_TKEY :: nat where [simp]: "RR_TKEY = 249"
definition RR_TSIG :: nat where [simp]: "RR_TSIG = 250"
definition RR_IXFR :: nat where [simp]: "RR_IXFR = 251"
definition RR_AXFR :: nat where [simp]: "RR_AXFR = 252"
definition RR_MAILB :: nat where [simp]: "RR_MAILB = 253"
definition RR_MAILA :: nat where [simp]: "RR_MAILA = 254"
definition RR_ANY :: nat where [simp]: "RR_ANY = 255"
definition RR_URI :: nat where [simp]: "RR_URI = 256"
definition RR_CAA :: nat where [simp]: "RR_CAA = 257"
definition RR_AVC :: nat where [simp]: "RR_AVC = 258"
definition RR_DOA :: nat where [simp]: "RR_DOA = 259"
definition RR_AMTRELAY :: nat where [simp]: "RR_AMTRELAY = 260"
definition RR_TA :: nat where [simp]: "RR_TA = 32768"
definition RR_DLV :: nat where [simp]: "RR_DLV = 32769"
definition RR_PRIVATE :: nat where [simp]: "RR_PRIVATE = 65280"
definition RR_UNKNOWN :: nat where [simp]: "RR_UNKNOWN = 65535"
definition EDNS0RR_NSID :: nat where [simp]: "EDNS0RR_NSID = 3"
definition CLASS_IN :: nat where [simp]: "CLASS_IN = 1"
definition CLASS_CS :: nat where [simp]: "CLASS_CS = 2"
definition CLASS_CH :: nat where [simp]: "CLASS_CH = 3"
definition CLASS_HS :: nat where [simp]: "CLASS_HS = 4"
definition CLASS_NONE :: nat where [simp]: "CLASS_NONE = 254"
definition CLASS_ANY :: nat where [simp]: "CLASS_ANY = 255"
definition CLASS_PRIVATE :: nat where [simp]: "CLASS_PRIVATE = 65280"
definition CLASS_UNKNOWN :: nat where [simp]: "CLASS_UNKNOWN = 65535"
definition OP_QUERY :: nat where [simp]: "OP_QUERY = 0"
definition OP_IQUERY :: nat where [simp]: "OP_IQUERY = 1"
definition OP_STATUS :: nat where [simp]: "OP_STATUS = 2"
definition OP_NOTIFY :: nat where [simp]: "OP_NOTIFY = 4"
definition OP_UPDATE :: nat where [simp]: "OP_UPDATE = 5"
definition OP_UNKNOWN :: nat where [simp]: "OP_UNKNOWN = 1"

datatype dns_rcode =
  RCODE_OKAY | RCODE_FORMAT_ERROR | RCODE_SERVER_FAILURE | RCODE_NAME_ERROR | RCODE_NOT_IMPLEMENTED | RCODE_REFUSED
| RCODE_YXDOMAIN | RCODE_YXRRSET | RCODE_NXRRSET | RCODE_NOTAUTH | RCODE_NOTZONE | RCODE_BADVERS | RCODE_BADKEY
| RCODE_BADTIME | RCODE_BADMODE | RCODE_BADNAME | RCODE_BADALG | RCODE_BADTRUC | RCODE_BADCOOKIE | RCODE_PRIVATE
| RCODE_NO_MEMORY | RCODE_BAD_STRING

definition MAX_DOMAIN_LABEL :: nat where [simp]: "MAX_DOMAIN_LABEL = 64"
definition MAXSEG :: nat where [simp]: "MAXSEG = 100"
definition HEADER_SIZE :: nat where [simp]: "HEADER_SIZE = 12"
definition MEM_ALIGN :: nat where [simp]: "MEM_ALIGN = 8"
definition SIZE_query :: nat where [simp]: "SIZE_query = 88"
definition SIZE_question :: nat where [simp]: "SIZE_question = 16"
definition SIZE_answer :: nat where [simp]: "SIZE_answer = 96"
definition SIZE_edns0opt :: nat where [simp]: "SIZE_edns0opt = 24"
definition DNS_DECODEBUF_4K :: nat where [simp]: "DNS_DECODEBUF_4K = 4096"
definition DNS_BUFFER_UDP :: nat where [simp]: "DNS_BUFFER_UDP = 512"

definition LOC_BIAS :: nat where [simp]: "LOC_BIAS = 2147483648"
definition LOC_LAT_MAX :: nat where [simp]: "LOC_LAT_MAX = 90 * 3600000"
definition LOC_LNG_MAX :: nat where [simp]: "LOC_LNG_MAX = 180 * 3600000"
definition LOC_ALT_BIAS :: int where [simp]: "LOC_ALT_BIAS = 10000000"

section \<open>Messages\<close>

record dns_question =
  qu_name :: "string option"
  qu_type :: nat
  qu_class :: nat

record dnsgpos_angle =
  ang_deg :: int
  ang_min :: int
  ang_sec :: int
  ang_frac :: int
  ang_nw :: bool

record dns_soa =
  soa_mname :: string
  soa_rname :: string
  soa_serial :: nat
  soa_refresh :: nat
  soa_retry :: nat
  soa_expire :: nat
  soa_minimum :: nat

record dns_naptr =
  na_order :: nat
  na_preference :: nat
  na_flags :: string
  na_services :: string
  na_regexp :: string
  na_replacement :: string

record dns_loc =
  loc_version :: nat
  loc_size :: nat
  loc_horiz_pre :: nat
  loc_vert_pre :: nat
  loc_latitude :: dnsgpos_angle
  loc_longitude :: dnsgpos_angle
  loc_altitude :: int

text \<open>A \<open>double\<close> is its 64-bit pattern.\<close>

record dns_gpos =
  gp_longitude :: dnsgpos_angle
  gp_latitude :: dnsgpos_angle
  gp_altitude :: "64 word"

record edns0_opt =
  eo_code :: nat
  eo_data :: string

record dns_edns0opt =
  op_udp_payload :: nat
  op_version :: nat
  op_fdo :: bool
  op_fug :: nat
  op_z :: nat
  op_opts :: "edns0_opt list"

text \<open>
  The members of the union, by the layouts the codec uses.  Raw data and the bits of a
  well-known service are a null pointer when empty.
\<close>

datatype rdata =
  RD_A string
| RD_SOA dns_soa
| RD_NAPTR dns_naptr
| RD_AAAA string
| RD_SRV nat nat nat string
| RD_WKS string nat string
| RD_GPOS dns_gpos
| RD_LOC dns_loc
| RD_OPT dns_edns0opt
| RD_MINFO string string
| RD_MX nat string
| RD_HINFO string string
| RD_TXT string
| RD_NAME string
| RD_X string

record dns_answer =
  an_name :: "string option"
  an_type :: nat
  an_class :: nat
  an_ttl :: nat
  an_data :: rdata

record dns_query =
  dq_id :: int
  dq_query :: bool
  dq_opcode :: nat
  dq_aa :: bool
  dq_tc :: bool
  dq_rd :: bool
  dq_ra :: bool
  dq_z :: bool
  dq_ad :: bool
  dq_cd :: bool
  dq_rcode :: nat
  dq_questions :: "dns_question list"
  dq_answers :: "dns_answer list"
  dq_nameservers :: "dns_answer list"
  dq_additional :: "dns_answer list"

text \<open>The switch over the record type that both directions of the codec have.\<close>

datatype rr_member = K_A | K_SOA | K_NAPTR | K_AAAA | K_SRV | K_WKS | K_GPOS | K_LOC | K_OPT
  | K_MINFO | K_MX | K_HINFO | K_TXT | K_NAME | K_NULL | K_OTHER

definition rr_kind :: "nat \<Rightarrow> rr_member" where
  "rr_kind t =
     (if t = RR_A then K_A else if t = RR_SOA then K_SOA else if t = RR_NAPTR then K_NAPTR
      else if t = RR_AAAA then K_AAAA else if t = RR_SRV then K_SRV else if t = RR_WKS then K_WKS
      else if t = RR_GPOS then K_GPOS else if t = RR_LOC then K_LOC else if t = RR_OPT then K_OPT
      else if t \<in> {RR_PX, RR_RP, RR_MINFO} then K_MINFO
      else if t \<in> {RR_AFSDB, RR_RT, RR_MX} then K_MX
      else if t \<in> {RR_NSAP, RR_ISDN, RR_HINFO} then K_HINFO
      else if t \<in> {RR_X25, RR_SPF, RR_TXT} then K_TXT
      else if t \<in> {RR_NSAP_PTR, RR_MD, RR_MF, RR_MB, RR_MG, RR_MR, RR_NS, RR_PTR, RR_CNAME} then K_NAME
      else if t = RR_NULL then K_NULL else K_OTHER)"

section \<open>Bytes\<close>

definition octet :: "char \<Rightarrow> nat" where
  "octet c = of_char c"

text \<open>\<open>char_of\<close> keeps the low eight bits of its argument.\<close>

definition u8_bytes :: "nat \<Rightarrow> string" where
  "u8_bytes v = [char_of v]"

definition u16_bytes :: "nat \<Rightarrow> string" where
  "u16_bytes v = [char_of (v div 256), char_of v]"

definition u32_bytes :: "nat \<Rightarrow> string" where
  "u32_bytes v = [char_of (v div 2 ^ 24), char_of (v div 2 ^ 16), char_of (v div 256), char_of v]"

definition swap16 :: "nat \<Rightarrow> nat" where
  "swap16 v = (v mod 256) * 256 + v div 256 mod 256"

lemma octet_less [simp]: "octet c < 256"
  by (simp add: octet_def nat_of_char_less_256)

lemma octet_char_of [simp]: "octet (char_of n) = n mod 256"
  by (simp add: octet_def)

lemma char_of_octet [simp]: "char_of (octet c) = c"
  by (simp add: octet_def)

lemma of_char_of_zero: "of_char NUL = (0 :: nat)"
  by simp

lemma octet_eq_0 [simp]: "octet c = 0 \<longleftrightarrow> c = NUL" "0 < octet c \<longleftrightarrow> c \<noteq> NUL"
proof -
  have "octet c = 0 \<longleftrightarrow> c = NUL" unfolding octet_def by (metis of_char_eq_iff of_char_of_zero)
  then show "octet c = 0 \<longleftrightarrow> c = NUL" "0 < octet c \<longleftrightarrow> c \<noteq> NUL" by auto
qed

lemma octet_NUL [simp]: "octet NUL = 0"
  by simp

lemma bytes_length [simp]: "length (u8_bytes v) = 1" "length (u16_bytes v) = 2" "length (u32_bytes v) = 4"
  by (simp_all add: u8_bytes_def u16_bytes_def u32_bytes_def)

text \<open>
  The floating-point operations of C on bit patterns: conversion from \<open>int\<close>, rounded
  arithmetic, \<open>fabs\<close>, negation, the comparison with zero, \<open>modf\<close> (integer part, fraction), the
  conversion to \<open>int\<close> (undefined out of range), printing with format \<open>f\<close>, and \<open>strtod\<close> (no
  value when \<open>errno\<close> is set).
\<close>

record fpu =
  fp_int :: "int \<Rightarrow> 64 word"
  fp_add :: "64 word \<Rightarrow> 64 word \<Rightarrow> 64 word"
  fp_div :: "64 word \<Rightarrow> 64 word \<Rightarrow> 64 word"
  fp_mul :: "64 word \<Rightarrow> 64 word \<Rightarrow> 64 word"
  fp_neg :: "64 word \<Rightarrow> 64 word"
  fp_abs :: "64 word \<Rightarrow> 64 word"
  fp_below0 :: "64 word \<Rightarrow> bool"
  fp_atleast0 :: "64 word \<Rightarrow> bool"
  fp_modf :: "64 word \<Rightarrow> 64 word \<times> 64 word"
  fp_toint :: "64 word \<Rightarrow> int option"
  fp_print :: "64 word \<Rightarrow> string"
  fp_parse :: "string \<Rightarrow> 64 word option"

text \<open>An arithmetic for samples that do not use it.\<close>

definition fpu_zero :: fpu where
  "fpu_zero =
     \<lparr>fp_int = \<lambda>_. 0, fp_add = \<lambda>_ _. 0, fp_div = \<lambda>_ _. 0, fp_mul = \<lambda>_ _. 0, fp_neg = \<lambda>_. 0, fp_abs = \<lambda>_. 0,
      fp_below0 = \<lambda>_. False, fp_atleast0 = \<lambda>_. True, fp_modf = \<lambda>_. (0, 0), fp_toint = \<lambda>_. Some 0,
      fp_print = \<lambda>_. ''0.000000'', fp_parse = \<lambda>_. Some 0\<rparr>"

end
