(* ===== verification/HN_Types.thy ===== *)
theory HN_Types
  imports CMap Ring_Buffer Dns_Types
begin

text \<open>
  The data of the program: the structs and constants of include/netUtils.h and
  include/homeNet.h, and the state every effectful function of the later theories passes
  along.  Pointers to \<open>Socket\<close> and \<open>hn_Socket\<close> are addresses into two heaps; the operating
  system is a record of answers, consumed in the order the program asks.
\<close>

section \<open>Addresses\<close>

datatype family = AF_UNSPEC | AF_INET | AF_INET6

record sockaddr =
  sa_family :: family
  sin_port :: u16
  sin_addr :: nat

text \<open>
  \<open>IPADDR_SIZE\<close> is a conditional expression without parentheses, so \<open>IPADDR_SIZE + 10\<close> is
  \<open>INET6_ADDRSTRLEN\<close> as well: both arrays declared with it have 46 cells.
\<close>

definition INET_ADDRSTRLEN :: nat where "INET_ADDRSTRLEN = 16"
definition INET6_ADDRSTRLEN :: nat where "INET6_ADDRSTRLEN = 46"
definition IPADDR_SIZE :: nat where
  "IPADDR_SIZE = (if INET6_ADDRSTRLEN > INET_ADDRSTRLEN then INET6_ADDRSTRLEN else INET_ADDRSTRLEN)"
definition LOCAL_IP_SIZE :: nat where
  "LOCAL_IP_SIZE = (if INET6_ADDRSTRLEN > INET_ADDRSTRLEN then INET6_ADDRSTRLEN else INET_ADDRSTRLEN + 10)"

section \<open>Sockets\<close>

datatype sock_type = TCPSOCKET | UDPSOCKET
datatype alive = SOCKET_DEAD | SOCKET_WILLDIE | SOCKET_ALIVE

type_synonym sock_ptr = nat
type_synonym hn_ptr = nat

record Socket =
  fd :: int
  sock_kind :: sock_type
  ipAddr :: sockaddr
  isServer :: bool
  isBlocking :: bool
  isAlive :: alive
  listenForWritable :: bool
  listenForReadable :: bool
  writeBuffer :: Buffer
  ptr :: "hn_ptr option"

datatype sock_mode =
  SOCK_MODE_RELAY | SOCK_MODE_LISTEN | SOCK_MODE_MDNS | SOCK_MODE_LISTEN_OUT | SOCK_MODE_TEMP

text \<open>The relay and the listener part of \<open>hn_Socket\<close>; their char arrays hold 19 characters.\<close>

record hn_Socket =
  hn_sock :: sock_ptr
  hn_mode :: sock_mode
  isUpgraded :: bool
  host :: string
  relay_next :: "sock_ptr option"
  relay_isWaiting :: bool
  relay_otp :: string
  relay_listenId :: string
  listen_salt :: string
  listen_listenId :: string
  waitingSocks :: "hn_ptr Map"

definition HOST_SIZE :: nat where "HOST_SIZE = 200"
definition ID_SIZE :: nat where "ID_SIZE = 20"

section \<open>Configuration and bridge context\<close>

definition MAX_URL_SIZE :: nat where "MAX_URL_SIZE = 200"
definition SOCK_TIMEOUT_SECS :: int where "SOCK_TIMEOUT_SECS = 5"
definition HN_MSG_END :: string where "HN_MSG_END = [CR, LF]"
definition BUFF_SIZE :: nat where "BUFF_SIZE = 600"
definition REFRESH_INTERVAL_SECS :: int where "REFRESH_INTERVAL_SECS = 10"
definition BROADCAST_MIN_INTERVAL_SECS :: int where "BROADCAST_MIN_INTERVAL_SECS = 3"
definition PING_INTERVAL_SECS :: int where "PING_INTERVAL_SECS = 4"
definition CONFIG_PATH :: string where "CONFIG_PATH = ''homenet.conf''"

record MdnsRecord =
  rec_ip :: sockaddr
  rec_name :: string
  rec_data :: "string Map"
  rec_timestamp :: int

record BridgeContext =
  masterKey :: string
  ctx_name :: string
  queryKeys :: "string Map"
  listenKeys :: "string Map"
  listeningSocks :: "hn_ptr Map"
  mdnsStore :: "MdnsRecord Map"
  mdnsLastRefresh :: int
  lastMdnsBroadcast :: int
  rlSock :: "sock_ptr option"
  rlRetries :: int
  rlLastRetry :: int
  rlLastPing :: int

datatype run_mode = HN_MODE_CONNECT | HN_MODE_BRIDGE | HN_MODE_QUERY | HN_MODE_REVERSE_LISTEN | HN_MODE_LISTEN

definition AUTH_LEVEL_NONE :: int where "AUTH_LEVEL_NONE = 0"
definition AUTH_LEVEL_LOCAL_IP :: int where "AUTH_LEVEL_LOCAL_IP = 1"
definition AUTH_LEVEL_ALL :: int where "AUTH_LEVEL_ALL = 2"

record bridgeMode =
  br_port :: int
  br_rlId :: string
  br_rlUrl :: string
  br_rlPass :: string
  useMdns :: int
  connectAuthLevel :: int
  requireQueryAuth :: int
  requireRLAuth :: int
  br_context :: BridgeContext

record RLMode =
  rl_rlId :: string
  rl_rlUrl :: string
  rl_rlPass :: string
  rl_localIp :: string

record listenMode =
  ls_port :: int
  ls_connectUrl :: string

record connectMode =
  cn_connectUrl :: string
  cn_payload :: string

record queryMode =
  q_name :: string
  q_bridgeUrl :: string
  q_salt :: string
  q_key :: string

text \<open>The mode is \<open>None\<close> for the initial value -1; a pointer to a mode struct may be null.\<close>

record hn_Config =
  cf_mode :: "run_mode option"
  bridge :: "bridgeMode option"
  rl :: "RLMode option"
  listen :: "listenMode option"
  connect :: "connectMode option"
  query :: "queryMode option"

section \<open>The operating system and the program state\<close>

text \<open>
  Answers that do not depend on the program: the environment, the clock (the value of the
  \<open>n\<close>th call of \<open>time\<close>), the generator \<open>rand\<close> as a function of its seed, name resolution,
  IPv6 parsing and printing, the local address of a descriptor, and the memory that happens
  to lie below a buffer on the stack, and the floating-point operations of the processor.
\<close>

record os =
  getenv :: "string \<Rightarrow> string option"
  clock :: "nat \<Rightarrow> int"
  rand_seq :: "int \<Rightarrow> nat \<Rightarrow> nat"
  gethostbyname :: "string \<Rightarrow> nat option"
  inet_pton6 :: "string \<Rightarrow> nat option"
  inet_ntop6 :: "nat \<Rightarrow> string"
  getsockname :: "int \<Rightarrow> sockaddr"
  below_buff :: string
  os_fpu :: fpu

datatype recv_answer = Recv string | Recv_closed | Recv_again | Recv_error

text \<open>The calls made on a new UDP socket whose answers the program looks at.\<close>

datatype udp_option = SO_REUSEADDR | SO_REUSEPORT | IP_ADD_MEMBERSHIP | UDP_BIND

text \<open>
  The mutable state.  \<open>inbox\<close> and \<open>wscript\<close> give the coming answers of \<open>recv\<close> and \<open>write\<close>
  per descriptor, \<open>outbox\<close> is what was written; \<open>conns\<close> are the answers of
  \<open>socket\<close>/\<open>connect\<close> pairs, \<open>accepts\<close> those of \<open>accept\<close>.  \<open>udp_in\<close> are the datagrams to
  come, \<open>udp_fails\<close> says which sends fail, \<open>udp_sent\<close> are the datagrams sent with their
  destinations.  \<open>udp_opens\<close> are the answers of \<open>socket\<close> for UDP, each with the calls that succeed
  on the descriptor; when they are used up \<open>socket\<close> fails.  \<open>mdns_fd\<close> and \<open>mdns_addr\<close> are the static
  variables of \<open>mdns_send\<close>.
\<close>

record hn =
  socks :: "sock_ptr \<rightharpoonup> Socket"
  hnSocks :: "hn_ptr \<rightharpoonup> hn_Socket"
  nextPtr :: nat
  conf :: hn_Config
  sockList :: "sock_ptr clist"
  isRecall :: bool
  mySeed :: int
  ticks :: nat
  inbox :: "int \<Rightarrow> recv_answer list"
  wscript :: "int \<Rightarrow> int list"
  outbox :: "int \<Rightarrow> string"
  conns :: "(int \<times> bool) list"
  accepts :: "(int \<times> sockaddr) option list"
  closedFds :: "int list"
  udp_in :: "(string \<times> sockaddr) list"
  udp_fails :: "bool list"
  udp_sent :: "(sockaddr \<times> string) list"
  udp_opens :: "(int \<times> (udp_option \<Rightarrow> bool)) list"
  mdns_fd :: int
  mdns_addr :: sockaddr

text \<open>Heap access: reading a freed or null address is a fault.\<close>

definition the_sock :: "hn \<Rightarrow> sock_ptr \<Rightarrow> Socket option" where
  "the_sock st p = socks st p"

definition the_hn :: "hn \<Rightarrow> hn_ptr \<Rightarrow> hn_Socket option" where
  "the_hn st p = hnSocks st p"

definition upd_sock :: "sock_ptr \<Rightarrow> (Socket \<Rightarrow> Socket) \<Rightarrow> hn \<Rightarrow> hn option" where
  "upd_sock p f st = (case socks st p of None \<Rightarrow> None | Some s \<Rightarrow> Some (st\<lparr>socks := (socks st)(p \<mapsto> f s)\<rparr>))"

definition upd_hn :: "hn_ptr \<Rightarrow> (hn_Socket \<Rightarrow> hn_Socket) \<Rightarrow> hn \<Rightarrow> hn option" where
  "upd_hn p f st = (case hnSocks st p of None \<Rightarrow> None | Some s \<Rightarrow> Some (st\<lparr>hnSocks := (hnSocks st)(p \<mapsto> f s)\<rparr>))"

definition free_sock :: "sock_ptr \<Rightarrow> hn \<Rightarrow> hn option" where
  "free_sock p st = (case socks st p of None \<Rightarrow> None | Some s \<Rightarrow> Some (st\<lparr>socks := (socks st)(p := None)\<rparr>))"

definition free_hn :: "hn_ptr \<Rightarrow> hn \<Rightarrow> hn option" where
  "free_hn p st = (case hnSocks st p of None \<Rightarrow> None | Some s \<Rightarrow> Some (st\<lparr>hnSocks := (hnSocks st)(p := None)\<rparr>))"

definition alloc_sock :: "Socket \<Rightarrow> hn \<Rightarrow> sock_ptr \<times> hn" where
  "alloc_sock s st = (nextPtr st, st\<lparr>socks := (socks st)(nextPtr st \<mapsto> s), nextPtr := nextPtr st + 1\<rparr>)"

definition alloc_hn :: "hn_Socket \<Rightarrow> hn \<Rightarrow> hn_ptr \<times> hn" where
  "alloc_hn h st = (nextPtr st, st\<lparr>hnSocks := (hnSocks st)(nextPtr st \<mapsto> h), nextPtr := nextPtr st + 1\<rparr>)"

text \<open>The bridge context lives inside the configuration.\<close>

definition get_ctx :: "hn \<Rightarrow> BridgeContext option" where
  "get_ctx st = map_option br_context (bridge (conf st))"

definition set_ctx :: "BridgeContext \<Rightarrow> hn \<Rightarrow> hn option" where
  "set_ctx c st =
     (case bridge (conf st) of
        None \<Rightarrow> None
      | Some b \<Rightarrow> Some (st\<lparr>conf := (conf st)\<lparr>bridge := Some (b\<lparr>br_context := c\<rparr>)\<rparr>\<rparr>))"

definition os_time :: "os \<Rightarrow> hn \<Rightarrow> int \<times> hn" where
  "os_time os st = (clock os (ticks st), st\<lparr>ticks := ticks st + 1\<rparr>)"

text \<open>A copy into a char array of \<open>cap\<close> cells.\<close>

definition fits :: "nat \<Rightarrow> string \<Rightarrow> string option" where
  "fits cap s = (if length s < cap then Some s else None)"

lemma fits_Some [simp]: "fits cap s = Some t \<longleftrightarrow> length s < cap \<and> t = s"
  by (auto simp: fits_def)

section \<open>A state and an environment for worked examples\<close>

text \<open>The program before it has opened a socket, and an environment without answers of its own.\<close>

definition hn_idle :: hn where
  "hn_idle =
     \<lparr>socks = Map.empty, hnSocks = Map.empty, nextPtr = 1,
      conf = \<lparr>cf_mode = None, bridge = None, rl = None, listen = None, connect = None, query = None\<rparr>,
      sockList = list_init, isRecall = False, mySeed = 25011984, ticks = 0, inbox = \<lambda>_. [], wscript = \<lambda>_. [],
      outbox = \<lambda>_. [], conns = [], accepts = [], closedFds = [], udp_in = [], udp_fails = [], udp_sent = [],
      udp_opens = [], mdns_fd = - 1, mdns_addr = \<lparr>sa_family = AF_UNSPEC, sin_port = 0, sin_addr = 0\<rparr>\<rparr>"

definition os_plain :: os where
  "os_plain =
     \<lparr>getenv = \<lambda>_. None, clock = int, rand_seq = (\<lambda>s n. nat s + n), gethostbyname = \<lambda>_. None,
      inet_pton6 = \<lambda>_. None, inet_ntop6 = \<lambda>_. [], getsockname = \<lambda>_. \<lparr>sa_family = AF_INET, sin_port = 0, sin_addr = 0\<rparr>,
      below_buff = replicate 32 NUL, os_fpu = fpu_zero\<rparr>"

end
