(* ===== verification/Auth.thy ===== *)
theory Auth
  imports HN_Types Sha2_Correct
begin

text \<open>
  The challenge-response authentication of src/homeNet.c: a challenge carries a random
  nonce, the response is the key and the SHA-512 of \<open>nonce|key|salt\<close>.  The interface the
  protocol needs of the hash is the locale \<open>hex_digest\<close>.
\<close>

section \<open>Definitions\<close>

text \<open>\<open>generateCode\<close>: seed from time and a static counter, then one \<open>rand\<close> per character.\<close>

definition code_alphabet :: string where
  "code_alphabet = ''abcdefghijklmnopqrstuvwxyzABCDEFGHIJKLMNOPQRSTUVWXYZ0123456789''"

definition generateCode :: "os \<Rightarrow> int \<Rightarrow> hn \<Rightarrow> string \<times> hn" where
  "generateCode os len st =
     (let (t, st1) = os_time os st;
          sd = mySeed st1 + 1;
          seed = t * len + sd;
          n = nat (if len < 1 then 1 else len)
      in (map (\<lambda>i. code_alphabet ! (rand_seq os seed i mod 62)) [0..<n], st1\<lparr>mySeed := sd\<rparr>))"

text \<open>The bytes of a string, and \<open>SHA512_Init\<close>, \<open>SHA512_Update\<close>, \<open>SHA512_End\<close> on them.\<close>

definition str_bytes :: "string \<Rightarrow> byte list" where
  "str_bytes s = map of_char s"

definition sha512_hex :: "string \<Rightarrow> string" where
  "sha512_hex s = SHA512_End (SHA512_Update SHA512_Init (str_bytes s))"

text \<open>
  A null key is measured with \<open>str_len\<close> before it is tested.  \<open>raw\<close> has 513 cells, the
  output buffer \<open>BUFF_SIZE\<close>.
\<close>

definition generateAuthResp :: "string \<Rightarrow> string option \<Rightarrow> string option \<Rightarrow> string option" where
  "generateAuthResp nonce key salt = do {
     k \<leftarrow> key;
     s \<leftarrow> salt;
     buff \<leftarrow> fits BUFF_SIZE (if k = [] then [] else k @ '' '');
     raw \<leftarrow> fits 513 (nonce @ ''|'' @ k @ ''|'' @ s);
     fits BUFF_SIZE (buff @ sha512_hex raw) }"

definition generateAuthRespFromPassword :: "string \<Rightarrow> string \<Rightarrow> string option" where
  "generateAuthRespFromPassword nonce password =
     (let (key, rest) = strtok '':'' password; (salt, _) = strtok '':'' rest
      in if salt = None then generateAuthResp nonce None key else generateAuthResp nonce key salt)"

definition verifyAuthRespFromMap :: "string \<Rightarrow> string \<Rightarrow> string Map \<Rightarrow> bool option" where
  "verifyAuthRespFromMap buff nonce keyStore =
     (let (key, rest) = strtok '' '' buff; (hash, _) = strtok '' '' rest in
      if hash = None then Some False
      else do {
        k \<leftarrow> key;
        case map_get keyStore k of
          None \<Rightarrow> Some False
        | Some salt \<Rightarrow> do { answer \<leftarrow> generateAuthResp nonce (Some k) (Some salt); Some (answer = buff) } })"

definition verifyAuthResp :: "string \<Rightarrow> string \<Rightarrow> string \<Rightarrow> string \<Rightarrow> bool option" where
  "verifyAuthResp buff nonce key salt = do {
     m \<leftarrow> map_put True map_init key salt;
     verifyAuthRespFromMap buff nonce m }"

text \<open>The challenge message and its nonce.\<close>

definition generateAuthChallenge :: "os \<Rightarrow> hn \<Rightarrow> string \<times> string \<times> hn" where
  "generateAuthChallenge os st =
     (let (nonce, st') = generateCode os 15 st in (''AUTH '' @ nonce, nonce, st'))"

section \<open>What the protocol needs of the hash\<close>

locale hex_digest =
  fixes H :: "string \<Rightarrow> string"
  assumes H_length: "length (H x) = 128"
    and H_digits: "set (H x) \<subseteq> set sha2_hex_digits"
begin

lemma H_word: "H x \<noteq> []" "CHR '' '' \<notin> set (H x)"
proof -
  show "H x \<noteq> []" using H_length [of x] by auto
  have "CHR '' '' \<notin> set sha2_hex_digits" by (simp add: sha2_hex_digits_def)
  then show "CHR '' '' \<notin> set (H x)" using H_digits by blast
qed

lemma response_tokens:
  assumes "k \<noteq> []" and "CHR '' '' \<notin> set k"
  shows "strtok '' '' (k @ '' '' @ H x) = (Some k, H x)" and "strtok '' '' (H x) = (Some (H x), [])"
  using strtok_word(1) [of k "'' ''" "CHR '' ''" "H x"] strtok_word(2) [of "H x" "'' ''" "CHR '' ''"] assms H_word [of x]
  by auto

text \<open>Key and digest of a response are determined by it.\<close>

lemma response_inj:
  assumes "k @ '' '' @ H x = k' @ '' '' @ H x'"
  shows "k = k' \<and> H x = H x'"
proof -
  have "length (H x) = length (H x')" by (simp add: H_length)
  with assms have "length (k @ '' '') = length (k' @ '' '')"
    by (metis append_assoc append_eq_append_conv length_append add_right_cancel)
  with assms show ?thesis by simp
qed

end

lemma length_SHA512_Final: "length (SHA512_Final c) = 64"
  by (simp add: SHA512_Final_def SHA512_Last_def Let_def SHA512_Transform_def length_concat_const [where n = 8])

interpretation sha: hex_digest sha512_hex
proof unfold_locales
  fix x
  show "length (sha512_hex x) = 128"
    by (simp add: sha512_hex_def SHA512_End_def hex_string_length length_SHA512_Final)
  show "set (sha512_hex x) \<subseteq> set sha2_hex_digits"
    unfolding sha512_hex_def SHA512_End_def by (rule hex_string_digits)
qed

section \<open>Responses\<close>

text \<open>The string that is hashed, and the sizes for which no buffer overflows.\<close>

definition auth_raw :: "string \<Rightarrow> string \<Rightarrow> string \<Rightarrow> string" where
  "auth_raw nonce key salt = nonce @ ''|'' @ key @ ''|'' @ salt"

definition auth_sizes :: "string \<Rightarrow> string \<Rightarrow> string \<Rightarrow> bool" where
  "auth_sizes nonce key salt \<longleftrightarrow> length (auth_raw nonce key salt) < 513 \<and> length key < 471"

lemma generateAuthResp_value:
  assumes "auth_sizes nonce k s" and "k \<noteq> []"
  shows "generateAuthResp nonce (Some k) (Some s) = Some (k @ '' '' @ sha512_hex (auth_raw nonce k s))"
  using assms sha.H_length [of "auth_raw nonce k s"]
  by (simp add: generateAuthResp_def auth_sizes_def auth_raw_def fits_def BUFF_SIZE_def)

lemma generateAuthResp_SomeD:
  assumes "generateAuthResp nonce (Some k) (Some s) = Some r" and "k \<noteq> []"
  shows "r = k @ '' '' @ sha512_hex (auth_raw nonce k s)"
  using assms by (auto simp: generateAuthResp_def auth_raw_def bind_eq_Some_conv)

lemma generateAuthResp_null_key: "generateAuthResp nonce None salt = None"
  by (simp add: generateAuthResp_def)

lemma strtok_SomeD:
  assumes "strtok ds s = (Some w, r)"
  shows "w \<noteq> [] \<and> set w \<inter> set ds = {}"
proof -
  let ?s = "dropWhile (\<lambda>c. c \<in> set ds) s"
  from assms have w: "w = takeWhile (\<lambda>c. c \<notin> set ds) ?s" and "?s \<noteq> []"
    by (auto simp: strtok_def Let_def split: if_splits)
  then have "hd ?s \<notin> set ds" by (metis hd_dropWhile)
  with w \<open>?s \<noteq> []\<close> show ?thesis
    by (cases ?s) (auto dest: set_takeWhileD)
qed

lemma verify_iff:
  assumes "verifyAuthRespFromMap buff nonce m = Some b"
  shows "b \<longleftrightarrow> (\<exists>k s. k \<noteq> [] \<and> CHR '' '' \<notin> set k \<and> map_get m k = Some s
                  \<and> buff = k @ '' '' @ sha512_hex (auth_raw nonce k s))"
proof
  assume b: b
  obtain key rest where t: "strtok '' '' buff = (key, rest)" by (cases "strtok '' '' buff")
  with assms b obtain k s where k: "key = Some k" and m: "map_get m k = Some s"
    and g: "generateAuthResp nonce (Some k) (Some s) = Some buff"
    by (auto simp: verifyAuthRespFromMap_def Let_def bind_eq_Some_conv split: if_splits option.splits prod.splits)
  have w: "k \<noteq> [] \<and> set k \<inter> set '' '' = {}" using t k strtok_SomeD by blast
  with generateAuthResp_SomeD [OF g] m
  show "\<exists>k s. k \<noteq> [] \<and> CHR '' '' \<notin> set k \<and> map_get m k = Some s \<and> buff = k @ '' '' @ sha512_hex (auth_raw nonce k s)"
    by auto
next
  assume "\<exists>k s. k \<noteq> [] \<and> CHR '' '' \<notin> set k \<and> map_get m k = Some s \<and> buff = k @ '' '' @ sha512_hex (auth_raw nonce k s)"
  then obtain k s where k: "k \<noteq> []" "CHR '' '' \<notin> set k" and m: "map_get m k = Some s"
    and e: "buff = k @ '' '' @ sha512_hex (auth_raw nonce k s)" by blast
  from assms m sha.response_tokens [OF k, of "auth_raw nonce k s"] e obtain r where
    "generateAuthResp nonce (Some k) (Some s) = Some r" "b = (r = buff)"
    by (auto simp: verifyAuthRespFromMap_def bind_eq_Some_conv)
  with generateAuthResp_SomeD [OF _ k(1)] e show b by blast
qed

lemma verify_defined:
  assumes "auth_sizes nonce k s" and "k \<noteq> []" and "CHR '' '' \<notin> set k" and "map_get m k = Some s"
  shows "verifyAuthRespFromMap (k @ '' '' @ sha512_hex x) nonce m =
    Some (sha512_hex (auth_raw nonce k s) = sha512_hex x)"
  using sha.response_tokens [OF assms(2,3), of x] generateAuthResp_value [OF assms(1,2)] assms(4)
  by (simp add: verifyAuthRespFromMap_def)

lemma auth_raw_inj:
  assumes "auth_raw n k s = auth_raw n' k' s'" and "CHR ''|'' \<notin> set n" and "CHR ''|'' \<notin> set n'"
  shows "n = n'"
proof -
  have "takeWhile (\<lambda>c. c \<noteq> CHR ''|'') (auth_raw n k s) = n" if "CHR ''|'' \<notin> set n" for n k s
    using that by (auto simp: auth_raw_def intro: takeWhile_eq_all_conv [THEN iffD2] simp: takeWhile_append)
  with assms show ?thesis by metis
qed

section \<open>Properties\<close>

text \<open>
  (C34) An honest client is accepted: the response it computes from its password
  \<open>key:salt\<close> for the nonce of the challenge verifies against a key store that has that
  salt under that key.
\<close>

theorem auth_complete:
  assumes "key \<noteq> []" and "salt \<noteq> []" and "set key \<inter> {CHR '' '', CHR '':''} = {}" and "CHR '':'' \<notin> set salt"
    and "length (nonce @ ''|'' @ key @ ''|'' @ salt) < 513" and "length key < 471"
    and "map_get store key = Some salt"
  shows "\<exists>resp. generateAuthRespFromPassword nonce (key @ '':'' @ salt) = Some resp
    \<and> verifyAuthRespFromMap resp nonce store = Some True"
proof -
  have sz: "auth_sizes nonce key salt" using assms(5,6) by (simp add: auth_sizes_def auth_raw_def)
  have "strtok '':'' (key @ '':'' @ salt) = (Some key, salt)" "strtok '':'' salt = (Some salt, [])"
    using strtok_word(1) [of key "'':''" "CHR '':''" salt] strtok_word(2) [of salt "'':''" "CHR '':''"] assms(1-4)
    by auto
  then have "generateAuthRespFromPassword nonce (key @ '':'' @ salt) = Some (key @ '' '' @ sha512_hex (auth_raw nonce key salt))"
    using generateAuthResp_value [OF sz assms(1)] by (simp add: generateAuthRespFromPassword_def)
  moreover have "verifyAuthRespFromMap (key @ '' '' @ sha512_hex (auth_raw nonce key salt)) nonce store = Some True"
    using verify_defined [OF sz assms(1) _ assms(7), of "auth_raw nonce key salt"] assms(3) by simp
  ultimately show ?thesis by blast
qed

theorem auth_complete_witness:
  "\<exists>resp. generateAuthRespFromPassword ''nonce'' ''a01:1234'' = Some resp
    \<and> verifyAuthRespFromMap resp ''nonce'' \<lparr>map_start = [(''a01'', ''1234'')], map_count = 1\<rparr> = Some True"
  using auth_complete [of "''a01''" "''1234''" "''nonce''" "\<lparr>map_start = [(''a01'', ''1234'')], map_count = 1\<rparr>"]
  by (simp add: map_get_def map_getItem_def)

text \<open>
  Only the right response is accepted: verification succeeds exactly when the message
  is a stored key, a space and the SHA-512 digest of nonce, key and the salt stored for
  that key.
\<close>

theorem auth_sound:
  assumes "verifyAuthRespFromMap buff nonce store = Some b"
  shows "b \<longleftrightarrow> (\<exists>key salt. key \<noteq> [] \<and> CHR '' '' \<notin> set key \<and> map_get store key = Some salt
    \<and> buff = key @ '' '' @ hex_string (sha512_spec (str_bytes (nonce @ ''|'' @ key @ ''|'' @ salt)))
    \<and> length (nonce @ ''|'' @ key @ ''|'' @ salt) < 513) "
proof -
  have spec: "sha512_hex x = hex_string (sha512_spec (str_bytes x))" if "length x < 513" for x
  proof -
    have "length (str_bytes x) < 2 ^ 61" using that by (simp add: str_bytes_def)
    then show ?thesis using SHA512_Final_spec [of "[str_bytes x]"]
      by (simp add: sha512_hex_def SHA512_End_def)
  qed
  have small: "length (nonce @ ''|'' @ key @ ''|'' @ salt) < 513"
    if "b" "map_get store key = Some salt" "key \<noteq> []" "CHR '' '' \<notin> set key"
      "buff = key @ '' '' @ sha512_hex (auth_raw nonce key salt)" for key salt
    using assms that sha.response_tokens [of key "auth_raw nonce key salt"]
    by (auto simp: verifyAuthRespFromMap_def generateAuthResp_def bind_eq_Some_conv)
  show ?thesis
    using verify_iff [OF assms] small spec unfolding auth_raw_def by metis
qed

theorem auth_sound_witness:
  "verifyAuthRespFromMap ''a01'' ''nonce'' \<lparr>map_start = [(''a01'', ''1234'')], map_count = 1\<rparr> = Some False
   \<and> \<not> (\<exists>key salt. key \<noteq> [] \<and> CHR '' '' \<notin> set key
    \<and> map_get \<lparr>map_start = [(''a01'', ''1234'')], map_count = 1\<rparr> key = Some salt
    \<and> ''a01'' = key @ '' '' @ hex_string (sha512_spec (str_bytes (''nonce'' @ ''|'' @ key @ ''|'' @ salt)))
    \<and> length (''nonce'' @ ''|'' @ key @ ''|'' @ salt) < 513)"
proof -
  have "verifyAuthRespFromMap ''a01'' ''nonce'' \<lparr>map_start = [(''a01'', ''1234'')], map_count = 1\<rparr> = Some False"
    by (simp add: verifyAuthRespFromMap_def strtok_def)
  with auth_sound [OF this] show ?thesis by blast
qed

text \<open>
  (C35) A response captured for one nonce, or made with another salt, is accepted for a
  different challenge only if two different strings have the same SHA-512 digest: the
  verifier's answer is exactly whether those two digests coincide.
\<close>

theorem auth_replay_needs_collision:
  assumes "key \<noteq> []" and "CHR '' '' \<notin> set key" and "map_get store key = Some s2" and "length key < 471"
    and "x = n1 @ ''|'' @ key @ ''|'' @ s1" and "y = n2 @ ''|'' @ key @ ''|'' @ s2"
    and "length x < 513" and "length y < 513"
    and "CHR ''|'' \<notin> set n1" and "CHR ''|'' \<notin> set n2" and "n1 \<noteq> n2 \<or> s1 \<noteq> s2"
  shows "x \<noteq> y \<and> (\<exists>resp. generateAuthResp n1 (Some key) (Some s1) = Some resp
    \<and> verifyAuthRespFromMap resp n2 store = Some (sha512_hex y = sha512_hex x))"
proof -
  have sz: "auth_sizes n1 key s1" "auth_sizes n2 key s2"
    using assms(4-8) by (simp_all add: auth_sizes_def auth_raw_def)
  have xy: "x = auth_raw n1 key s1" "y = auth_raw n2 key s2" using assms(5,6) by (simp_all add: auth_raw_def)
  have "x \<noteq> y"
  proof
    assume e: "x = y"
    then have "n1 = n2" using auth_raw_inj assms(9,10) xy by blast
    with e assms(5,6,11) show False by simp
  qed
  moreover have "verifyAuthRespFromMap (key @ '' '' @ sha512_hex x) n2 store = Some (sha512_hex y = sha512_hex x)"
    using verify_defined [OF sz(2) assms(1,2,3), of x] xy by simp
  ultimately show ?thesis using generateAuthResp_value [OF sz(1) assms(1)] xy by auto
qed

theorem auth_replay_needs_collision_witness:
  "\<exists>resp. generateAuthResp ''n1'' (Some ''k'') (Some ''s'') = Some resp
     \<and> verifyAuthRespFromMap resp ''n2'' \<lparr>map_start = [(''k'', ''s'')], map_count = 1\<rparr> =
         Some (sha512_hex ''n2|k|s'' = sha512_hex ''n1|k|s'')"
  using auth_replay_needs_collision
    [of "''k''" "\<lparr>map_start = [(''k'', ''s'')], map_count = 1\<rparr>" "''s''" "''n1|k|s''" "''n1''" "''s''" "''n2|k|s''" "''n2''"]
  by (simp add: map_get_def map_getItem_def)

text \<open>
  A password without a key part, or an empty one, makes the client dereference a null
  pointer as soon as it has to answer a challenge.
\<close>

theorem auth_password_without_key_faults:
  assumes "CHR '':'' \<notin> set password"
  shows "generateAuthRespFromPassword nonce password = None"
proof (cases "password = []")
  case True
  then show ?thesis by (simp add: generateAuthRespFromPassword_def strtok_def generateAuthResp_null_key)
next
  case False
  have "strtok '':'' password = (Some password, [])" using strtok_word(2) [OF False, of "'':''" "CHR '':''"] assms by simp
  then show ?thesis by (simp add: generateAuthRespFromPassword_def strtok_def generateAuthResp_null_key)
qed

theorem auth_password_without_key_faults_witness: "generateAuthRespFromPassword ''n'' ''1234'' = None"
  by (rule auth_password_without_key_faults) simp

end
