(* ===== verification/Net_Socket.thy ===== *)
theory Net_Socket
  imports HN_Types
begin

text \<open>
  src/netUtils.c: addresses, and the socket layer over the descriptor answers of the state.
  Return codes are those of the source; \<open>None\<close> is a fault.
\<close>

section \<open>Addresses\<close>

text \<open>\<open>inet_pton\<close> and \<open>inet_ntop\<close> for IPv4 (dotted decimal, no leading zeros).\<close>

fun split_at :: "char \<Rightarrow> string \<Rightarrow> string list" where
  "split_at c [] = [[]]"
| "split_at c (x # xs) =
     (if x = c then [] # split_at c xs
      else case split_at c xs of p # ps \<Rightarrow> (x # p) # ps | [] \<Rightarrow> [[x]])"

definition dec_octet :: "string \<Rightarrow> nat option" where
  "dec_octet s =
     (if s \<noteq> [] \<and> list_all is_digit s \<and> length s \<le> 3 \<and> (length s > 1 \<longrightarrow> hd s \<noteq> CHR ''0'')
         \<and> digits_val 0 s \<le> 255
      then Some (nat (digits_val 0 s)) else None)"

definition inet_pton4 :: "string \<Rightarrow> nat option" where
  "inet_pton4 s =
     (case split_at CHR ''.'' s of
        [a, b, c, d] \<Rightarrow> do {
          w \<leftarrow> dec_octet a; x \<leftarrow> dec_octet b; y \<leftarrow> dec_octet c; z \<leftarrow> dec_octet d;
          Some (((w * 256 + x) * 256 + y) * 256 + z) }
      | _ \<Rightarrow> None)"

definition inet_ntop4 :: "nat \<Rightarrow> string" where
  "inet_ntop4 n =
     show_nat (n div 16777216 mod 256) @ ''.'' @ show_nat (n div 65536 mod 256) @ ''.''
     @ show_nat (n div 256 mod 256) @ ''.'' @ show_nat (n mod 256)"

definition ipAddr_isIpv4 :: "sockaddr \<Rightarrow> bool" where
  "ipAddr_isIpv4 ip \<longleftrightarrow> sa_family ip = AF_INET"

definition ipAddr_getPort :: "sockaddr \<Rightarrow> int" where
  "ipAddr_getPort ip = uint (sin_port ip)"

definition ipAddr_setPort :: "sockaddr \<Rightarrow> int \<Rightarrow> sockaddr" where
  "ipAddr_setPort ip port = ip\<lparr>sin_port := of_int port\<rparr>"

text \<open>
  All addresses of the program are in structs of 16 bytes, but the 16 bytes of an IPv6 address
  begin at the eighth.  Text that is an IPv6 address is therefore stored beyond the struct.  What
  is printed for an address that is not IPv4 is the parameter \<open>inet_ntop6\<close>.
\<close>

definition ipAddr_getIp :: "os \<Rightarrow> sockaddr \<Rightarrow> string" where
  "ipAddr_getIp os ip = (if ipAddr_isIpv4 ip then inet_ntop4 (sin_addr ip) else inet_ntop6 os (sin_addr ip))"

definition ipAddr_setIp :: "os \<Rightarrow> sockaddr \<Rightarrow> string \<Rightarrow> (bool \<times> sockaddr) option" where
  "ipAddr_setIp os ip addr =
     (if addr = ''localhost'' then Some (True, ip\<lparr>sin_addr := 0\<rparr>)
      else if ipAddr_isIpv4 ip
           then Some (case inet_pton4 addr of None \<Rightarrow> (False, ip) | Some a \<Rightarrow> (True, ip\<lparr>sin_addr := a\<rparr>))
      else case inet_pton6 os addr of None \<Rightarrow> Some (False, ip) | Some a \<Rightarrow> None)"

definition ipAddr_toString :: "os \<Rightarrow> sockaddr \<Rightarrow> string" where
  "ipAddr_toString os ip =
     (let port = ipAddr_getPort ip in
      if ipAddr_isIpv4 ip \<and> port > 0 then ipAddr_getIp os ip @ '':'' @ int_toString port
      else if port > 0 then ''['' @ ipAddr_getIp os ip @ '']:'' @ int_toString port
      else ipAddr_getIp os ip)"

text \<open>The length test is the wrong way round: no IPv4 address has 16 characters.\<close>

definition str_getIpAddrType :: "string \<Rightarrow> family option" where
  "str_getIpAddrType addr =
     (if addr = ''localhost'' then Some AF_INET
      else do {
        cpy \<leftarrow> fits IPADDR_SIZE addr;
        let rest = snd (str_split cpy ''.'');
        Some (if length addr \<ge> INET_ADDRSTRLEN \<and> fst (str_split rest ''.'') \<noteq> None then AF_INET else AF_INET6) })"

text \<open>The struct is filled with the character 0 (0x30) first.\<close>

definition ipAddr_init :: "os \<Rightarrow> family \<Rightarrow> string option \<Rightarrow> int \<Rightarrow> (bool \<times> sockaddr) option" where
  "ipAddr_init os ty addr port = do {
     fam \<leftarrow> (if ty = AF_UNSPEC then Option.bind addr str_getIpAddrType else Some ty);
     let ip0 = \<lparr>sa_family = fam, sin_port = 0x3030, sin_addr = 0x30303030\<rparr>;
     let ip1 = (if port \<ge> 0 then ipAddr_setPort ip0 port else ip0);
     case addr of None \<Rightarrow> Some (True, ip1) | Some a \<Rightarrow> ipAddr_setIp os ip1 a }"

definition token_port :: "string option \<Rightarrow> int option" where
  "token_port tok = (case tok of None \<Rightarrow> Some 0 | Some p \<Rightarrow> str_toInt p)"

definition str_toIpAddr :: "os \<Rightarrow> string \<Rightarrow> (bool \<times> sockaddr) option" where
  "str_toIpAddr os str =
     (if take 1 str = ''['' then
        (if CHR '']'' \<in> set str then
           (let a = takeWhile (\<lambda>c. c \<noteq> CHR '']'') (drop 1 str);
                rest = drop 1 (dropWhile (\<lambda>c. c \<noteq> CHR '']'') str)
            in do {
              addr \<leftarrow> fits IPADDR_SIZE a;
              port \<leftarrow> token_port (fst (str_split rest '':''));
              ipAddr_init os AF_INET6 (Some addr) port })
         else None)
      else if count_list str CHR '':'' > 1 then do {
        addr \<leftarrow> fits IPADDR_SIZE str;
        ipAddr_init os AF_INET6 (Some addr) 0 }
      else
        (let (t1, rest) = str_split str '':'' in do {
           a \<leftarrow> t1;
           addr \<leftarrow> fits IPADDR_SIZE a;
           port \<leftarrow> token_port (fst (str_split rest '':''));
           ipAddr_init os AF_INET (Some addr) port }))"

definition isDomainName :: "string \<Rightarrow> bool" where
  "isDomainName str \<longleftrightarrow>
     count_list str CHR ''.'' \<noteq> 0 \<and> \<not> length str < 3 \<and> count_list str CHR ''/'' = 0 \<and> count_list str CHR '':'' = 0"

definition dns_getIpAddr :: "os \<Rightarrow> string \<Rightarrow> sockaddr option" where
  "dns_getIpAddr os str =
     map_option (\<lambda>a. \<lparr>sa_family = AF_INET, sin_port = 80, sin_addr = a\<rparr>) (gethostbyname os str)"

section \<open>System calls on the state\<close>

definition os_write :: "int \<Rightarrow> string \<Rightarrow> hn \<Rightarrow> int \<times> hn" where
  "os_write f data st =
     (case wscript st f of
        [] \<Rightarrow> (int (length data), st\<lparr>outbox := (outbox st)(f := outbox st f @ data)\<rparr>)
      | k # ks \<Rightarrow>
          (let st' = st\<lparr>wscript := (wscript st)(f := ks)\<rparr> in
           if k \<le> 0 then (k, st')
           else let d = take (nat k) data
                in (int (length d), st'\<lparr>outbox := (outbox st)(f := outbox st f @ d)\<rparr>)))"

text \<open>
  The result of \<open>recv\<close> is its return value, the bytes and whether a failure was only that no
  data is available.  An exhausted script means no data; a closed peer stays closed.
\<close>

definition os_recv :: "int \<Rightarrow> nat \<Rightarrow> hn \<Rightarrow> int \<times> string \<times> bool \<times> hn" where
  "os_recv f mx st =
     (case inbox st f of
        [] \<Rightarrow> (- 1, [], True, st)
      | Recv d # as \<Rightarrow>
          (let as' = (if length d > mx then Recv (drop mx d) # as else as)
           in (int (length (take mx d)), take mx d, False, st\<lparr>inbox := (inbox st)(f := as')\<rparr>))
      | Recv_closed # as \<Rightarrow> (0, [], False, st)
      | Recv_again # as \<Rightarrow> (- 1, [], True, st\<lparr>inbox := (inbox st)(f := as)\<rparr>)
      | Recv_error # as \<Rightarrow> (- 1, [], False, st\<lparr>inbox := (inbox st)(f := as)\<rparr>))"

section \<open>Socket operations\<close>

definition sock_init :: "sock_type \<Rightarrow> int \<Rightarrow> Socket" where
  "sock_init ty f =
     \<lparr>fd = f, sock_kind = ty, ipAddr = \<lparr>sa_family = AF_UNSPEC, sin_port = 0, sin_addr = 0\<rparr>,
      isServer = False, isBlocking = True, isAlive = SOCKET_ALIVE, listenForWritable = False,
      listenForReadable = True, writeBuffer = buffer_init NUL DEFAULT_BUFFER_SIZE, ptr = None\<rparr>"

definition sock_cleanup :: "sock_ptr \<Rightarrow> hn \<Rightarrow> hn option" where
  "sock_cleanup p st = upd_sock p (\<lambda>s. s\<lparr>writeBuffer := buffer_cleanup (writeBuffer s)\<rparr>) st"

text \<open>\<open>fcntl\<close> succeeds on a descriptor that is not negative.\<close>

definition sock_setNonBlocking :: "sock_ptr \<Rightarrow> hn \<Rightarrow> (bool \<times> hn) option" where
  "sock_setNonBlocking p st = do {
     s \<leftarrow> the_sock st p;
     if fd s < 0 then Some (False, st)
     else do { st' \<leftarrow> upd_sock p (\<lambda>s. s\<lparr>isBlocking := False\<rparr>) st; Some (True, st') } }"

definition sock_setBlocking :: "sock_ptr \<Rightarrow> hn \<Rightarrow> (bool \<times> hn) option" where
  "sock_setBlocking p st = do {
     s \<leftarrow> the_sock st p;
     if fd s < 0 then Some (False, st)
     else do { st' \<leftarrow> upd_sock p (\<lambda>s. s\<lparr>isBlocking := True\<rparr>) st; Some (True, st') } }"

definition sock_setTimeout :: "sock_ptr \<Rightarrow> hn \<Rightarrow> bool option" where
  "sock_setTimeout p st = do { s \<leftarrow> the_sock st p; Some (fd s \<ge> 0) }"

definition sock_close :: "sock_ptr \<Rightarrow> hn \<Rightarrow> (bool \<times> hn) option" where
  "sock_close p st = do {
     s \<leftarrow> the_sock st p;
     if isAlive s = SOCKET_DEAD then Some (False, st)
     else do {
       st' \<leftarrow> upd_sock p (\<lambda>s. s\<lparr>isAlive := SOCKET_DEAD\<rparr>) st;
       Some (True, st'\<lparr>closedFds := closedFds st' @ [fd s]\<rparr>) } }"

definition sock_done :: "sock_ptr \<Rightarrow> hn \<Rightarrow> (alive \<times> hn) option" where
  "sock_done p st = do {
     s \<leftarrow> the_sock st p;
     if isAlive s \<noteq> SOCKET_DEAD then do {
       st1 \<leftarrow> upd_sock p (\<lambda>s. s\<lparr>isAlive := SOCKET_WILLDIE\<rparr>) st;
       if buffer_isEmpty (writeBuffer s) then do {
         (r, st2) \<leftarrow> sock_close p st1;
         Some (SOCKET_DEAD, st2) }
       else do {
         st2 \<leftarrow> upd_sock p (\<lambda>s. s\<lparr>listenForWritable := True\<rparr>) st1;
         Some (SOCKET_WILLDIE, st2) } }
     else Some (SOCKET_DEAD, st) }"

text \<open>The write loop of a blocking socket: until all is written or \<open>write\<close> gives up.\<close>

lemma os_write_progress: "os_write f data st = (w, st') \<Longrightarrow> 0 < w \<Longrightarrow> data \<noteq> []"
  by (auto simp: os_write_def Let_def split: list.splits if_splits)

function write_loop :: "int \<Rightarrow> string \<Rightarrow> hn \<Rightarrow> int \<times> string \<times> hn" where
  "write_loop f data st =
     (if data = [] then (0, [], st)
      else let (w, st') = os_write f data st in
           if w \<le> 0 then (0, data, st')
           else let (d, left, st'') = write_loop f (drop (nat w) data) st' in (w + d, left, st''))"
  by pat_completeness auto
termination
  by (relation "measure (\<lambda>(f, data, st). length data)") (auto dest: os_write_progress)

declare write_loop.simps [simp del]

text \<open>
  The loop that pushes pending bytes of a non-blocking socket.  Every call of
  \<open>buffer_readChar\<close> passes the buffer again and so addresses the first pending byte \<open>c\<close>; it
  never returns a null pointer, and the loop ends only when \<open>write\<close> returns 0.  When no
  such answer is to come the loop does not end, which is \<open>None\<close>.
\<close>

fun drain_loop :: "char \<Rightarrow> int list \<Rightarrow> int \<Rightarrow> string \<Rightarrow> (int \<times> string \<times> int list) option" where
  "drain_loop c [] doneCount sent = None"
| "drain_loop c (k # ks) doneCount sent =
     (if k = 0 then Some (doneCount, sent, ks)
      else drain_loop c ks (doneCount + 1) (if k > 0 then sent @ [c] else sent))"

definition drain :: "sock_ptr \<Rightarrow> Socket \<Rightarrow> hn \<Rightarrow> hn option" where
  "drain p s st = do {
     c \<leftarrow> rd (buf_data (writeBuffer s)) (buf_startIndex (writeBuffer s));
     (doneCount, sent, ks) \<leftarrow> drain_loop c (wscript st (fd s)) 0 [];
     let b = snd (buffer_clear (writeBuffer s) doneCount);
     upd_sock p (\<lambda>s. s\<lparr>writeBuffer := b, listenForWritable := \<not> buffer_isEmpty b\<rparr>)
       (st\<lparr>wscript := (wscript st)(fd s := ks), outbox := (outbox st)(fd s := outbox st (fd s) @ sent)\<rparr>) }"

definition sock_write :: "sock_ptr \<Rightarrow> string \<Rightarrow> hn \<Rightarrow> (int \<times> hn) option" where
  "sock_write p data st = do {
     s \<leftarrow> the_sock st p;
     if isAlive s = SOCKET_DEAD then Some (0, st)
     else if isBlocking s then (let (d, left, st') = write_loop (fd s) data st in Some (d, st'))
     else if \<not> buffer_isEmpty (writeBuffer s) then do { st' \<leftarrow> drain p s st; Some (0, st') }
     else do {
       st1 \<leftarrow> upd_sock p (\<lambda>s. s\<lparr>listenForWritable := False\<rparr>) st;
       let (d, left, st2) = write_loop (fd s) data st1;
       if left \<noteq> [] then do {
         (stored, b) \<leftarrow> buffer_write (writeBuffer s) left (int (length left));
         st3 \<leftarrow> upd_sock p (\<lambda>s. s\<lparr>writeBuffer := b, listenForWritable := True\<rparr>) st2;
         Some (stored + d, st3) }
       else if isAlive s = SOCKET_WILLDIE then do { (r, st3) \<leftarrow> sock_close p st2; Some (d, st3) }
       else Some (d, st2) } }"

text \<open>The read loop of a non-blocking socket collects up to \<open>mx\<close> bytes.\<close>

function read_loop :: "sock_ptr \<Rightarrow> int \<Rightarrow> nat \<Rightarrow> hn \<Rightarrow> (string \<times> hn) option" where
  "read_loop p f mx st =
     (if mx = 0 then Some ([], st)
      else let (rc, d, again, st') = os_recv f mx st in
           if rc < 0 then (if again then Some ([], st') else do { (r, st'') \<leftarrow> sock_close p st'; Some ([], st'') })
           else if rc = 0 then do { (r, st'') \<leftarrow> sock_close p st'; Some ([], st'') }
           else do { (ds, st'') \<leftarrow> read_loop p f (mx - nat rc) st'; Some (d @ ds, st'') })"
  by pat_completeness auto
termination
  by (relation "measure (\<lambda>(p, f, mx, st). mx)") auto

declare read_loop.simps [simp del]

text \<open>The result is the return value and the bytes stored.\<close>

definition sock_read :: "nat \<Rightarrow> sock_ptr \<Rightarrow> hn \<Rightarrow> (int \<times> string \<times> hn) option" where
  "sock_read mx p st = do {
     s \<leftarrow> the_sock st p;
     if isAlive s = SOCKET_DEAD then Some (0, [], st)
     else if isBlocking s then (let (rc, d, again, st') = os_recv (fd s) mx st in Some (rc, d, st'))
     else do { (d, st') \<leftarrow> read_loop p (fd s) mx st; Some (int (length d), d, st') } }"

definition sock_getMyIpAddr :: "os \<Rightarrow> Socket \<Rightarrow> int \<times> sockaddr" where
  "sock_getMyIpAddr os s = (let ip = getsockname os (fd s) in (if sa_family ip = AF_INET6 then 28 else 16, ip))"

definition sock_acceptNew :: "sock_ptr \<Rightarrow> hn \<Rightarrow> (Socket option \<times> hn) option" where
  "sock_acceptNew server st = do {
     s \<leftarrow> the_sock st server;
     if \<not> isServer s \<or> isAlive s = SOCKET_DEAD then Some (None, st)
     else case accepts st of
            [] \<Rightarrow> Some (None, st)
          | None # as \<Rightarrow> do { (r, st') \<leftarrow> sock_close server (st\<lparr>accepts := as\<rparr>); Some (None, st') }
          | Some (f, ip) # as \<Rightarrow> Some (Some ((sock_init TCPSOCKET f)\<lparr>ipAddr := ip\<rparr>), st\<lparr>accepts := as\<rparr>) }"

definition createTcpConnection :: "sock_ptr \<Rightarrow> sockaddr \<Rightarrow> hn \<Rightarrow> (bool \<times> hn) option" where
  "createTcpConnection p ip st =
     (case conns st of
        [] \<Rightarrow> Some (False, st)
      | (f, ok) # cs \<Rightarrow>
          if f < 0 then Some (False, st\<lparr>conns := cs\<rparr>)
          else do {
            st' \<leftarrow> upd_sock p (\<lambda>s. s\<lparr>fd := f, isAlive := SOCKET_ALIVE, ipAddr := ip\<rparr>) (st\<lparr>conns := cs\<rparr>);
            Some (ok, st') })"

text \<open>The results of \<open>bind\<close> and \<open>listen\<close> are not looked at.\<close>

definition createTcpServer :: "os \<Rightarrow> int \<Rightarrow> hn \<Rightarrow> (Socket option \<times> hn) option" where
  "createTcpServer os port st =
     (case conns st of
        [] \<Rightarrow> Some (None, st)
      | (f, ok) # cs \<Rightarrow>
          if f < 0 then Some (None, st\<lparr>conns := cs\<rparr>)
          else do {
            (r, ip) \<leftarrow> ipAddr_init os AF_INET (Some ''localhost'') port;
            Some (Some ((sock_init TCPSOCKET f)\<lparr>isServer := True, ipAddr := ip\<rparr>), st\<lparr>conns := cs\<rparr>) })"

definition createTcpSocket :: "hn \<Rightarrow> sock_ptr \<times> hn" where
  "createTcpSocket st = alloc_sock (sock_init TCPSOCKET (- 1)) st"

lemma sock_init_buffer [simp]:
  "buf_ok (writeBuffer (sock_init ty f))" "buf_size (writeBuffer (sock_init ty f)) = 0"
  using buffer_init_ok [of NUL DEFAULT_BUFFER_SIZE] by (auto simp: sock_init_def buffer_init_def Let_def)

section \<open>What a write does\<close>

lemma os_write_spec:
  assumes "os_write f d st = (w, st')" and "0 < w"
  shows "\<exists>ws. st' = st\<lparr>wscript := (wscript st)(f := ws), outbox := (outbox st)(f := outbox st f @ take (nat w) d)\<rparr>
    \<and> nat w \<le> length d \<and> set ws \<subseteq> set (wscript st f)"
proof (cases "wscript st f")
  case Nil
  with assms(1) have w: "w = int (length d)" and st': "st' = st\<lparr>outbox := (outbox st)(f := outbox st f @ d)\<rparr>"
    by (auto simp: os_write_def)
  have "(wscript st)(f := []) = wscript st" using Nil by auto
  with w st' Nil show ?thesis by (intro exI [of _ "[]"]) simp
next
  case (Cons k ks)
  with assms show ?thesis by (intro exI [of _ ks]) (auto simp: os_write_def Let_def min_def split: if_splits)
qed

lemma write_loop_spec:
  "write_loop f d st = (n, l, st') \<Longrightarrow>
   \<exists>k ws. n = int k \<and> k \<le> length d \<and> l = drop k d
     \<and> st' = st\<lparr>wscript := (wscript st)(f := ws), outbox := (outbox st)(f := outbox st f @ take k d)\<rparr>
     \<and> ((\<forall>w\<in>set (wscript st f). 0 < w) \<longrightarrow> k = length d \<and> (\<forall>w\<in>set ws. 0 < w))"
proof (induction f d st arbitrary: n l st' rule: write_loop.induct)
  case (1 f d st)
  show ?case
  proof (cases "d = []")
    case True
    with 1(2) show ?thesis by (intro exI [of _ 0] exI [of _ "wscript st f"]) (simp add: write_loop.simps [of f "[]" st])
  next
    case False
    obtain w st1 where w: "os_write f d st = (w, st1)" by (cases "os_write f d st")
    show ?thesis
    proof (cases "w \<le> 0")
      case True
      with w False obtain k ks where "wscript st f = k # ks" "k \<le> 0" "st1 = st\<lparr>wscript := (wscript st)(f := ks)\<rparr>"
        by (auto simp: os_write_def Let_def min_def split: list.splits if_splits)
      with True False w 1(2) show ?thesis
        by (intro exI [of _ 0] exI [of _ ks]) (auto simp: write_loop.simps [of f d st] fun_upd_def)
    next
      case pos: False
      obtain n1 l1 st2 where r: "write_loop f (drop (nat w) d) st1 = (n1, l1, st2)"
        by (cases "write_loop f (drop (nat w) d) st1")
      with 1(2) False w pos have e: "n = w + n1" "l = l1" "st' = st2" by (auto simp: write_loop.simps [of f d st])
      from os_write_spec [OF w] pos obtain ws1 where s1: "st1 = st\<lparr>wscript := (wscript st)(f := ws1),
          outbox := (outbox st)(f := outbox st f @ take (nat w) d)\<rparr>" and le: "nat w \<le> length d"
        and ws1: "set ws1 \<subseteq> set (wscript st f)"
        by (meson not_le)
      from 1(1) [OF False w [symmetric] refl pos r, unfolded length_drop] obtain k ws where k: "n1 = int k" "k \<le> length d - nat w"
        "l1 = drop k (drop (nat w) d)" and st2: "st2 = st1\<lparr>wscript := (wscript st1)(f := ws),
          outbox := (outbox st1)(f := outbox st1 f @ take k (drop (nat w) d))\<rparr>"
        and p: "(\<forall>w\<in>set (wscript st1 f). 0 < w) \<longrightarrow> k = length d - nat w \<and> (\<forall>w\<in>set ws. 0 < w)"
        by blast
      show ?thesis
      proof (intro exI [of _ "nat w + k"] exI [of _ ws] conjI)
        show "n = int (nat w + k)" using e k pos by simp
        show "nat w + k \<le> length d" using k le by simp
        show "l = drop (nat w + k) d" using e k by (simp add: add.commute)
        show "st' = st\<lparr>wscript := (wscript st)(f := ws), outbox := (outbox st)(f := outbox st f @ take (nat w + k) d)\<rparr>"
          using e st2 s1 by (simp add: take_add)
        show "(\<forall>w\<in>set (wscript st f). 0 < w) \<longrightarrow> nat w + k = length d \<and> (\<forall>w\<in>set ws. 0 < w)"
          using p ws1 s1 le by auto
      qed
    qed
  qed
qed

lemma drain_loop_stuck: "0 \<notin> set ks \<Longrightarrow> drain_loop c ks n sent = None"
  by (induction ks arbitrary: n sent) auto

lemma drain_loop_ends:
  "0 \<notin> set ks \<Longrightarrow> drain_loop c (ks @ 0 # ks') n sent
     = Some (n + int (length ks), sent @ replicate (length (filter (\<lambda>k. 0 < k) ks)) c, ks')"
  by (induction ks arbitrary: n sent) (auto simp: replicate_append_same)

lemma rd_first_pending:
  assumes "buf_ok b" and "buf_size b > 0"
  shows "rd (buf_data b) (buf_startIndex b) = Some (hd (buf_contents b))"
proof -
  from assms(1) obtain cap s k where f: "length (buf_data b) = cap" "buf_capacity b = int cap"
    "buf_startIndex b = int s" "buf_size b = int k" "s < cap" "k \<le> cap" by (rule buf_okE)
  with assms(2) have "0 < k" by simp
  with f show ?thesis by (simp add: buf_contents_def ring_slice_def upt_conv_Cons)
qed

text \<open>
  (C38) A write on a live non-blocking socket with nothing pending loses nothing while the
  write buffer has room: for some \<open>k\<close>, the first \<open>k\<close> bytes go to the descriptor, the others,
  as many as fit, become the contents of the write buffer, the result counts both, and the
  socket asks for writability exactly when bytes are left.
\<close>

theorem sock_write_conserves:
  assumes "socks st p = Some s" and "isAlive s = SOCKET_ALIVE" and "\<not> isBlocking s"
    and "buf_ok (writeBuffer s)" and "buf_size (writeBuffer s) = 0"
  shows "\<exists>k m st' s'. sock_write p d st = Some (int (k + m), st') \<and> k \<le> length d
    \<and> outbox st' = (outbox st)(fd s := outbox st (fd s) @ take k d)
    \<and> socks st' p = Some s' \<and> buf_contents (writeBuffer s') = take m (drop k d)
    \<and> m = min (length d - k) (nat (buf_capacity (writeBuffer s)))
    \<and> listenForWritable s' = (k < length d)
    \<and> ((\<forall>w\<in>set (wscript st (fd s)). 0 < w) \<longrightarrow> k = length d)"
proof -
  define st1 where "st1 = st\<lparr>socks := (socks st)(p \<mapsto> s\<lparr>listenForWritable := False\<rparr>)\<rparr>"
  obtain n l st2 where w: "write_loop (fd s) d st1 = (n, l, st2)" by (cases "write_loop (fd s) d st1")
  from write_loop_spec [OF w] obtain k ws where k: "n = int k" "k \<le> length d" "l = drop k d"
    and st2: "st2 = st1\<lparr>wscript := (wscript st1)(fd s := ws), outbox := (outbox st1)(fd s := outbox st1 (fd s) @ take k d)\<rparr>"
    and all: "(\<forall>w\<in>set (wscript st (fd s)). 0 < w) \<longrightarrow> k = length d"
    by (auto simp: st1_def)
  have e: "buffer_isEmpty (writeBuffer s)" using assms(5) by (simp add: buffer_isEmpty_def)
  have u: "upd_sock p (\<lambda>s. s\<lparr>listenForWritable := False\<rparr>) st = Some st1"
    using assms(1) by (simp add: upd_sock_def st1_def)
  have c0: "buf_contents (writeBuffer s) = []" using assms(5) by (simp add: buf_contents_def ring_slice_def)
  show ?thesis
  proof (cases "l = []")
    case True
    with assms e u w have "sock_write p d st = Some (n, st2)" by (simp add: sock_write_def the_sock_def)
    with True k st2 all c0 show ?thesis
      by (intro exI [of _ k] exI [of _ 0] exI [of _ st2] exI [of _ "s\<lparr>listenForWritable := False\<rparr>"]) (auto simp: st1_def)
  next
    case False
    define m where "m = min (length l) (nat (buffer_getFreeSpace (writeBuffer s)))"
    from buffer_write_front [OF assms(4) le_refl m_def] obtain b where
      b: "buffer_write (writeBuffer s) l (int (length l)) = Some (int m, b)"
      "take m (buf_contents b) = take m l" "buf_size b = buf_size (writeBuffer s) + int m" by blast
    have bc: "buf_contents b = take m l" using b assms(5) by (simp add: buf_contents_def)
    define s3 where "s3 = s\<lparr>writeBuffer := b, listenForWritable := True\<rparr>"
    have u2: "upd_sock p (\<lambda>s. s\<lparr>writeBuffer := b, listenForWritable := True\<rparr>) st2 = Some (st2\<lparr>socks := (socks st2)(p \<mapsto> s3)\<rparr>)"
      by (simp add: upd_sock_def st2 st1_def s3_def)
    have "sock_write p d st = Some (int m + n, st2\<lparr>socks := (socks st2)(p \<mapsto> s3)\<rparr>)"
      using assms e u w False b(1) u2 by (simp add: sock_write_def the_sock_def)
    with False k st2 all bc show ?thesis
      by (intro exI [of _ k] exI [of _ m] exI [of _ "st2\<lparr>socks := (socks st2)(p \<mapsto> s3)\<rparr>"] exI [of _ s3])
         (auto simp: st1_def s3_def m_def buffer_getFreeSpace_def assms(5))
  qed
qed

theorem sock_write_conserves_witness:
  "sock_write 1 ''abc''
     (hn_idle\<lparr>socks := Map.empty(1 \<mapsto> (sock_init TCPSOCKET 5)\<lparr>isBlocking := False\<rparr>), wscript := (\<lambda>_. [2, -1])\<rparr>)
   \<noteq> None"
proof -
  let ?s = "(sock_init TCPSOCKET 5)\<lparr>isBlocking := False\<rparr>"
  let ?st = "hn_idle\<lparr>socks := Map.empty(1 \<mapsto> ?s), wscript := (\<lambda>_. [2, -1])\<rparr>"
  have "\<exists>k m st' s'. sock_write 1 ''abc'' ?st = Some (int (k + m), st') \<and> k \<le> length ''abc''
    \<and> outbox st' = (outbox ?st)(fd ?s := outbox ?st (fd ?s) @ take k ''abc'')
    \<and> socks st' 1 = Some s' \<and> buf_contents (writeBuffer s') = take m (drop k ''abc'')
    \<and> m = min (length ''abc'' - k) (nat (buf_capacity (writeBuffer ?s)))
    \<and> listenForWritable s' = (k < length ''abc'')
    \<and> ((\<forall>w\<in>set (wscript ?st (fd ?s)). 0 < w) \<longrightarrow> k = length ''abc'')"
    by (rule sock_write_conserves) (simp_all, simp_all add: sock_init_def)
  then show ?thesis by (elim exE conjE) (simp only: option.distinct not_False_eq_True)
qed

text \<open>
  With bytes pending, a write on a live non-blocking socket only ever sends copies of
  the first pending byte, one per positive answer of the kernel, until the kernel answers 0;
  without such an answer it does not return.  The new data is dropped.
\<close>

theorem sock_write_pending_repeats:
  assumes "socks st p = Some s" and "isAlive s \<noteq> SOCKET_DEAD" and "\<not> isBlocking s"
    and "buf_ok (writeBuffer s)" and "0 < buf_size (writeBuffer s)"
  shows "(0 \<notin> set (wscript st (fd s)) \<longrightarrow> sock_write p d st = None)
    \<and> (\<forall>ks ks'. wscript st (fd s) = ks @ 0 # ks' \<and> 0 \<notin> set ks \<longrightarrow>
         (\<exists>st'. sock_write p d st = Some (0, st')
            \<and> outbox st' (fd s) = outbox st (fd s)
                @ replicate (length (filter (\<lambda>k. 0 < k) ks)) (hd (buf_contents (writeBuffer s)))))"
proof -
  have ne: "\<not> buffer_isEmpty (writeBuffer s)" using assms(5) by (simp add: buffer_isEmpty_def)
  note r = rd_first_pending [OF assms(4,5)]
  have w: "sock_write p d st = do { st' \<leftarrow> drain p s st; Some (0, st') }"
    using assms ne by (simp add: sock_write_def the_sock_def)
  show ?thesis using assms(1) r
    by (auto simp: w drain_def drain_loop_stuck drain_loop_ends upd_sock_def Let_def)
qed

theorem sock_write_pending_repeats_witness:
  "sock_write 1 ''x''
     (hn_idle\<lparr>socks := Map.empty(1 \<mapsto> (sock_init TCPSOCKET 5)\<lparr>isBlocking := False,
        writeBuffer := \<lparr>buf_data = ''ab'', buf_size = 2, buf_capacity = 2, buf_startIndex = 0\<rparr>\<rparr>), wscript := (\<lambda>_. [1, 1])\<rparr>)
   = None"
proof -
  let ?s = "(sock_init TCPSOCKET 5)\<lparr>isBlocking := False,
     writeBuffer := \<lparr>buf_data = ''ab'', buf_size = 2, buf_capacity = 2, buf_startIndex = 0\<rparr>\<rparr>"
  show ?thesis
    using sock_write_pending_repeats [of "hn_idle\<lparr>socks := Map.empty(1 \<mapsto> ?s), wscript := (\<lambda>_. [1, 1])\<rparr>" 1 ?s]
    by (simp add: sock_init_def buf_ok_def)
qed

section \<open>Addresses round trip\<close>

lemma split_at_free: "c \<notin> set a \<Longrightarrow> split_at c a = [a]"
  by (induction a) auto

lemma split_at_append: "c \<notin> set a \<Longrightarrow> split_at c (a @ c # b) = a # split_at c b"
  by (induction a) auto

lemma show_nat_short: "n < 10 ^ Suc k \<Longrightarrow> length (show_nat n) \<le> Suc k"
proof (induction k arbitrary: n)
  case 0
  then show ?case by (simp add: show_nat.simps [of n])
next
  case (Suc k)
  from Suc.prems have "n div 10 < 10 ^ Suc k" by (simp add: less_mult_imp_div_less)
  from Suc.IH [OF this] show ?case by (simp add: show_nat.simps [of n])
qed

lemma show_nat_hd: "0 < n \<Longrightarrow> hd (show_nat n) \<noteq> CHR ''0''"
proof (induction n rule: show_nat.induct)
  case (1 n)
  show ?case
  proof (cases "n < 10")
    case True
    have "char_of (48 + n) \<noteq> CHR ''0''"
    proof
      assume "char_of (48 + n) = CHR ''0''"
      then have "(of_char (char_of (48 + n)) :: nat) = of_char CHR ''0''" by (simp only:)
      with 1(2) True show False by simp
    qed
    with True show ?thesis by (simp add: show_nat.simps [of n])
  next
    case False
    with 1 show_nat_digits [of "n div 10"] show ?thesis by (simp add: show_nat.simps [of n])
  qed
qed

lemma octet_show:
  assumes "n < 256"
  shows "dec_octet (show_nat n) = Some n" and "length (show_nat n) \<le> 3"
proof -
  show l: "length (show_nat n) \<le> 3" using show_nat_short [of n 2] assms by (simp add: numeral_3_eq_3)
  have "hd (show_nat n) \<noteq> CHR ''0''" if "1 < length (show_nat n)"
    using that show_nat_hd [of n] by (cases "n = 0") (auto simp: show_nat.simps [of 0])
  with l assms show_nat_digits [of n] digits_val_show_nat [of n] show "dec_octet (show_nat n) = Some n"
    by (simp add: dec_octet_def)
qed

lemma show_nat_no_punct: "c \<in> set (show_nat n) \<Longrightarrow> is_digit c"
  using show_nat_digits [of n] by (auto simp: list_all_iff)

lemma punct_no_digit: "\<not> is_digit CHR ''.''" "\<not> is_digit CHR '':''" "\<not> is_digit CHR ''[''" "\<not> is_digit CHR ''l''"
  by (simp_all add: is_digit_def)

lemma octet_sum:
  assumes "n < 4294967296"
  shows "((n div 16777216 mod 256 * 256 + n div 65536 mod 256) * 256 + n div 256 mod 256) * 256 + n mod 256 = (n :: nat)"
proof -
  have a: "n div 65536 = n div 256 div 256" "n div 16777216 = n div 65536 div 256" by (simp_all add: div_mult2_eq)
  have "n div 16777216 mod 256 = n div 16777216" using assms by (intro mod_less) (simp add: less_mult_imp_div_less)
  then have "n div 16777216 mod 256 * 256 + n div 65536 mod 256 = n div 65536" unfolding a(2) by simp
  moreover have "n div 65536 * 256 + n div 256 mod 256 = n div 256" unfolding a(1) by simp
  moreover have "n div 256 * 256 + n mod 256 = n" by simp
  ultimately show ?thesis by (simp only:)
qed

lemma inet_pton_ntop: "n < 4294967296 \<Longrightarrow> inet_pton4 (inet_ntop4 n) = Some n"
proof -
  assume n: "n < 4294967296"
  have d: "CHR ''.'' \<notin> set (show_nat k)" for k using show_nat_no_punct punct_no_digit by blast
  have o: "dec_octet (show_nat (k mod 256)) = Some (k mod 256)" for k by (rule octet_show) simp
  have "split_at CHR ''.'' (inet_ntop4 n) = [show_nat (n div 16777216 mod 256), show_nat (n div 65536 mod 256),
      show_nat (n div 256 mod 256), show_nat (n mod 256)]"
    by (simp only: inet_ntop4_def append_Cons append_Nil split_at_append [OF d] split_at_free [OF d])
  then show ?thesis
    by (simp only: inet_pton4_def list.case o bind.bind_lunit octet_sum [OF n])
qed

lemma inet_ntop4_shape:
  "CHR '':'' \<notin> set (inet_ntop4 n)" "length (inet_ntop4 n) \<le> 15" "\<exists>c cs. inet_ntop4 n = c # cs \<and> is_digit c"
proof -
  show "CHR '':'' \<notin> set (inet_ntop4 n)"
    using show_nat_no_punct punct_no_digit by (auto simp: inet_ntop4_def)
  have l: "length (show_nat (k mod 256)) \<le> 3" for k by (rule octet_show) simp
  show "length (inet_ntop4 n) \<le> 15"
    using l [of "n div 16777216"] l [of "n div 65536"] l [of "n div 256"] l [of n]
    unfolding inet_ntop4_def length_append list.size by linarith
  obtain c cs where "show_nat (n div 16777216 mod 256) = c # cs" "is_digit c"
    using show_nat_digits [of "n div 16777216 mod 256"] by (cases "show_nat (n div 16777216 mod 256)") auto
  then show "\<exists>c cs. inet_ntop4 n = c # cs \<and> is_digit c" by (simp add: inet_ntop4_def)
qed


lemma str_toInt_port: "str_toInt (int_toString (uint (p :: u16))) = Some (uint p)"
proof -
  have "uint p < 2 ^ 16" using uint_lt2p [of p] by simp
  then show ?thesis by (intro str_toInt_int_toString) (simp_all add: INT_MAX_def order.trans [OF _ uint_ge_0])
qed

text \<open>
  Parsing a printed IPv4 address gives it back: an address with a port, whose number is a 32-bit
  number, is printed to a string that \<open>str_toIpAddr\<close> accepts and maps to the same address.
\<close>

lemma ipv4_roundtrip:
  assumes "sa_family ip = AF_INET" and "sin_addr ip < 4294967296" and "0 < uint (sin_port ip)"
  shows "str_toIpAddr os (ipAddr_toString os ip) = Some (True, ip)"
proof -
  let ?A = "inet_ntop4 (sin_addr ip)" and ?P = "int_toString (uint (sin_port ip))"
  obtain c cs where c: "?A = c # cs" "is_digit c" using inet_ntop4_shape(3) by blast
  have colon: "CHR '':'' \<notin> set ?A" "CHR '':'' \<notin> set ?P" and pne: "?P \<noteq> []"
    using inet_ntop4_shape(1) show_nat_no_punct punct_no_digit show_nat_digits by (auto simp: int_toString_def)
  have s: "ipAddr_toString os ip = ?A @ CHR '':'' # ?P"
    using assms by (simp add: ipAddr_toString_def ipAddr_isIpv4_def ipAddr_getPort_def ipAddr_getIp_def)
  have one: "\<not> 1 < count_list (?A @ CHR '':'' # ?P) CHR '':''"
    using colon by (simp add: count_notin)
  have br: "take 1 (?A @ CHR '':'' # ?P) \<noteq> ''[''" using c punct_no_digit by auto
  have tok: "str_split (?A @ CHR '':'' # ?P) '':'' = (Some ?A, ?P)" "str_split ?P '':'' = (Some ?P, [])"
    unfolding str_split_def using c colon pne by (intro strtok_word; simp)+
  have fit: "fits IPADDR_SIZE ?A = Some ?A"
    using inet_ntop4_shape(2) [of "sin_addr ip"]
    by (simp add: fits_def IPADDR_SIZE_def INET6_ADDRSTRLEN_def INET_ADDRSTRLEN_def)
  have nl: "?A \<noteq> ''localhost''" using c punct_no_digit by auto
  have init: "ipAddr_init os AF_INET (Some ?A) (uint (sin_port ip)) = Some (True, ip)"
    using assms(1) nl inet_pton_ntop [OF assms(2)]
    by (cases ip) (simp add: ipAddr_init_def ipAddr_setPort_def ipAddr_setIp_def ipAddr_isIpv4_def)
  show ?thesis
    unfolding s str_toIpAddr_def using br one
    by (simp only: if_False tok Let_def prod.case fst_conv bind.bind_lunit fit token_port_def option.case
        str_toInt_port init)
qed

text \<open>Text with two colons that is an IPv6 address makes the parser write beyond the struct.\<close>

lemma ipv6_init_overflows: "addr \<noteq> ''localhost'' \<Longrightarrow> inet_pton6 os addr = Some a \<Longrightarrow> ipAddr_init os AF_INET6 (Some addr) port = None"
  by (simp add: ipAddr_init_def ipAddr_setIp_def ipAddr_isIpv4_def ipAddr_setPort_def Let_def)

lemma ipv6_text_overflows:
  assumes "1 < count_list str CHR '':''" and "inet_pton6 os str = Some a" and "take 1 str \<noteq> ''[''"
  shows "str_toIpAddr os str = None"
proof -
  have "str \<noteq> ''localhost''" using assms(1) by auto
  then show ?thesis
    using assms by (auto simp: str_toIpAddr_def bind_eq_None_conv fits_def ipv6_init_overflows)
qed

end
