(* ===== verification/Http.thy ===== *)
theory Http
  imports Auth
begin

text \<open>
  src/httpUtils.c: the request and response parsers, the request writer and the fixed
  upgrade messages.  The parsers work on the C string in the buffer; tokens are those of
  \<open>strtok_r\<close>.
\<close>

section \<open>Parsing\<close>

definition CRLF :: string where "CRLF = [CR, LF]"

definition HTTP_GET :: nat where "HTTP_GET = 1"
definition HTTP_POST :: nat where "HTTP_POST = 2"

text \<open>The method is \<open>None\<close> while nothing was stored into it.\<close>

record HttpRequest =
  req_headers :: "string Map"
  req_method :: "nat option"
  req_url :: string
  req_body :: "string option"

record HttpResponse =
  resp_statusCode :: int
  resp_statusMessage :: string
  resp_headers :: "string Map"
  resp_body :: "string option"

fun body_index :: "nat \<Rightarrow> string \<Rightarrow> int" where
  "body_index i [] = - 1"
| "body_index i (c # cs) = (if startsWith (c # cs) (CRLF @ CRLF) then int i + 4 else body_index (Suc i) cs)"

definition getBodyIndex :: "string \<Rightarrow> int" where
  "getBodyIndex buff = body_index 0 buff"

definition header_value :: "string \<Rightarrow> string" where
  "header_value v = (if take 1 v = '' '' then drop 1 v else v)"

text \<open>One header line: key and value are the first two tokens around a colon.\<close>

definition parse_header :: "string Map \<Rightarrow> string \<Rightarrow> string Map option" where
  "parse_header m line =
     (let (key, rest) = strtok '':'' line; (value, _) = strtok '':'' rest in
      case (key, value) of
        (Some k, Some v) \<Rightarrow> map_put False m k (header_value v)
      | _ \<Rightarrow> Some m)"

lemma strtok_shorter: "strtok ds s = (Some w, r) \<Longrightarrow> length r < length s"
proof -
  assume a: "strtok ds s = (Some w, r)"
  let ?s = "dropWhile (\<lambda>c. c \<in> set ds) s"
  have "length ?s \<le> length s" "length (dropWhile (\<lambda>c. c \<notin> set ds) ?s) \<le> length ?s"
    by (rule length_dropWhile_le)+
  moreover from a have n: "?s \<noteq> []" and r: "r = drop 1 (dropWhile (\<lambda>c. c \<notin> set ds) ?s)"
    by (auto simp: strtok_def Let_def split: if_splits)
  moreover from n have "0 < length ?s" by (simp only: length_greater_0_conv not_False_eq_True)
  ultimately show ?thesis unfolding r length_drop by linarith
qed

function header_lines :: "string Map \<Rightarrow> string \<Rightarrow> string Map option" where
  "header_lines m s =
     (case strtok CRLF s of
        (None, _) \<Rightarrow> Some m
      | (Some line, rest) \<Rightarrow> do { m' \<leftarrow> parse_header m line; header_lines m' rest })"
  by pat_completeness auto
termination
  by (relation "measure (\<lambda>(m, s). length s)") (auto dest!: strtok_shorter [OF sym])

declare header_lines.simps [simp del]

text \<open>
  The first \<open>strtok_r\<close> ends the buffer after the first line, and only then is the body
  looked for; \<open>lead\<close> are the delimiters before that line, and the body is the text found
  at that moment.  The result is the return value
  and the request.
\<close>

definition parse_request_line :: "string \<Rightarrow> (nat \<times> string) option option" where
  "parse_request_line line =
     (let m = (if startsWith line ''GET'' then Some HTTP_GET else if startsWith line ''POST'' then Some HTTP_POST else None)
      in case m of
           None \<Rightarrow> Some None
         | Some mt \<Rightarrow>
             (let (_, r1) = strtok '' '' line; (url, r2) = strtok '' '' r1; (stamp, _) = strtok '' '' r2
              in do {
                u \<leftarrow> url;
                u' \<leftarrow> fits 1024 u;
                sp \<leftarrow> stamp;
                Some (if startsWith sp ''HTTP/'' then Some (mt, u') else None) }))"

definition parseHttpRequest :: "string \<Rightarrow> (bool \<times> HttpRequest) option" where
  "parseHttpRequest buffer =
     (let (line, rest) = strtok CRLF buffer;
          lead = takeWhile (\<lambda>c. c \<in> set CRLF) buffer;
          seen = (case line of None \<Rightarrow> buffer | Some l \<Rightarrow> lead @ l);
          bodyInd = getBodyIndex seen;
          req = \<lparr>req_headers = map_init, req_method = None, req_url = [],
                 req_body = (if bodyInd > 0 then Some (drop (nat bodyInd) seen) else None)\<rparr>
      in case line of
           None \<Rightarrow> Some (True, req)
         | Some l \<Rightarrow> do {
             p \<leftarrow> parse_request_line l;
             case p of
               None \<Rightarrow> Some (False, req)
             | Some (mt, u) \<Rightarrow> do {
                 h \<leftarrow> header_lines map_init rest;
                 Some (True, req\<lparr>req_method := Some mt, req_url := u, req_headers := h\<rparr>) } })"

definition parse_status_line :: "string \<Rightarrow> (int \<times> string) option option" where
  "parse_status_line line =
     (if \<not> startsWith line ''HTTP/'' then Some None
      else let (_, r1) = strtok '' '' line; (code, r2) = strtok '' '' r1; (msg, _) = strtok '' '' r2
           in do {
             c \<leftarrow> code;
             n \<leftarrow> str_toInt c;
             m \<leftarrow> msg;
             m' \<leftarrow> fits 200 m;
             Some (Some (n, m')) })"

definition parseHttpResponse :: "string \<Rightarrow> (bool \<times> HttpResponse) option" where
  "parseHttpResponse buffer =
     (let bodyInd = getBodyIndex buffer;
          (body, hd) = (if bodyInd > 0 then (Some (drop (nat bodyInd) buffer), take (nat bodyInd - 1) buffer)
                        else (None, buffer));
          resp = \<lparr>resp_statusCode = 0, resp_statusMessage = [], resp_headers = map_init, resp_body = body\<rparr>;
          (line, rest) = strtok CRLF hd
      in case line of
           None \<Rightarrow> Some (True, resp)
         | Some l \<Rightarrow> do {
             p \<leftarrow> parse_status_line l;
             case p of
               None \<Rightarrow> Some (False, resp)
             | Some (n, m) \<Rightarrow> do {
                 h \<leftarrow> header_lines map_init rest;
                 Some (True, resp\<lparr>resp_statusCode := n, resp_statusMessage := m, resp_headers := h\<rparr>) } })"

section \<open>Writing\<close>

text \<open>
  The header loop of \<open>writeHttpRequest\<close> calls the iterator with the map each time and so
  always gets the first item; the running length grows until it exceeds the buffer.
\<close>

function write_headers :: "nat \<Rightarrow> string Map \<Rightarrow> nat \<Rightarrow> string \<Rightarrow> (nat \<times> string) option option" where
  "write_headers buffSize hs len buff =
     (case fst (map_forEach (Some hs) []) of
        None \<Rightarrow> Some (Some (len, buff))
      | Some (k, v) \<Rightarrow>
          (let len' = len + length k + length v + 4 in
           if len' > buffSize then Some None
           else do {
             buff' \<leftarrow> fits buffSize (buff @ k @ '': '' @ v @ CRLF);
             write_headers buffSize hs len' buff' }))"
  by pat_completeness auto
termination
  by (relation "measure (\<lambda>(n, hs, len, buff). Suc n - len)") auto

declare write_headers.simps [simp del]

text \<open>The result is \<open>Some None\<close> for the return value 0 and the text for 1.\<close>

definition writeHttpRequest :: "nat \<Rightarrow> HttpRequest \<Rightarrow> string option option" where
  "writeHttpRequest buffSize req =
     (if req_method req = Some HTTP_GET \<or> req_method req = Some HTTP_POST then
        (let mt = (if req_method req = Some HTTP_GET then ''GET'' else ''POST'');
             stamp = ''HTTP/1.1'';
             body = (case req_body req of None \<Rightarrow> [] | Some b \<Rightarrow> b);
             len = length mt + length (req_url req) + length stamp
         in if len > buffSize then Some None
            else do {
              buff \<leftarrow> fits buffSize (mt @ '' '' @ req_url req @ '' '' @ stamp @ CRLF);
              h \<leftarrow> write_headers buffSize (req_headers req) len buff;
              case h of
                None \<Rightarrow> Some None
              | Some (len', buff') \<Rightarrow>
                  if len' + length body + 4 > buffSize then Some None
                  else do { out \<leftarrow> fits buffSize (buff' @ CRLF @ body); Some (Some out) } })
      else Some None)"

definition upgrade_request :: "string \<Rightarrow> string" where
  "upgrade_request hst =
     ''GET / HTTP/1.1'' @ CRLF @ ''Connection: Upgrade'' @ CRLF @ ''Upgrade: websocket'' @ CRLF
     @ ''Upgrade-Insecure-Requests: 1''
     @ (if hst \<noteq> [] then CRLF @ ''Host: '' @ hst else []) @ CRLF @ CRLF"

definition writeUpgradeResponse :: string where
  "writeUpgradeResponse =
     ''HTTP/1.1 101 Switching Protocols'' @ CRLF @ ''Upgrade: websocket'' @ CRLF @ ''Connection: Upgrade'' @ CRLF
     @ ''Sec-WebSocket-Accept: s3pPLMBiTxaQ9kYGzzhZRbK+xOo='' @ CRLF @ CRLF"

section \<open>Lemmas\<close>

lemma write_headers_stuck:
  assumes "map_start hs \<noteq> []"
  shows "write_headers n hs len buff = None \<or> write_headers n hs len buff = Some None"
  using assms
proof (induction n hs len buff rule: write_headers.induct)
  case (1 n hs len buff)
  then obtain k v rest where i: "map_start hs = (k, v) # rest" by (cases "map_start hs") auto
  then have f: "fst (map_forEach (Some hs) []) = Some (k, v)" by (simp add: map_forEach_def)
  show ?case
  proof (cases "len + length k + length v + 4 > n")
    case True
    then show ?thesis using f by (simp add: write_headers.simps [of n hs len buff])
  next
    case False
    have e: "write_headers n hs len buff =
        Option.bind (fits n (buff @ k @ '': '' @ v @ CRLF)) (write_headers n hs (len + length k + length v + 4))"
      using f False by (simp add: write_headers.simps [of n hs len buff] Let_def)
    show ?thesis
    proof (cases "fits n (buff @ k @ '': '' @ v @ CRLF)")
      case (Some b)
      then have "b \<in> set_option (fits n (buff @ k @ '': '' @ v @ CRLF))" by simp
      from 1(1) [OF f refl refl False this 1(2)] show ?thesis unfolding e Some by simp
    qed (simp add: e)
  qed
qed

lemma strtok_line:
  assumes "l \<noteq> []" and "CR \<notin> set l" and "LF \<notin> set l"
  shows "strtok CRLF (l @ CRLF @ r) = (Some l, LF # r)"
  using strtok_word(1) [of l CRLF CR "LF # r"] assms by (auto simp: CRLF_def)

lemma strtok_skip: "d \<in> set ds \<Longrightarrow> strtok ds (d # s) = strtok ds s"
  by (simp add: strtok_def)


lemma header_lines_line:
  assumes "l \<noteq> []" and "CR \<notin> set l" and "LF \<notin> set l" and "parse_header m l = Some m'"
  shows "header_lines m (l @ CRLF @ r) = header_lines m' (LF # r)"
  using strtok_line [OF assms(1-3), of r] assms(4) by (simp add: header_lines.simps [of m])

lemma header_lines_skip: "c \<in> set CRLF \<Longrightarrow> header_lines m (c # r) = header_lines m r"
  by (simp add: header_lines.simps [of m] strtok_skip)

lemma header_lines_Nil: "header_lines m [] = Some m"
  by (simp add: header_lines.simps strtok_def)

lemma parse_header_pair:
  assumes "k \<noteq> []" and "CHR '':'' \<notin> set k" and "v \<noteq> []" and "CHR '':'' \<notin> set v"
  shows "parse_header m (k @ '':'' @ v) = map_put False m k (header_value v)"
  using strtok_word(1) [of k "'':''" "CHR '':''" v] strtok_word(2) [of v "'':''" "CHR '':''"] assms
  by (simp add: parse_header_def)

section \<open>Properties\<close>

text \<open>
  \<open>writeHttpRequest\<close> never succeeds for a request with a header: its loop restarts the
  iterator each time and only ends by reporting that the buffer is too small.
\<close>

theorem writeHttpRequest_fails_with_headers:
  assumes "map_start (req_headers req) \<noteq> []"
  shows "writeHttpRequest n req \<noteq> Some (Some out)"
proof -
  have "write_headers n (req_headers req) len b = None \<or> write_headers n (req_headers req) len b = Some None" for len b
    by (rule write_headers_stuck [OF assms])
  then show ?thesis
    by (auto simp: writeHttpRequest_def Let_def bind_eq_Some_conv split: if_splits option.splits)
      (metis option.distinct(1) option.inject)+
qed

theorem writeHttpRequest_fails_with_headers_witness:
  "writeHttpRequest 1000 \<lparr>req_headers = \<lparr>map_start = [(''Host'', ''x'')], map_count = 1\<rparr>, req_method = Some HTTP_GET,
     req_url = ''/'', req_body = None\<rparr> \<noteq> Some (Some ''GET'')"
  by (rule writeHttpRequest_fails_with_headers) simp

lemma parse_request_line_get: "parse_request_line ''GET / HTTP/1.1'' = Some (Some (HTTP_GET, ''/''))"
  by (simp add: parse_request_line_def startsWith_def strtok_def fits_def)

text \<open>The headers of the upgrade request, with the host line that is optional.\<close>

lemma upgrade_headers:
  assumes "CR \<notin> set hst" and "LF \<notin> set hst"
  shows "\<exists>h. header_lines map_init (LF # drop 16 (upgrade_request hst)) = Some h \<and> map_get h ''Upgrade'' = Some ''websocket''"
proof -
  define m1 where "m1 = \<lparr>map_start = [(''Connection'', ''Upgrade'')], map_count = (1::int)\<rparr>"
  define m2 where "m2 = \<lparr>map_start = [(''Upgrade'', ''websocket''), (''Connection'', ''Upgrade'')], map_count = (2::int)\<rparr>"
  define m3 where "m3 = \<lparr>map_start = [(''Upgrade-Insecure-Requests'', ''1''), (''Upgrade'', ''websocket''),
      (''Connection'', ''Upgrade'')], map_count = (3::int)\<rparr>"
  note put = map_put_def map_set_def map_getItem_def KEY_SIZE_def header_value_def
  have p1: "parse_header map_init ''Connection: Upgrade'' = Some m1"
    using parse_header_pair [of "''Connection''" "'' Upgrade''" map_init] by (simp add: put map_init_def m1_def)
  have p2: "parse_header m1 ''Upgrade: websocket'' = Some m2"
    using parse_header_pair [of "''Upgrade''" "'' websocket''" m1] by (simp add: put m1_def m2_def)
  have p3: "parse_header m2 ''Upgrade-Insecure-Requests: 1'' = Some m3"
    using parse_header_pair [of "''Upgrade-Insecure-Requests''" "'' 1''" m2] by (simp add: put m2_def m3_def)
  let ?tail = "(if hst \<noteq> [] then ''Host: '' @ hst @ CRLF else []) @ CRLF"
  have "drop 16 (upgrade_request hst) = ''Connection: Upgrade'' @ CRLF @ ''Upgrade: websocket'' @ CRLF
      @ ''Upgrade-Insecure-Requests: 1'' @ CRLF @ ?tail"
    by (simp add: upgrade_request_def CRLF_def)
  then have e: "header_lines map_init (LF # drop 16 (upgrade_request hst)) = header_lines m3 (LF # ?tail)"
    using header_lines_line [OF _ _ _ p1] header_lines_line [OF _ _ _ p2] header_lines_line [OF _ _ _ p3]
    by (simp add: header_lines_skip CRLF_def)
  have u: "map_get m3 ''Upgrade'' = Some ''websocket''" by (simp add: m3_def map_get_def map_getItem_def)
  show ?thesis
  proof (cases "hst = []")
    case True
    then show ?thesis using e u by (simp add: header_lines_skip header_lines_Nil CRLF_def)
  next
    case False
    obtain v r where v: "strtok '':'' (CHR '' '' # hst) = (Some v, r)"
      by (cases "strtok '':'' (CHR '' '' # hst)") (auto simp: strtok_def)
    have k: "strtok '':'' (''Host: '' @ hst) = (Some ''Host'', CHR '' '' # hst)"
      using strtok_word(1) [of "''Host''" "'':''" "CHR '':''" "CHR '' '' # hst"] by simp
    obtain m4 where m4: "map_put False m3 ''Host'' (header_value v) = Some m4" and g: "map_get m4 ''Upgrade'' = Some ''websocket''"
      by (simp add: put m3_def map_get_def)
    have "parse_header m3 (''Host: '' @ hst) = Some m4" using k v m4 by (simp add: parse_header_def)
    from header_lines_line [OF _ _ _ this, of CRLF] assms
    have "header_lines m3 (''Host: '' @ hst @ CRLF @ CRLF) = header_lines m4 (LF # CRLF)" by simp
    with e g False show ?thesis by (simp add: header_lines_skip header_lines_Nil CRLF_def)
  qed
qed

text \<open>
  The upgrade request a client sends is recognised by the bridge: the parser accepts
  it and finds the header \<open>Upgrade: websocket\<close>, whatever host name without line breaks it
  carries.
\<close>

theorem upgrade_request_recognised:
  assumes "CR \<notin> set hst" and "LF \<notin> set hst"
  shows "\<exists>req. parseHttpRequest (upgrade_request hst) = Some (True, req)
    \<and> req_method req = Some HTTP_GET \<and> map_get (req_headers req) ''Upgrade'' = Some ''websocket''"
proof -
  have "upgrade_request hst = ''GET / HTTP/1.1'' @ CRLF @ drop 16 (upgrade_request hst)"
    by (simp add: upgrade_request_def CRLF_def)
  with strtok_line [of "''GET / HTTP/1.1''" "drop 16 (upgrade_request hst)"]
  have "strtok CRLF (upgrade_request hst) = (Some ''GET / HTTP/1.1'', LF # drop 16 (upgrade_request hst))" by simp
  with upgrade_headers [OF assms] parse_request_line_get show ?thesis
    by (auto simp: parseHttpRequest_def Let_def)
qed

theorem upgrade_request_recognised_witness:
  "\<exists>req. parseHttpRequest (upgrade_request ''example.com'') = Some (True, req)
    \<and> req_method req = Some HTTP_GET \<and> map_get (req_headers req) ''Upgrade'' = Some ''websocket''"
  by (rule upgrade_request_recognised) simp_all

end
