(* ===== verification/Store.thy ===== *)
theory Store
  imports HN_Types Config_File
begin

text \<open>
  The configuration half of src/store.c: the mapping table, the three sources of settings
  (command line, environment, configuration file), and \<open>parseArgs\<close>/\<open>confInit\<close>, which turn
  them into the \<open>hn_Config\<close> of the chosen mode.
\<close>

section \<open>The mapping table\<close>

text \<open>Internal key, command line key, configuration key, environment key.\<close>

definition mapping :: "(string \<times> string option \<times> string option \<times> string option) list" where
  "mapping = [
     (''mode'',        None,              Some ''Mode'',               Some ''MODE''),
     (''config-file'', Some ''-config'',  None,                        Some ''CONFIG_FILE''),
     (''use-env'',     Some ''-env'',     Some ''Use Env'',            None),
     (''url'',         Some ''-url'',     Some ''URL'',                Some ''URL''),
     (''key'',         Some ''-key'',     Some ''Key'',                Some ''KEY''),
     (''salt'',        Some ''-salt'',    Some ''Salt'',               Some ''SALT''),
     (''master-key'',  None,              Some ''Master Key'',         Some ''MASTER_KEY''),
     (''port'',        Some ''-p'',       Some ''Port'',               Some ''PORT''),
     (''name'',        Some ''-name'',    Some ''Name'',               Some ''NAME''),
     (''local-ip'',    Some ''-ip'',      Some ''Local IP'',           Some ''LOCAL_IP''),
     (''use-rl'',      Some ''-rl'',      Some ''Use RL'',             Some ''USE_RL''),
     (''data'',        Some ''-data'',    Some ''Data'',               Some ''DATA''),
     (''use-mdns'',    Some ''-mdns'',    Some ''Use Mdns'',           Some ''USE_MDNS''),
     (''conn-auth'',   None,              Some ''Connect Auth Level'', Some ''CONN_AUTH_LEVEL''),
     (''query-auth'',  None,              Some ''Query Auth'',         Some ''QUERY_AUTH''),
     (''rl-auth'',     None,              Some ''RL Auth'',            Some ''RL_AUTH'')]"

datatype column = Col_cli | Col_config | Col_env

fun column_of :: "column \<Rightarrow> string \<times> string option \<times> string option \<times> string option \<Rightarrow> string option" where
  "column_of Col_cli (k, c, f, e) = c"
| "column_of Col_config (k, c, f, e) = f"
| "column_of Col_env (k, c, f, e) = e"

definition getMappedKey :: "string \<Rightarrow> column \<Rightarrow> string option" where
  "getMappedKey key col = map_option fst (List.find (\<lambda>row. column_of col row = Some key) mapping)"

text \<open>\<open>None\<close> is the result -1.\<close>

definition mapMode :: "string \<Rightarrow> run_mode option" where
  "mapMode s =
     (let str = strip (map c_tolower s) in
      if startsWith str ''c'' then Some HN_MODE_CONNECT
      else if startsWith str ''b'' then Some HN_MODE_BRIDGE
      else if startsWith str ''l'' then Some HN_MODE_LISTEN
      else if startsWith str ''r'' then Some HN_MODE_REVERSE_LISTEN
      else if startsWith str ''q'' then Some HN_MODE_QUERY
      else None)"

section \<open>Filling the argument map\<close>

fun env_loop :: "(string \<Rightarrow> string option) \<Rightarrow> (string \<times> string option \<times> string option \<times> string option) list
  \<Rightarrow> string Map \<Rightarrow> string Map option" where
  "env_loop env [] m = Some m"
| "env_loop env (row # rows) m =
     (case Option.bind (column_of Col_env row) env of
        None \<Rightarrow> env_loop env rows m
      | Some v \<Rightarrow> do { m' \<leftarrow> map_put True m (fst row) v; env_loop env rows m' })"

definition envToMap :: "(string \<Rightarrow> string option) \<Rightarrow> string Map \<Rightarrow> string Map option" where
  "envToMap env m = env_loop env mapping m"

text \<open>
  The loop over the arguments after the mode.  A mapped key takes the next argument as its
  value; at the end of the vector that is the terminating null pointer, and its length is
  taken.
\<close>

fun args_loop :: "string Map \<Rightarrow> string list \<Rightarrow> string Map option" where
  "args_loop m [] = Some m"
| "args_loop m (a # as) =
     (case getMappedKey a Col_cli of
        None \<Rightarrow> args_loop m as
      | Some key \<Rightarrow> (case as of
                       [] \<Rightarrow> None
                     | v # as' \<Rightarrow> do { m' \<leftarrow> map_put True m key v; args_loop m' as' }))"

definition argsToMap :: "string Map \<Rightarrow> string list \<Rightarrow> string Map option" where
  "argsToMap m argv =
     (case argv of
        prog # md # rest \<Rightarrow> do { m' \<leftarrow> map_put True m ''mode'' md; args_loop m' rest }
      | _ \<Rightarrow> Some m)"

text \<open>With a section every entry is stored under its own key, without one the key is mapped.\<close>

definition configFileToMap :: "files \<Rightarrow> string Map \<Rightarrow> string \<Rightarrow> string option \<Rightarrow> string Map option" where
  "configFileToMap files m file section = do {
     r \<leftarrow> readConfigFile files 50 200 (Some file) section None;
     config_loop files (\<lambda>k. if section \<noteq> None then Some k else getMappedKey k Col_config) m r }"

section \<open>Reading values\<close>

text \<open>
  \<open>getValue\<close> copies into an array of \<open>cap\<close> cells and leaves the old contents when the key is
  absent; \<open>old\<close> is that old value, the result the new one.
\<close>

definition getValue :: "string \<Rightarrow> nat \<Rightarrow> string \<Rightarrow> string Map \<Rightarrow> string option" where
  "getValue key cap old args = (case map_get args key of None \<Rightarrow> Some old | Some v \<Rightarrow> fits cap v)"

definition getValueInt :: "string \<Rightarrow> int \<Rightarrow> string Map \<Rightarrow> int option" where
  "getValueInt key old args =
     (case map_get args key of None \<Rightarrow> Some old | Some v \<Rightarrow> do { val \<leftarrow> fits 200 v; str_toInt val })"

definition getValueBool :: "string \<Rightarrow> int \<Rightarrow> string Map \<Rightarrow> int option" where
  "getValueBool key old args =
     (case map_get args key of
        None \<Rightarrow> Some old
      | Some v \<Rightarrow> do { val \<leftarrow> fits 200 v;
                     if val = ''true'' then Some 1 else if val = ''false'' then Some 0 else str_toInt val })"

section \<open>Building the configuration\<close>

text \<open>The struct is zeroed first, so both strings are empty.\<close>

definition bridgeContextInit :: BridgeContext where
  "bridgeContextInit =
     \<lparr>masterKey = [], ctx_name = [], queryKeys = map_init, listenKeys = map_init,
      listeningSocks = map_init, mdnsStore = map_init, mdnsLastRefresh = 0, lastMdnsBroadcast = 0,
      rlSock = None, rlRetries = 0, rlLastRetry = 0, rlLastPing = 0\<rparr>"

definition parse_bridge :: "files \<Rightarrow> string Map \<Rightarrow> string \<Rightarrow> bridgeMode option" where
  "parse_bridge files args file = do {
     lk \<leftarrow> (if length file > 1 then configFileToMap files map_init file (Some ''Listen Keys'') else Some map_init);
     qk \<leftarrow> (if length file > 1 then configFileToMap files map_init file (Some ''Query Keys'') else Some map_init);
     p \<leftarrow> getValueInt ''port'' 0 args;
     i \<leftarrow> getValue ''key'' 50 [] args;
     u \<leftarrow> getValue ''url'' MAX_URL_SIZE [] args;
     w \<leftarrow> getValue ''salt'' 10 [] args;
     mk \<leftarrow> getValue ''master-key'' 20 [] args;
     nm \<leftarrow> getValue ''name'' 100 [] args;
     md \<leftarrow> getValueBool ''use-mdns'' 1 args;
     qa \<leftarrow> getValueBool ''query-auth'' 1 args;
     qa' \<leftarrow> getValueBool ''rl-auth'' qa args;
     ca \<leftarrow> getValueInt ''conn-auth'' 0 args;
     useRL \<leftarrow> getValueBool ''use-rl'' 1 args;
     Some \<lparr>br_port = p, br_rlId = i, br_rlUrl = (if useRL = 0 then [] else u), br_rlPass = w,
           useMdns = md, connectAuthLevel = ca, requireQueryAuth = qa', requireRLAuth = 0,
           br_context = bridgeContextInit\<lparr>masterKey := mk, ctx_name := nm, listenKeys := lk, queryKeys := qk\<rparr>\<rparr> }"

text \<open>The result says whether the mode was valid (the return value 1).\<close>

definition parseArgs :: "files \<Rightarrow> hn_Config \<Rightarrow> string Map \<Rightarrow> string \<Rightarrow> (bool \<times> hn_Config) option" where
  "parseArgs files cf args file = do {
     strMode \<leftarrow> fits 20 (case map_get args ''mode'' of None \<Rightarrow> ''b'' | Some m \<Rightarrow> m);
     case mapMode strMode of
       None \<Rightarrow> Some (False, cf)
     | Some HN_MODE_BRIDGE \<Rightarrow> do {
         b \<leftarrow> parse_bridge files args file;
         Some (True, cf\<lparr>cf_mode := Some HN_MODE_BRIDGE, bridge := Some b\<rparr>) }
     | Some HN_MODE_LISTEN \<Rightarrow> do {
         p \<leftarrow> getValueInt ''port'' 0 args;
         u \<leftarrow> getValue ''url'' MAX_URL_SIZE [] args;
         Some (True, cf\<lparr>cf_mode := Some HN_MODE_LISTEN, listen := Some \<lparr>ls_port = p, ls_connectUrl = u\<rparr>\<rparr>) }
     | Some HN_MODE_REVERSE_LISTEN \<Rightarrow> do {
         u \<leftarrow> getValue ''url'' MAX_URL_SIZE [] args;
         i \<leftarrow> getValue ''key'' 50 [] args;
         w \<leftarrow> getValue ''salt'' 10 [] args;
         ip \<leftarrow> getValue ''local-ip'' LOCAL_IP_SIZE [] args;
         Some (True, cf\<lparr>cf_mode := Some HN_MODE_REVERSE_LISTEN,
                       rl := Some \<lparr>rl_rlId = i, rl_rlUrl = u, rl_rlPass = w, rl_localIp = ip\<rparr>\<rparr>) }
     | Some HN_MODE_CONNECT \<Rightarrow> do {
         u \<leftarrow> getValue ''url'' MAX_URL_SIZE [] args;
         d \<leftarrow> getValue ''data'' BUFF_SIZE [] args;
         Some (True, cf\<lparr>cf_mode := Some HN_MODE_CONNECT, connect := Some \<lparr>cn_connectUrl = u, cn_payload = d\<rparr>\<rparr>) }
     | Some HN_MODE_QUERY \<Rightarrow> do {
         u \<leftarrow> getValue ''url'' MAX_URL_SIZE [] args;
         nm \<leftarrow> getValue ''name'' 100 [] args;
         k \<leftarrow> getValue ''key'' 20 [] args;
         w \<leftarrow> getValue ''salt'' 10 [] args;
         Some (True, cf\<lparr>cf_mode := Some HN_MODE_QUERY,
                       query := Some \<lparr>q_name = nm, q_bridgeUrl = u, q_salt = w, q_key = k\<rparr>\<rparr>) } }"

definition empty_config :: hn_Config where
  "empty_config = \<lparr>cf_mode = None, bridge = None, rl = None, listen = None, connect = None, query = None\<rparr>"

text \<open>
  \<open>confInit\<close> up to the point where the settings are complete: the argument map and the
  configuration file used.
\<close>

definition conf_args :: "files \<Rightarrow> (string \<Rightarrow> string option) \<Rightarrow> string list \<Rightarrow> (string Map \<times> string) option" where
  "conf_args files env argv = do {
     m1 \<leftarrow> argsToMap map_init argv;
     useEnv \<leftarrow> (case map_get m1 ''use-env'' of None \<Rightarrow> Some 1 | Some v \<Rightarrow> str_toInt v);
     m2 \<leftarrow> (if useEnv \<noteq> 0 then envToMap env m1 else Some m1);
     configFile \<leftarrow> fits 80 (case map_get m2 ''config-file'' of None \<Rightarrow> CONFIG_PATH | Some f \<Rightarrow> f);
     m3 \<leftarrow> (if length configFile > 1 then configFileToMap files m2 configFile None else Some m2);
     m4 \<leftarrow> envToMap env m3;
     m5 \<leftarrow> argsToMap m4 argv;
     Some (m5, configFile) }"

definition confInit :: "files \<Rightarrow> (string \<Rightarrow> string option) \<Rightarrow> string list \<Rightarrow> hn_Config option" where
  "confInit files env argv = do {
     (args, configFile) \<leftarrow> conf_args files env argv;
     (r, cf) \<leftarrow> parseArgs files empty_config args configFile;
     Some cf }"

section \<open>Each source is a sequence of assignments\<close>










section \<open>Properties\<close>







text \<open>
  The \<open>rl-auth\<close> setting never reaches \<open>requireRLAuth\<close>: in every bridge configuration it is
  0, so anonymous listeners stay allowed, and \<open>rl-auth\<close> overwrites the query authentication
  setting instead.
\<close>

theorem rl_auth_setting_lost:
  assumes "confInit files env argv = Some cf" and "bridge cf = Some b"
  shows "requireRLAuth b = 0 \<and>
    (\<exists>args path. conf_args files env argv = Some (args, path) \<and>
      (\<forall>v. map_get args ''rl-auth'' = Some v \<longrightarrow> getValueBool ''rl-auth'' 1 args = Some (requireQueryAuth b)))"
proof -
  from assms(1) obtain args path r where a: "conf_args files env argv = Some (args, path)"
    and p: "parseArgs files empty_config args path = Some (r, cf)"
    by (auto simp: confInit_def bind_eq_Some_conv)
  from p assms(2) have b: "parse_bridge files args path = Some b"
    by (auto simp: parseArgs_def bind_eq_Some_conv empty_config_def split: option.splits run_mode.splits)
  then have "requireRLAuth b = 0" by (auto simp: parse_bridge_def bind_eq_Some_conv)
  moreover have "getValueBool ''rl-auth'' 1 args = Some (requireQueryAuth b)" if "map_get args ''rl-auth'' = Some v" for v
    using b that by (auto simp: parse_bridge_def bind_eq_Some_conv getValueBool_def)
  ultimately show ?thesis using a by blast
qed

theorem rl_auth_setting_lost_witness:
  "\<exists>cf b. confInit (\<lambda>p. None) (\<lambda>k. if k = ''RL_AUTH'' then Some ''true'' else None) [''hn'', ''b''] = Some cf
     \<and> bridge cf = Some b \<and> requireRLAuth b = 0"
proof -
  let ?c = "confInit (\<lambda>p. None) (\<lambda>k. if k = ''RL_AUTH'' then Some ''true'' else None) [''hn'', ''b'']"
  have "Option.bind ?c (map_option requireQueryAuth \<circ> bridge) = Some 1" by code_simp
  then obtain cf b where "?c = Some cf" "bridge cf = Some b" by (auto simp: bind_eq_Some_conv)
  with rl_auth_setting_lost [of "\<lambda>p. None" "\<lambda>k. if k = ''RL_AUTH'' then Some ''true'' else None" "[''hn'', ''b'']" cf b]
  show ?thesis by auto
qed

end
