(* ===== verification/Protocol.thy ===== *)
theory Protocol
  imports Net_Socket Http Store
begin

text \<open>
  The message layer and the registries of src/homeNet.c and src/store.c: framed messages
  with the transparent upgrade, the lifetime of \<open>hn_Socket\<close> objects, the listening and waiting
  tables of the bridge context, and both sides of the authentication exchange.
\<close>

section \<open>Messages\<close>

text \<open>The upgrade of a client connection; a reply that fills the buffer leaves it unterminated.\<close>

definition upgradeHttpClient :: "sock_ptr \<Rightarrow> string \<Rightarrow> hn \<Rightarrow> (bool \<times> hn) option" where
  "upgradeHttpClient p hst st = do {
     req \<leftarrow> fits 1024 (upgrade_request hst);
     (w, st1) \<leftarrow> sock_write p req st;
     (rc, d, st2) \<leftarrow> sock_read 1024 p st1;
     if length d \<ge> 1024 \<and> NUL \<notin> set d then None
     else Some (startsWith (cstr d) ''HTTP/1.1 101'', st2) }"

text \<open>The result is the return value and the caller's buffer, to which the terminator was added.\<close>

definition hn_sendMsg :: "sock_ptr \<Rightarrow> string \<Rightarrow> hn \<Rightarrow> (int \<times> string \<times> hn) option" where
  "hn_sendMsg p buff st = do {
     s \<leftarrow> the_sock st p;
     (ok, st1) \<leftarrow>
       (case ptr s of
          None \<Rightarrow> Some (True, st)
        | Some h \<Rightarrow> do {
            hs \<leftarrow> the_hn st h;
            if isUpgraded hs then Some (True, st)
            else do {
              (u, st') \<leftarrow> upgradeHttpClient p (host hs) st;
              if u then do { st'' \<leftarrow> upd_hn h (\<lambda>hs. hs\<lparr>isUpgraded := True\<rparr>) st'; Some (True, st'') }
              else Some (False, st') } });
     if \<not> ok then Some (0, buff, st1)
     else do {
       b \<leftarrow> fits BUFF_SIZE (buff @ HN_MSG_END);
       (w, st2) \<leftarrow> sock_write p b st1;
       Some (w, b, st2) } }"

text \<open>
  Receiving works on the zeroed array of \<open>BUFF_SIZE\<close> cells; the suffix test is the one of
  utils.c, which looks below the array while fewer than two characters have arrived.
\<close>

definition ends_msg :: "os \<Rightarrow> char block \<Rightarrow> bool option" where
  "ends_msg os b = str_endswith (below_buff os) b (HN_MSG_END @ [NUL])"

function receive_loop :: "os \<Rightarrow> sock_ptr \<Rightarrow> char block \<Rightarrow> nat \<Rightarrow> hn \<Rightarrow> (char block \<times> nat \<times> hn) option" where
  "receive_loop os p b totalRead st = do {
     e \<leftarrow> ends_msg os b;
     if \<not> e \<and> totalRead < BUFF_SIZE then do {
       (rc, d, st') \<leftarrow> sock_read (BUFF_SIZE - totalRead) p st;
       if rc \<le> 0 then Some (b, totalRead, st')
       else receive_loop os p (overwrite b totalRead d) (totalRead + nat rc) st' }
     else Some (b, totalRead, st) }"
  by pat_completeness auto
termination
  by (relation "measure (\<lambda>(os, p, b, n, st). BUFF_SIZE - n)") auto

declare receive_loop.simps [simp del]

definition hn_receiveMsg :: "os \<Rightarrow> sock_ptr \<Rightarrow> hn \<Rightarrow> (int \<times> string \<times> hn) option" where
  "hn_receiveMsg os p st = do {
     (b, totalRead, st') \<leftarrow> receive_loop os p (replicate BUFF_SIZE NUL) 0 st;
     e \<leftarrow> ends_msg os b;
     if \<not> e then Some (0, cstr b, st')
     else do {
       oldLen \<leftarrow> str_len b;
       b1 \<leftarrow> wr b (oldLen - 1) NUL;
       b2 \<leftarrow> wr b1 (oldLen - 2) NUL;
       Some (int totalRead - 2, cstr b2, st') } }"

section \<open>Registries of the bridge context\<close>

definition getListeningSock :: "string \<Rightarrow> hn \<Rightarrow> hn_ptr option option" where
  "getListeningSock lid st = do { c \<leftarrow> get_ctx st; Some (map_get (listeningSocks c) lid) }"

definition getIpAddrForId :: "string \<Rightarrow> hn \<Rightarrow> sockaddr option option" where
  "getIpAddrForId lid st = do { c \<leftarrow> get_ctx st; Some (map_option rec_ip (map_get (mdnsStore c) lid)) }"

definition getSaltForListenId :: "os \<Rightarrow> string \<Rightarrow> hn \<Rightarrow> string option option" where
  "getSaltForListenId os lid st = do {
     c \<leftarrow> get_ctx st;
     Some (case map_get (listenKeys c) lid of Some s \<Rightarrow> Some s | None \<Rightarrow> getenv os (''L-'' @ lid)) }"

definition getQuerySalt :: "os \<Rightarrow> string \<Rightarrow> hn \<Rightarrow> string option option" where
  "getQuerySalt os lid st = do {
     c \<leftarrow> get_ctx st;
     Some (case map_get (queryKeys c) lid of Some s \<Rightarrow> Some s | None \<Rightarrow> getenv os (''Q-'' @ lid)) }"

definition isMasterKey :: "string \<Rightarrow> hn \<Rightarrow> bool option" where
  "isMasterKey key st = do { c \<leftarrow> get_ctx st; Some (key = masterKey c) }"

text \<open>The listener of an id, if it is there and in listen mode.\<close>

definition active_listener :: "string \<Rightarrow> hn \<Rightarrow> (hn_ptr \<times> hn_Socket) option option" where
  "active_listener lid st = do {
     l \<leftarrow> getListeningSock lid st;
     case l of
       None \<Rightarrow> Some None
     | Some h \<Rightarrow> do { hs \<leftarrow> the_hn st h; Some (if hn_mode hs \<noteq> SOCK_MODE_LISTEN then None else Some (h, hs)) } }"

definition getWaitingSocket :: "string \<Rightarrow> string \<Rightarrow> hn \<Rightarrow> hn_ptr option option" where
  "getWaitingSocket listenId otp st = do {
     l \<leftarrow> active_listener listenId st;
     case l of None \<Rightarrow> Some None | Some (h, hs) \<Rightarrow> Some (map_get (waitingSocks hs) otp) }"

definition removeWaitingSocket :: "string \<Rightarrow> string \<Rightarrow> hn \<Rightarrow> (bool \<times> hn) option" where
  "removeWaitingSocket listenId otp st = do {
     l \<leftarrow> active_listener listenId st;
     case l of
       None \<Rightarrow> Some (False, st)
     | Some (h, hs) \<Rightarrow>
         (let (r, m, fr) = map_del (waitingSocks hs) otp False in do {
            st' \<leftarrow> upd_hn h (\<lambda>hs. hs\<lparr>waitingSocks := m\<rparr>) st;
            Some (r, st') }) }"

definition addWaitingSock :: "string \<Rightarrow> string \<Rightarrow> hn_ptr \<Rightarrow> hn \<Rightarrow> (bool \<times> hn) option" where
  "addWaitingSock listenId otp w st = do {
     l \<leftarrow> active_listener listenId st;
     case l of
       None \<Rightarrow> Some (False, st)
     | Some (h, hs) \<Rightarrow>
         (if map_get (waitingSocks hs) otp \<noteq> None then Some (False, st)
          else do {
            m \<leftarrow> map_put False (waitingSocks hs) otp w;
            st' \<leftarrow> upd_hn h (\<lambda>hs. hs\<lparr>waitingSocks := m\<rparr>) st;
            Some (True, st') }) }"

section \<open>Lifetime of hn sockets\<close>

definition fresh_hn :: "sock_ptr \<Rightarrow> sock_mode \<Rightarrow> bool \<Rightarrow> hn_Socket" where
  "fresh_hn p md up =
     \<lparr>hn_sock = p, hn_mode = md, isUpgraded = up, host = [], relay_next = None, relay_isWaiting = False,
      relay_otp = [], relay_listenId = [], listen_salt = [], listen_listenId = [], waitingSocks = map_init\<rparr>"

text \<open>\<open>malloc\<close> followed by \<open>hn_sockInit\<close>: the new object and the link from the socket.\<close>

definition hn_sockInit :: "sock_ptr \<Rightarrow> sock_mode \<Rightarrow> bool \<Rightarrow> hn \<Rightarrow> (hn_ptr \<times> hn) option" where
  "hn_sockInit p md up st =
     (let (h, st1) = alloc_hn (fresh_hn p md up) st in do {
        st2 \<leftarrow> upd_sock p (\<lambda>s. s\<lparr>ptr := Some h\<rparr>) st1;
        Some (h, st2) })"

fun close_waiting :: "hn_ptr list \<Rightarrow> hn \<Rightarrow> hn option" where
  "close_waiting [] st = Some st"
| "close_waiting (w # ws) st = do {
     ws' \<leftarrow> the_hn st w;
     (r, st') \<leftarrow> sock_done (hn_sock ws') st;
     close_waiting ws st' }"

definition hn_sockCleanup :: "hn_ptr \<Rightarrow> bool \<Rightarrow> hn \<Rightarrow> hn option" where
  "hn_sockCleanup h ctx st = do {
     hs \<leftarrow> the_hn st h;
     st1 \<leftarrow>
       (case hn_mode hs of
          SOCK_MODE_RELAY \<Rightarrow> do {
            st' \<leftarrow> (case relay_next hs of
                      None \<Rightarrow> Some st
                    | Some n \<Rightarrow> do { (r, s') \<leftarrow> sock_done n st; Some s' });
            if relay_isWaiting hs \<and> ctx then do {
              (r, s'') \<leftarrow> removeWaitingSocket (relay_listenId hs) (relay_otp hs) st';
              Some s'' }
            else Some st' }
        | SOCK_MODE_LISTEN \<Rightarrow> do {
            st' \<leftarrow> close_waiting (map snd (map_start (waitingSocks hs))) st;
            st'' \<leftarrow> upd_hn h (\<lambda>hs. hs\<lparr>waitingSocks := fst (map_cleanup (waitingSocks hs) False)\<rparr>) st';
            if ctx then do {
              c \<leftarrow> get_ctx st'';
              set_ctx (c\<lparr>listeningSocks := map_remove False (listeningSocks c) (listen_listenId hs)\<rparr>) st'' }
            else Some st'' }
        | SOCK_MODE_LISTEN_OUT \<Rightarrow>
            (if ctx then do { c \<leftarrow> get_ctx st; set_ctx (c\<lparr>rlSock := None\<rparr>) st } else Some st)
        | _ \<Rightarrow> Some st);
     free_hn h st1 }"

definition sock_destroy :: "sock_ptr \<Rightarrow> bool \<Rightarrow> hn \<Rightarrow> hn option" where
  "sock_destroy p ctx st = do {
     s \<leftarrow> the_sock st p;
     st1 \<leftarrow> (case ptr s of None \<Rightarrow> Some st | Some h \<Rightarrow> hn_sockCleanup h ctx st);
     st2 \<leftarrow> upd_sock p (\<lambda>s. s\<lparr>ptr := None\<rparr>) st1;
     (r, st3) \<leftarrow> sock_close p st2;
     st4 \<leftarrow> sock_cleanup p st3;
     free_sock p st4 }"

definition sock_readDump :: "sock_ptr \<Rightarrow> hn \<Rightarrow> hn option" where
  "sock_readDump p st = do {
     (rc, d, st') \<leftarrow> sock_read BUFF_SIZE p st;
     if length d \<ge> BUFF_SIZE \<and> NUL \<notin> set d then None else Some st' }"

section \<open>Authentication exchange\<close>

text \<open>Results: success, the caller's buffer, the state.\<close>

definition authThrowChallenge :: "os \<Rightarrow> sock_ptr \<Rightarrow> string Map \<Rightarrow> hn \<Rightarrow> (bool \<times> string \<times> hn) option" where
  "authThrowChallenge os p keyStore st =
     (let (chal, nonce, st1) = generateAuthChallenge os st in do {
        (r, b, st2) \<leftarrow> hn_sendMsg p chal st1;
        if r \<le> 0 then Some (False, b, st2)
        else do {
          (r', b', st3) \<leftarrow> hn_receiveMsg os p st2;
          if r' \<le> 0 then Some (False, b', st3)
          else do { v \<leftarrow> verifyAuthRespFromMap b' nonce keyStore; Some (v, b', st3) } } })"

text \<open>The second half of \<open>authSolve\<close>: a challenge is in the buffer.\<close>

definition auth_answer ::
  "os \<Rightarrow> string \<Rightarrow> sock_ptr \<Rightarrow> string option \<Rightarrow> string option \<Rightarrow> string option \<Rightarrow> hn \<Rightarrow> (bool \<times> string \<times> hn) option" where
  "auth_answer os buff p key salt password st = do {
     nonce \<leftarrow> fits 200 (drop 5 buff);
     resp \<leftarrow> (case password of Some pw \<Rightarrow> generateAuthRespFromPassword nonce pw | None \<Rightarrow> generateAuthResp nonce key salt);
     (w, b, st1) \<leftarrow> hn_sendMsg p resp st;
     if w \<le> 0 then Some (False, b, st1)
     else do {
       (r, b', st2) \<leftarrow> hn_receiveMsg os p st1;
       Some (r > 0, b', st2) } }"

definition authSolve ::
  "os \<Rightarrow> string \<Rightarrow> sock_ptr \<Rightarrow> string option \<Rightarrow> string option \<Rightarrow> string option \<Rightarrow> hn \<Rightarrow> (bool \<times> string \<times> hn) option" where
  "authSolve os buff p key salt password st =
     (if startsWith buff ''AUTH '' then auth_answer os buff p key salt password st
      else do {
        (r, b, st1) \<leftarrow> hn_receiveMsg os p st;
        if r \<le> 0 then Some (False, b, st1)
        else if \<not> startsWith b ''AUTH '' then Some (True, b, st1)
        else auth_answer os b p key salt password st1 })"

end
