(* ===== verification/Protocol_Correct.thy ===== *)
theory Protocol_Correct
  imports Protocol
begin

text \<open>
  What the message layer and the registries of Protocol guarantee: framing is a round trip
  under any chunking, an overlong message faults, a one-time password works once, and the
  authentication exchange accepts an honest client.
\<close>

section \<open>Framing\<close>

lemma replicate_NUL_holds: "NUL \<notin> set x \<Longrightarrow> 0 < k \<Longrightarrow> holds (x @ replicate k NUL) x"
  by (cases k) (auto intro: holdsI)

lemma HN_MSG_END_holds: "holds (HN_MSG_END @ [NUL]) HN_MSG_END"
  by (rule holdsI) (simp add: HN_MSG_END_def)

text \<open>With zero bytes below the receive buffer the suffix test is exact.\<close>

lemma ends_msg_eq:
  assumes "below_buff os = pre @ [NUL, NUL]" and "NUL \<notin> set x" and "0 < k"
  shows "ends_msg os (x @ replicate k NUL) = Some (suffix HN_MSG_END x)"
proof -
  have h: "holds (x @ replicate k NUL) x" by (rule replicate_NUL_holds [OF assms(2,3)])
  note lens = str_len_holds [OF h] str_len_holds [OF HN_MSG_END_holds]
  consider "2 \<le> length x" | "x = []" | c where "x = [c]" by (cases x; cases "tl x") auto
  then show ?thesis
  proof cases
    case 1
    then have "length HN_MSG_END \<le> length x" by (simp add: HN_MSG_END_def)
    from str_endswith_holds [OF h HN_MSG_END_holds this] show ?thesis by (simp add: ends_msg_def endsWith_def)
  next
    case 2
    then show ?thesis using assms(1) lens
      by (simp add: ends_msg_def str_endswith_def HN_MSG_END_def rd_below_def rd_def nth_append numeral_2_eq_2)
  next
    case 3
    then show ?thesis using assms(1) lens
      by (auto simp: ends_msg_def str_endswith_def HN_MSG_END_def rd_below_def rd_def nth_append numeral_2_eq_2 suffix_Cons)
  qed
qed

lemma overwrite_tail:
  "length d \<le> k \<Longrightarrow> overwrite (x @ replicate k NUL) (length x) d = (x @ d) @ replicate (k - length d) NUL"
  by (simp add: overwrite_def)

lemma no_early_end:
  assumes "\<not> sublist HN_MSG_END m" and "x @ y = m @ HN_MSG_END" and "y \<noteq> []"
  shows "\<not> suffix HN_MSG_END x"
proof
  assume "suffix HN_MSG_END x"
  then obtain u where x: "x = u @ [CR, LF]" by (auto simp: suffix_def HN_MSG_END_def)
  from assms(2) have e: "u @ [CR, LF] @ y = m @ [CR, LF]" by (simp add: x HN_MSG_END_def)
  have "\<exists>v. m = u @ [CR, LF] @ v"
  proof (cases y rule: rev_cases)
    case Nil
    with assms(3) show ?thesis by simp
  next
    case (snoc y1 b)
    then have f: "u @ [CR, LF] @ y1 = m @ [CR]" using e by (simp add: append_eq_append_conv2) (metis append.assoc append_Cons append_Nil append1_eq_conv)
    show ?thesis
    proof (cases y1 rule: rev_cases)
      case Nil
      then have "LF = CR" using f by (metis append.assoc append_Cons append_Nil append_Nil2 append1_eq_conv)
      then show ?thesis by (simp)
    next
      case (snoc y2 c)
      then show ?thesis using f by (metis append.assoc append1_eq_conv)
    qed
  qed
  with assms(1) show False by (auto simp: sublist_def HN_MSG_END_def)
qed


lemma sock_read_chunk:
  assumes "socks st p = Some s" and "isAlive s \<noteq> SOCKET_DEAD" and "isBlocking s"
    and "inbox st (fd s) = Recv c # as" and "length c \<le> mx"
  shows "sock_read mx p st = Some (int (length c), c, st\<lparr>inbox := (inbox st)(fd s := as)\<rparr>)"
  using assms by (simp add: sock_read_def the_sock_def os_recv_def)

lemma receive_loop_chunks:
  assumes "below_buff os = pre @ [NUL, NUL]" and "socks st p = Some s" and "isAlive s \<noteq> SOCKET_DEAD" and "isBlocking s"
    and "\<not> sublist HN_MSG_END m" and "NUL \<notin> set m" and "length m + 2 < BUFF_SIZE"
  shows "x @ concat cs = m @ HN_MSG_END \<Longrightarrow> [] \<notin> set cs \<Longrightarrow> inbox st (fd s) = map Recv cs @ rest \<Longrightarrow>
    socks st p = Some s \<Longrightarrow>
    receive_loop os p (x @ replicate (BUFF_SIZE - length x) NUL) (length x) st
    = Some ((m @ HN_MSG_END) @ replicate (BUFF_SIZE - (length m + 2)) NUL, length m + 2,
            st\<lparr>inbox := (inbox st)(fd s := rest)\<rparr>)"
proof (induction cs arbitrary: x st)
  case Nil
  then have x: "x = m @ HN_MSG_END" and i: "inbox st (fd s) = rest" by auto
  have nul: "NUL \<notin> set x" using assms(6) by (simp add: x HN_MSG_END_def)
  have same: "st\<lparr>inbox := (inbox st)(fd s := rest)\<rparr> = st" unfolding i [symmetric] by simp
  have l: "length x = length m + 2" by (simp add: x HN_MSG_END_def)
  have e: "ends_msg os (x @ replicate (BUFF_SIZE - length x) NUL) = Some True"
    using ends_msg_eq [OF assms(1) nul, of "BUFF_SIZE - length x"] assms(7) l by (simp add: x suffix_def)
  have "receive_loop os p (x @ replicate (BUFF_SIZE - length x) NUL) (length x) st
    = Some (x @ replicate (BUFF_SIZE - length x) NUL, length x, st)"
    by (subst receive_loop.simps) (simp add: e)
  then show ?case unfolding same unfolding l unfolding x .
next
  case (Cons c cs)
  let ?b = "x @ replicate (BUFF_SIZE - length x) NUL"
  have tot: "length x + length c + length (concat cs) = length m + 2"
    using arg_cong [OF Cons.prems(1), of length] by (simp add: HN_MSG_END_def)
  have c: "c \<noteq> []" using Cons.prems(2) by auto
  have nul: "NUL \<notin> set x" using arg_cong [OF Cons.prems(1), of set] assms(6) by (auto simp: HN_MSG_END_def)
  have "\<not> suffix HN_MSG_END x"
    using no_early_end [OF assms(5) Cons.prems(1)] c by simp
  with ends_msg_eq [OF assms(1) nul, of "BUFF_SIZE - length x"] tot assms(7)
  have e: "ends_msg os ?b = Some False" by simp
  define st1 where "st1 = st\<lparr>inbox := (inbox st)(fd s := map Recv cs @ rest)\<rparr>"
  have r: "sock_read (BUFF_SIZE - length x) p st = Some (int (length c), c, st1)"
    using sock_read_chunk [OF Cons.prems(4) assms(3,4), of c "map Recv cs @ rest" "BUFF_SIZE - length x"]
      Cons.prems(3) tot assms(7) by (simp add: st1_def)
  have ow: "overwrite ?b (length x) c = (x @ c) @ replicate (BUFF_SIZE - length (x @ c)) NUL"
    using overwrite_tail [of c "BUFF_SIZE - length x" x] tot assms(7) by (simp add: diff_diff_left)
  have ih: "receive_loop os p ((x @ c) @ replicate (BUFF_SIZE - length (x @ c)) NUL) (length (x @ c)) st1
    = Some ((m @ HN_MSG_END) @ replicate (BUFF_SIZE - (length m + 2)) NUL, length m + 2,
            st1\<lparr>inbox := (inbox st1)(fd s := rest)\<rparr>)"
    by (rule Cons.IH) (use Cons.prems in \<open>auto simp: st1_def\<close>)
  have s1: "st1\<lparr>inbox := (inbox st1)(fd s := rest)\<rparr> = st\<lparr>inbox := (inbox st)(fd s := rest)\<rparr>"
    by (simp add: st1_def)
  have "receive_loop os p ?b (length x) st
      = receive_loop os p (overwrite ?b (length x) c) (length x + length c) st1"
    using e r c tot assms(7) by (simp add: receive_loop.simps [of os p ?b "length x" st])
  then show ?case using ih unfolding s1 ow by (simp only: length_append)
qed

lemma hn_receiveMsg_chunks:
  assumes "below_buff os = pre @ [NUL, NUL]" and "socks st p = Some s" and "isAlive s \<noteq> SOCKET_DEAD" and "isBlocking s"
    and "\<not> sublist HN_MSG_END m" and "NUL \<notin> set m" and "length m + 2 < BUFF_SIZE"
    and "concat cs = m @ HN_MSG_END" and "[] \<notin> set cs" and "inbox st (fd s) = map Recv cs @ rest"
  shows "hn_receiveMsg os p st = Some (int (length m), m, st\<lparr>inbox := (inbox st)(fd s := rest)\<rparr>)"
proof -
  let ?x = "m @ HN_MSG_END" and ?k = "BUFF_SIZE - (length m + 2)"
  have nul: "NUL \<notin> set ?x" using assms(6) by (simp add: HN_MSG_END_def)
  have k: "0 < ?k" using assms(7) by simp
  have l: "receive_loop os p (replicate BUFF_SIZE NUL) 0 st
    = Some (?x @ replicate ?k NUL, length m + 2, st\<lparr>inbox := (inbox st)(fd s := rest)\<rparr>)"
    using receive_loop_chunks [OF assms(1-7), of "[]" cs rest] assms(8-10,2) by simp
  have e: "ends_msg os (?x @ replicate ?k NUL) = Some True"
    using ends_msg_eq [OF assms(1) nul k] by (simp add: suffix_def)
  have n: "str_len (?x @ replicate ?k NUL) = Some (int (length m) + 2)"
    using str_len_holds [OF replicate_NUL_holds [OF nul k]] by (simp add: HN_MSG_END_def)
  have w1: "wr (?x @ replicate ?k NUL) (1 + int (length m)) NUL = Some (m @ [CR, NUL] @ replicate ?k NUL)"
    by (simp add: wr_def HN_MSG_END_def list_update_append nat_add_distrib)
  have "cstr (m @ [NUL, NUL] @ replicate ?k NUL) = m" using assms(6) takeWhile_upto [of NUL m] by (simp add: cstr_def)
  then show ?thesis using l e n w1 by (simp add: hn_receiveMsg_def list_update_append)
qed


text \<open>A live blocking socket on which messages go out without upgrade and the kernel takes bytes.\<close>

definition msg_ready :: "hn \<Rightarrow> sock_ptr \<Rightarrow> Socket \<Rightarrow> bool" where
  "msg_ready st p s \<longleftrightarrow> socks st p = Some s \<and> isAlive s \<noteq> SOCKET_DEAD \<and> isBlocking s
     \<and> (\<forall>h. ptr s = Some h \<longrightarrow> (\<exists>hs. hnSocks st h = Some hs \<and> isUpgraded hs))
     \<and> (\<forall>w\<in>set (wscript st (fd s)). 0 < w)"

lemma sock_write_blocking:
  assumes "socks st p = Some s" and "isAlive s \<noteq> SOCKET_DEAD" and "isBlocking s" and "\<forall>w\<in>set (wscript st (fd s)). 0 < w"
  shows "\<exists>ws. sock_write p d st = Some (int (length d),
      st\<lparr>wscript := (wscript st)(fd s := ws), outbox := (outbox st)(fd s := outbox st (fd s) @ d)\<rparr>)
    \<and> (\<forall>w\<in>set ws. 0 < w)"
proof -
  obtain n l st' where w: "write_loop (fd s) d st = (n, l, st')" by (cases "write_loop (fd s) d st")
  from write_loop_spec [OF w] assms(4) obtain ws where "n = int (length d)" "\<forall>w\<in>set ws. 0 < w"
    "st' = st\<lparr>wscript := (wscript st)(fd s := ws), outbox := (outbox st)(fd s := outbox st (fd s) @ d)\<rparr>"
    by (metis take_all_iff order_refl)
  with w assms(1-3) show ?thesis by (intro exI [of _ ws]) (simp add: sock_write_def the_sock_def)
qed

lemma hn_sendMsg_ready:
  assumes "msg_ready st p s" and "length m + 2 < BUFF_SIZE"
  shows "\<exists>ws. hn_sendMsg p m st = Some (int (length m) + 2, m @ HN_MSG_END,
      st\<lparr>wscript := (wscript st)(fd s := ws), outbox := (outbox st)(fd s := outbox st (fd s) @ m @ HN_MSG_END)\<rparr>)
    \<and> (\<forall>w\<in>set ws. 0 < w)"
proof -
  from assms(1) have s: "socks st p = Some s" and r: "isAlive s \<noteq> SOCKET_DEAD" "isBlocking s" "\<forall>w\<in>set (wscript st (fd s)). 0 < w"
    and u: "ptr s = None \<or> (\<exists>h hs. ptr s = Some h \<and> hnSocks st h = Some hs \<and> isUpgraded hs)"
    by (cases "ptr s"; auto simp: msg_ready_def)+
  from sock_write_blocking [OF s r, of "m @ HN_MSG_END"] obtain ws where
    "sock_write p (m @ HN_MSG_END) st = Some (int (length m) + 2,
      st\<lparr>wscript := (wscript st)(fd s := ws), outbox := (outbox st)(fd s := outbox st (fd s) @ m @ HN_MSG_END)\<rparr>)"
    and "\<forall>w\<in>set ws. 0 < w" by (auto simp: HN_MSG_END_def)
  moreover have "fits BUFF_SIZE (m @ HN_MSG_END) = Some (m @ HN_MSG_END)" using assms(2) by (simp add: HN_MSG_END_def)
  ultimately show ?thesis using s u by (intro exI [of _ ws]) (auto simp: hn_sendMsg_def the_sock_def the_hn_def fits_def)
qed

section \<open>Properties\<close>

text \<open>
  (C19) Messages survive the transport: what \<open>hn_sendMsg\<close> puts on the descriptor of a ready
  socket for a message without zero byte and without line end inside, delivered to the other
  side in any non-empty chunks, is returned by \<open>hn_receiveMsg\<close> as the same message, and
  nothing of what follows is consumed.
\<close>

theorem message_roundtrip:
  assumes "msg_ready sa p s" and "length m + 2 < 600" and "NUL \<notin> set m" and "\<not> sublist HN_MSG_END m"
    and "socks sb q = Some t" and "isAlive t \<noteq> SOCKET_DEAD" and "isBlocking t" and "below_buff os = pre @ [NUL, NUL]"
  shows "\<exists>sa' wire. hn_sendMsg p m sa = Some (int (length wire), wire, sa')
    \<and> outbox sa' (fd s) = outbox sa (fd s) @ wire
    \<and> (\<forall>cs rest. concat cs = wire \<and> [] \<notin> set cs \<and> inbox sb (fd t) = map Recv cs @ rest \<longrightarrow>
         (\<exists>sb'. hn_receiveMsg os q sb = Some (int (length m), m, sb') \<and> inbox sb' (fd t) = rest))"
proof -
  have l: "length m + 2 < BUFF_SIZE" using assms(2) by (simp add: BUFF_SIZE_def)
  from hn_sendMsg_ready [OF assms(1) l] obtain ws where snd: "hn_sendMsg p m sa = Some (int (length m) + 2, m @ HN_MSG_END,
      sa\<lparr>wscript := (wscript sa)(fd s := ws), outbox := (outbox sa)(fd s := outbox sa (fd s) @ m @ HN_MSG_END)\<rparr>)"
    by blast
  have len: "int (length m) + 2 = int (length (m @ HN_MSG_END))" by (simp add: HN_MSG_END_def)
  have rcv: "\<exists>sb'. hn_receiveMsg os q sb = Some (int (length m), m, sb') \<and> inbox sb' (fd t) = rest"
    if "concat cs = m @ HN_MSG_END" "[] \<notin> set cs" "inbox sb (fd t) = map Recv cs @ rest" for cs rest
    using hn_receiveMsg_chunks [OF assms(8,5-7,4,3) l that] by simp
  show ?thesis
    by (rule exI, rule exI [of _ "m @ HN_MSG_END"], intro conjI, rule snd [unfolded len])
       (use rcv in \<open>auto simp del: append_assoc\<close>)
qed

theorem message_roundtrip_witness:
  "\<exists>sa' wire. hn_sendMsg 1 ''PING'' (hn_idle\<lparr>socks := Map.empty(1 \<mapsto> sock_init TCPSOCKET 5)\<rparr>) = Some (int (length wire), wire, sa')
     \<and> (\<forall>cs rest. concat cs = wire \<and> [] \<notin> set cs \<and> [Recv ''PI'', Recv (''NG'' @ HN_MSG_END)] = map Recv cs @ rest \<longrightarrow>
         (\<exists>sb'. hn_receiveMsg os_plain 1 (hn_idle\<lparr>socks := Map.empty(1 \<mapsto> sock_init TCPSOCKET 5),
            inbox := \<lambda>_. [Recv ''PI'', Recv (''NG'' @ HN_MSG_END)]\<rparr>) = Some (4, ''PING'', sb') \<and> inbox sb' 5 = rest))"
proof -
  let ?a = "hn_idle\<lparr>socks := Map.empty(1 \<mapsto> sock_init TCPSOCKET 5)\<rparr>"
  let ?b = "hn_idle\<lparr>socks := Map.empty(1 \<mapsto> sock_init TCPSOCKET 5), inbox := \<lambda>_. [Recv ''PI'', Recv (''NG'' @ HN_MSG_END)]\<rparr>"
  have r: "msg_ready ?a 1 (sock_init TCPSOCKET 5)" by (simp add: msg_ready_def sock_init_def hn_idle_def)
  have b: "below_buff os_plain = replicate 30 NUL @ [NUL, NUL]" by (simp add: os_plain_def eval_nat_numeral)
  have n: "\<not> sublist HN_MSG_END ''PING''" by (auto simp: HN_MSG_END_def sublist_code)
  from message_roundtrip [OF r _ _ n _ _ _ b, of ?b 1 "sock_init TCPSOCKET 5"]
  show ?thesis by (simp add: sock_init_def) blast
qed

text \<open>
  A peer that sends 600 bytes without a zero byte in one piece makes the receiver read
  past its buffer: the array is full and has no terminator when the end of message is
  looked for.
\<close>

theorem receive_overlong_faults:
  assumes "socks st p = Some s" and "isAlive s \<noteq> SOCKET_DEAD" and "isBlocking s" and "below_buff os = pre @ [NUL, NUL]"
    and "inbox st (fd s) = Recv d # as" and "600 \<le> length d" and "NUL \<notin> set (take 600 d)"
  shows "hn_receiveMsg os p st = None"
proof -
  let ?b = "replicate BUFF_SIZE NUL"
  have B: "0 < BUFF_SIZE" by (simp add: BUFF_SIZE_def)
  have e: "ends_msg os ?b = Some False"
    using ends_msg_eq [OF assms(4), of "[]" BUFF_SIZE] by (simp add: BUFF_SIZE_def HN_MSG_END_def)
  obtain st1 where r: "sock_read BUFF_SIZE p st = Some (600, take 600 d, st1)"
    using assms(1-3,5,6) by (simp add: sock_read_def the_sock_def os_recv_def BUFF_SIZE_def Let_def)
  have ow: "overwrite ?b 0 (take 600 d) = take 600 d" using assms(6) by (simp add: overwrite_def BUFF_SIZE_def)
  have f: "ends_msg os (take 600 d) = None"
    using assms(7) by (simp add: ends_msg_def str_endswith_def str_len_def)
  have "receive_loop os p (take 600 d) 600 st1 = None"
    by (subst receive_loop.simps) (simp add: f)
  then have "receive_loop os p ?b 0 st = None"
    by (subst receive_loop.simps) (simp add: e r ow B)
  then show ?thesis by (simp add: hn_receiveMsg_def)
qed

theorem receive_overlong_faults_witness:
  "hn_receiveMsg os_plain 1 (hn_idle\<lparr>socks := Map.empty(1 \<mapsto> sock_init TCPSOCKET 5),
     inbox := \<lambda>_. [Recv (replicate 600 CHR ''x'')]\<rparr>) = None"
proof -
  have b: "below_buff os_plain = replicate 30 NUL @ [NUL, NUL]" by (simp add: os_plain_def eval_nat_numeral)
  show ?thesis
    by (rule receive_overlong_faults [OF _ _ _ b, where s = "sock_init TCPSOCKET 5" and d = "replicate 600 CHR ''x''" and as = "[]"])
       (simp_all add: sock_init_def)
qed

section \<open>The registry of waiting sockets\<close>

text \<open>A listener is registered under an id, in listen mode, with a well-formed table.\<close>

definition listens :: "hn \<Rightarrow> string \<Rightarrow> hn_ptr \<Rightarrow> hn_Socket \<Rightarrow> bool" where
  "listens st lid h hs \<longleftrightarrow> (\<exists>c. get_ctx st = Some c \<and> map_get (listeningSocks c) lid = Some h)
     \<and> hnSocks st h = Some hs \<and> hn_mode hs = SOCK_MODE_LISTEN \<and> map_inv (waitingSocks hs)"

lemma listens_active: "listens st lid h hs \<Longrightarrow> active_listener lid st = Some (Some (h, hs))"
  by (auto simp: listens_def active_listener_def getListeningSock_def the_hn_def)

lemma listens_get: "listens st lid h hs \<Longrightarrow> getWaitingSocket lid otp st = Some (map_get (waitingSocks hs) otp)"
  by (simp add: getWaitingSocket_def listens_active)

lemma listens_upd:
  "listens st lid h hs \<Longrightarrow> map_inv m \<Longrightarrow>
   listens (st\<lparr>hnSocks := (hnSocks st)(h \<mapsto> hs\<lparr>waitingSocks := m\<rparr>)\<rparr>) lid h (hs\<lparr>waitingSocks := m\<rparr>)"
  by (auto simp: listens_def get_ctx_def)

lemma listens_upd_hn:
  "listens st lid h hs \<Longrightarrow>
   upd_hn h (\<lambda>hs. hs\<lparr>waitingSocks := m\<rparr>) st = Some (st\<lparr>hnSocks := (hnSocks st)(h \<mapsto> hs\<lparr>waitingSocks := m\<rparr>)\<rparr>)"
  by (simp add: listens_def upd_hn_def)

lemma add_waiting:
  assumes "listens st lid h hs" and "map_get (waitingSocks hs) otp = None" and "length otp < KEY_SIZE"
  shows "\<exists>st' hs'. addWaitingSock lid otp w st = Some (True, st') \<and> listens st' lid h hs'
    \<and> map_get (waitingSocks hs') = (map_get (waitingSocks hs))(otp \<mapsto> w)"
proof -
  have i: "map_inv (waitingSocks hs)" using assms(1) by (simp add: listens_def)
  obtain m where m: "map_put False (waitingSocks hs) otp w = Some m"
    using cmap.put_total [OF i, of otp False w] assms(3) unfolding key_fits_def by blast
  from cmap.put_inv [OF i m] cmap.get_put [OF i m] listens_upd [OF assms(1)] listens_upd_hn [OF assms(1)]
  show ?thesis using assms m by (auto simp: addWaitingSock_def listens_active intro!: exI)
qed

lemma remove_waiting:
  assumes "listens st lid h hs"
  shows "\<exists>st' hs'. removeWaitingSocket lid otp st = Some (map_get (waitingSocks hs) otp \<noteq> None, st') \<and> listens st' lid h hs'
    \<and> map_get (waitingSocks hs') = (map_get (waitingSocks hs))(otp := None)"
proof -
  have i: "map_inv (waitingSocks hs)" using assms by (simp add: listens_def)
  obtain r m fr where d: "map_del (waitingSocks hs) otp False = (r, m, fr)" by (cases "map_del (waitingSocks hs) otp False")
  from map_del_spec [OF i d] listens_upd [OF assms] listens_upd_hn [OF assms] d
  show ?thesis by (auto simp: removeWaitingSocket_def listens_active [OF assms] intro!: exI)
qed

text \<open>
  (C21) A one-time password works once: after a socket was entered as waiting under it, the
  lookup finds that socket, a second entry under the same password is refused, and after the
  removal the lookup finds nothing; other passwords are not affected.
\<close>

theorem otp_single_use:
  assumes "listens st lid h hs" and "getWaitingSocket lid otp st = Some None" and "length otp < 30"
  shows "\<exists>st1 st2. addWaitingSock lid otp w st = Some (True, st1)
    \<and> getWaitingSocket lid otp st1 = Some (Some w)
    \<and> addWaitingSock lid otp w' st1 = Some (False, st1)
    \<and> removeWaitingSocket lid otp st1 = Some (True, st2)
    \<and> getWaitingSocket lid otp st2 = Some None
    \<and> (\<forall>otp'. otp' \<noteq> otp \<longrightarrow> getWaitingSocket lid otp' st1 = getWaitingSocket lid otp' st
          \<and> getWaitingSocket lid otp' st2 = getWaitingSocket lid otp' st)"
proof -
  have n: "map_get (waitingSocks hs) otp = None" using assms(2) listens_get [OF assms(1)] by simp
  have k: "length otp < KEY_SIZE" using assms(3) by (simp add: KEY_SIZE_def)
  from add_waiting [OF assms(1) n k] obtain st1 hs1 where a: "addWaitingSock lid otp w st = Some (True, st1)"
    and l1: "listens st1 lid h hs1" and g1: "map_get (waitingSocks hs1) = (map_get (waitingSocks hs))(otp \<mapsto> w)" by blast
  from remove_waiting [OF l1, of otp] g1 obtain st2 hs2 where r: "removeWaitingSocket lid otp st1 = Some (True, st2)"
    and l2: "listens st2 lid h hs2" and g2: "map_get (waitingSocks hs2) = (map_get (waitingSocks hs1))(otp := None)" by auto
  have "addWaitingSock lid otp w' st1 = Some (False, st1)"
    using g1 by (simp add: addWaitingSock_def listens_active [OF l1])
  with a r show ?thesis
    using listens_get [OF assms(1)] listens_get [OF l1] listens_get [OF l2] g1 g2
    by (intro exI [of _ st1] exI [of _ st2]) simp
qed

definition bridge_idle :: bridgeMode where
  "bridge_idle = \<lparr>br_port = 2000, br_rlId = [], br_rlUrl = [], br_rlPass = [], useMdns = 0, connectAuthLevel = 0,
     requireQueryAuth = 1, requireRLAuth = 0, br_context = bridgeContextInit\<rparr>"

theorem otp_single_use_witness:
  "let hs = (fresh_hn 3 SOCK_MODE_LISTEN True);
       st = hn_idle\<lparr>conf := (conf hn_idle)\<lparr>cf_mode := Some HN_MODE_BRIDGE,
              bridge := Some (bridge_idle\<lparr>br_context := bridgeContextInit\<lparr>listeningSocks := \<lparr>map_start = [(''abc'', 7)], map_count = 1\<rparr>\<rparr>\<rparr>)\<rparr>,
              hnSocks := Map.empty(7 \<mapsto> hs)\<rparr>
   in \<exists>st1 st2. addWaitingSock ''abc'' ''12345678'' 9 st = Some (True, st1)
        \<and> removeWaitingSocket ''abc'' ''12345678'' st1 = Some (True, st2) \<and> getWaitingSocket ''abc'' ''12345678'' st2 = Some None"
proof -
  let ?hs = "fresh_hn 3 SOCK_MODE_LISTEN True"
  let ?st = "hn_idle\<lparr>conf := (conf hn_idle)\<lparr>cf_mode := Some HN_MODE_BRIDGE,
              bridge := Some (bridge_idle\<lparr>br_context := bridgeContextInit\<lparr>listeningSocks := \<lparr>map_start = [(''abc'', 7)], map_count = 1\<rparr>\<rparr>\<rparr>)\<rparr>,
              hnSocks := Map.empty(7 \<mapsto> ?hs)\<rparr>"
  have l: "listens ?st ''abc'' 7 ?hs" by (simp add: listens_def get_ctx_def fresh_hn_def map_get_map_of)
  then have "getWaitingSocket ''abc'' ''12345678'' ?st = Some None"
    by (simp add: listens_get) (simp add: fresh_hn_def)
  moreover have "length ''12345678'' < 30" by simp
  ultimately show ?thesis unfolding Let_def using otp_single_use [OF l, of "''12345678''" 9 9] by blast
qed


section \<open>The authentication exchange\<close>

lemma code_alphabet_chars: "set code_alphabet \<inter> {CR, LF, NUL, CHR '' '', CHR ''|''} = {}" "length code_alphabet = 62"
  by (simp_all add: code_alphabet_def)

lemma generateCode_shape:
  assumes "generateCode os n st = (c, st')" and "1 \<le> n"
  shows "length c = nat n \<and> set c \<subseteq> set code_alphabet
    \<and> st' = st\<lparr>ticks := ticks st + 1, mySeed := mySeed st + 1\<rparr>"
  using assms code_alphabet_chars(2) by (auto simp: generateCode_def os_time_def Let_def)

lemma hex_no_controls: "NUL \<notin> set (sha512_hex x)" "CR \<notin> set (sha512_hex x)"
  using sha.H_digits [of x] by (auto simp: sha2_hex_digits_def)

lemma no_CR_no_end: "CR \<notin> set m \<Longrightarrow> \<not> sublist HN_MSG_END m"
  by (auto simp: sublist_def HN_MSG_END_def)

lemma auth_exchange:
  assumes "msg_ready st p s" and "below_buff os = pre @ [NUL, NUL]"
    and "generateCode os 15 st = (nonce, st0)"
    and "key \<noteq> []" and "set key \<inter> {CHR '' '', CR, NUL} = {}" and "length key + length salt < 490" and "length key < 450"
    and "map_get keyStore key = Some salt"
    and "generateAuthResp nonce (Some key) (Some salt) = Some resp"
    and "concat cs = resp @ HN_MSG_END" and "[] \<notin> set cs" and "inbox st (fd s) = map Recv cs @ rest"
  shows "\<exists>ws. authThrowChallenge os p keyStore st = Some (True, resp, st\<lparr>ticks := ticks st + 1, mySeed := mySeed st + 1,
      wscript := (wscript st)(fd s := ws), outbox := (outbox st)(fd s := outbox st (fd s) @ ''AUTH '' @ nonce @ HN_MSG_END),
      inbox := (inbox st)(fd s := rest)\<rparr>) \<and> (\<forall>w\<in>set ws. 0 < w)"
proof -
  from generateCode_shape [OF assms(3)] have n: "length nonce = 15"
    and st0: "st0 = st\<lparr>ticks := ticks st + 1, mySeed := mySeed st + 1\<rparr>" by simp_all
  have r0: "msg_ready st0 p s" using assms(1) by (simp add: st0 msg_ready_def)
  have "length (''AUTH '' @ nonce) + 2 < BUFF_SIZE" using n by (simp add: BUFF_SIZE_def)
  from hn_sendMsg_ready [OF r0 this] obtain ws where snd: "hn_sendMsg p (''AUTH '' @ nonce) st0
      = Some (int (length (''AUTH '' @ nonce)) + 2, (''AUTH '' @ nonce) @ HN_MSG_END,
      st0\<lparr>wscript := (wscript st0)(fd s := ws), outbox := (outbox st0)(fd s := outbox st0 (fd s) @ (''AUTH '' @ nonce) @ HN_MSG_END)\<rparr>)"
    and ws: "\<forall>w\<in>set ws. 0 < w" by blast
  define st1 where "st1 = st0\<lparr>wscript := (wscript st0)(fd s := ws),
      outbox := (outbox st0)(fd s := outbox st0 (fd s) @ (''AUTH '' @ nonce) @ HN_MSG_END)\<rparr>"
  have sz: "auth_sizes nonce key salt" using n assms(6,7) by (simp add: auth_sizes_def auth_raw_def)
  have resp: "resp = key @ '' '' @ sha512_hex (auth_raw nonce key salt)"
    using generateAuthResp_value [OF sz assms(4)] assms(9) by simp
  have m: "NUL \<notin> set resp" "\<not> sublist HN_MSG_END resp" "length resp + 2 < BUFF_SIZE"
    using assms(5,7) hex_no_controls sha.H_length [of "auth_raw nonce key salt"]
    by (auto simp: resp BUFF_SIZE_def intro!: no_CR_no_end)
  have rcv: "hn_receiveMsg os p st1 = Some (int (length resp), resp, st1\<lparr>inbox := (inbox st1)(fd s := rest)\<rparr>)"
    by (rule hn_receiveMsg_chunks [OF assms(2) _ _ _ m(2,1,3) assms(10,11)])
       (use assms(1,12) in \<open>simp_all add: st1_def st0 msg_ready_def\<close>)
  have v: "verifyAuthRespFromMap resp nonce keyStore = Some True"
    using verify_defined [OF sz assms(4) _ assms(8), of "auth_raw nonce key salt"] assms(5) resp by simp
  have "0 < length resp" by (simp add: resp)
  then have "authThrowChallenge os p keyStore st = Some (True, resp, st1\<lparr>inbox := (inbox st1)(fd s := rest)\<rparr>)"
    using assms(3) snd [folded st1_def] rcv v by (simp add: authThrowChallenge_def generateAuthChallenge_def)
  with ws show ?thesis by (intro exI [of _ ws]) (simp add: st1_def st0)
qed

text \<open>
  (C20) The exchange lets an honest client in: the bridge sends \<open>AUTH\<close> with a fresh code of
  15 characters, and when the client's reply, in whatever chunks it arrives, is the response
  the client code computes for that nonce with a key and salt of the key store, the bridge
  accepts.
\<close>

theorem auth_exchange_accepts:
  assumes "msg_ready st p s" and "below_buff os = pre @ [NUL, NUL]"
    and "generateCode os 15 st = (nonce, st0)"
    and "key \<noteq> []" and "set key \<inter> {CHR '' '', CR, NUL} = {}" and "length key + length salt < 490" and "length key < 450"
    and "map_get keyStore key = Some salt"
    and "generateAuthResp nonce (Some key) (Some salt) = Some resp"
    and "concat cs = resp @ HN_MSG_END" and "[] \<notin> set cs" and "inbox st (fd s) = map Recv cs @ rest"
  shows "\<exists>st'. authThrowChallenge os p keyStore st = Some (True, resp, st')
    \<and> outbox st' (fd s) = outbox st (fd s) @ ''AUTH '' @ nonce @ HN_MSG_END"
  using auth_exchange [OF assms] by auto

theorem auth_exchange_accepts_witness:
  "let nonce = fst (generateCode os_plain 15 hn_idle);
       resp = ''k '' @ sha512_hex (nonce @ ''|k|s'');
       st = hn_idle\<lparr>socks := Map.empty(1 \<mapsto> sock_init TCPSOCKET 5), inbox := \<lambda>_. [Recv (resp @ HN_MSG_END)]\<rparr>
   in \<exists>st'. authThrowChallenge os_plain 1 \<lparr>map_start = [(''k'', ''s'')], map_count = 1\<rparr> st = Some (True, resp, st')"
proof -
  define nonce where "nonce = fst (generateCode os_plain 15 hn_idle)"
  define resp where "resp = ''k '' @ sha512_hex (nonce @ ''|k|s'')"
  define st where "st = hn_idle\<lparr>socks := Map.empty(1 \<mapsto> sock_init TCPSOCKET 5), inbox := \<lambda>_. [Recv (resp @ HN_MSG_END)]\<rparr>"
  have r: "msg_ready st 1 (sock_init TCPSOCKET 5)" by (simp add: st_def msg_ready_def sock_init_def hn_idle_def)
  have b: "below_buff os_plain = replicate 30 NUL @ [NUL, NUL]" by (simp add: os_plain_def eval_nat_numeral)
  have "fst (generateCode os_plain 15 st) = nonce"
    by (simp add: st_def nonce_def generateCode_def os_time_def Let_def)
  then obtain st0 where g: "generateCode os_plain 15 st = (nonce, st0)" by (cases "generateCode os_plain 15 st") simp
  have "auth_sizes nonce ''k'' ''s''" using generateCode_shape [OF g] by (simp add: auth_sizes_def auth_raw_def)
  then have a: "generateAuthResp nonce (Some ''k'') (Some ''s'') = Some resp"
    by (simp add: generateAuthResp_value resp_def auth_raw_def)
  have "\<exists>st'. authThrowChallenge os_plain 1 \<lparr>map_start = [(''k'', ''s'')], map_count = 1\<rparr> st = Some (True, resp, st')
    \<and> outbox st' (fd (sock_init TCPSOCKET 5)) = outbox st (fd (sock_init TCPSOCKET 5)) @ ''AUTH '' @ nonce @ HN_MSG_END"
    by (rule auth_exchange_accepts [OF r b g _ _ _ _ _ a, where cs = "[resp @ HN_MSG_END]" and rest = "[]"])
       (simp_all add: map_get_map_of st_def sock_init_def resp_def)
  then show ?thesis unfolding Let_def nonce_def [symmetric] resp_def [symmetric] st_def [symmetric] by blast
qed

end
