(* ===== verification/Dns_Encode.thy ===== *)
theory Dns_Encode
  imports Dns_Types
begin

text \<open>
  The encoder of lib/dns/codec.c.  The context is the output written so far, the room left in
  the packet, the table of name suffixes already written (with their offsets), and the flag
  that an OPT record was written.  The library is built with its assertions: a failed
  assertion aborts the program and is \<open>None\<close>, like an access outside an object.  An error
  leaves what was written in the packet, so the context is part of every result.
\<close>

unbundle bit_operations_syntax

section \<open>Context\<close>

record edns_context =
  e_out :: string
  e_room :: nat
  e_segs :: "(string \<times> nat) list"
  e_edns :: bool
  e_rcode :: nat

type_synonym enc_result = "(dns_rcode \<times> edns_context) option"

definition enc_then :: "enc_result \<Rightarrow> (edns_context \<Rightarrow> enc_result) \<Rightarrow> enc_result" where
  "enc_then m f = (case m of None \<Rightarrow> None | Some (rc, c) \<Rightarrow> if rc = RCODE_OKAY then f c else Some (rc, c))"

definition econtext_okay :: "edns_context \<Rightarrow> bool" where
  "econtext_okay c \<longleftrightarrow> e_room c > 0"

definition emit :: "string \<Rightarrow> edns_context \<Rightarrow> edns_context" where
  "emit bs c = c\<lparr>e_out := e_out c @ bs, e_room := e_room c - length bs\<rparr>"

text \<open>Writing behind a check of the room left.\<close>

definition emit_checked :: "nat \<Rightarrow> string \<Rightarrow> edns_context \<Rightarrow> enc_result" where
  "emit_checked need bs c = (if e_room c < need then Some (RCODE_NO_MEMORY, c) else Some (RCODE_OKAY, emit bs c))"

definition write_uint16 :: "nat \<Rightarrow> edns_context \<Rightarrow> edns_context option" where
  "write_uint16 v c = (if e_room c < 2 then None else Some (emit (u16_bytes v) c))"

definition write_uint32 :: "nat \<Rightarrow> edns_context \<Rightarrow> edns_context option" where
  "write_uint32 v c = (if e_room c < 4 then None else Some (emit (u32_bytes v) c))"

section \<open>Names and strings\<close>

fun segment_find :: "string \<Rightarrow> (string \<times> nat) list \<Rightarrow> nat option" where
  "segment_find src [] = None"
| "segment_find src ((nm, off) # segs) = (if src = nm then Some off else segment_find src segs)"

text \<open>The rest of the name, the offset of the label and the context.\<close>

definition encode_segment :: "string \<Rightarrow> edns_context \<Rightarrow> dns_rcode + (string \<times> nat \<times> edns_context)" where
  "encode_segment src c =
     (if CHR ''.'' \<notin> set src then Inl RCODE_NAME_ERROR
      else let l = takeWhile (\<lambda>x. x \<noteq> CHR ''.'') src; len = length l in
        if len \<ge> MAX_DOMAIN_LABEL then Inl RCODE_NAME_ERROR
        else if e_room c < len + 1 then Inl RCODE_NO_MEMORY
        else Inr (drop (len + 1) src, length (e_out c), emit (u8_bytes len @ l) c))"

lemma encode_segment_shorter: "encode_segment src c = Inr (rest, off, c') \<Longrightarrow> length rest < length src"
  by (cases src) (auto simp: encode_segment_def Let_def split: if_splits)

text \<open>A suffix already written becomes a pointer with the two top bits set.\<close>

definition pointer_bytes :: "nat \<Rightarrow> string" where
  "pointer_bytes off = [char_of (192 + off div 256 mod 64), char_of off]"

function encode_labels :: "string \<Rightarrow> edns_context \<Rightarrow> enc_result" where
  "encode_labels nm c =
     (if nm = [] \<or> hd nm = CHR ''.'' then emit_checked 1 (u8_bytes 0) c
      else case segment_find nm (e_segs c) of
             Some off \<Rightarrow> emit_checked 2 (pointer_bytes off) c
           | None \<Rightarrow>
               if length (e_segs c) = MAXSEG then Some (RCODE_NO_MEMORY, c)
               else (case encode_segment nm c of
                       Inl rc \<Rightarrow> Some (rc, c)
                     | Inr (rest, off, c') \<Rightarrow> encode_labels rest (c'\<lparr>e_segs := e_segs c @ [(nm, off)]\<rparr>)))"
  by pat_completeness auto
termination
  by (relation "measure (\<lambda>(nm, c). length nm)") (auto dest: encode_segment_shorter)

declare encode_labels.simps [simp del]

definition encode_domain :: "string \<Rightarrow> edns_context \<Rightarrow> enc_result" where
  "encode_domain nm c = (if \<not> econtext_okay c then None else encode_labels nm c)"

definition encode_string :: "string \<Rightarrow> edns_context \<Rightarrow> enc_result" where
  "encode_string txt c =
     (if \<not> econtext_okay c then None
      else if length txt > 255 then Some (RCODE_BAD_STRING, c)
      else emit_checked (length txt + 1) (u8_bytes (length txt) @ txt) c)"

definition encode_question :: "dns_question \<Rightarrow> edns_context \<Rightarrow> enc_result" where
  "encode_question q c =
     (case qu_name q of
        None \<Rightarrow> None
      | Some nm \<Rightarrow>
          if \<not> econtext_okay c \<or> qu_type q = RR_OPT \<or> qu_class q < 1 \<or> qu_class q > 4 then None
          else enc_then (encode_domain nm c) (\<lambda>c1.
            if e_room c1 < 4 then Some (RCODE_NO_MEMORY, c1)
            else do { c2 \<leftarrow> write_uint16 (qu_type q) c1; c3 \<leftarrow> write_uint16 (qu_class q) c2; Some (RCODE_OKAY, c3) }))"

section \<open>Resource records\<close>

definition encode_rr_a :: "string \<Rightarrow> edns_context \<Rightarrow> enc_result" where
  "encode_rr_a adr c = (if \<not> econtext_okay c then None else emit_checked 4 adr c)"

definition encode_rr_soa :: "dns_soa \<Rightarrow> edns_context \<Rightarrow> enc_result" where
  "encode_rr_soa soa c =
     (if \<not> econtext_okay c then None
      else enc_then (encode_domain (soa_mname soa) c) (\<lambda>c1. enc_then (encode_domain (soa_rname soa) c1) (\<lambda>c2.
        if e_room c2 < 20 then Some (RCODE_NO_MEMORY, c2)
        else do {
          c3 \<leftarrow> write_uint32 (soa_serial soa) c2;
          c4 \<leftarrow> write_uint32 (soa_refresh soa) c3;
          c5 \<leftarrow> write_uint32 (soa_retry soa) c4;
          c6 \<leftarrow> write_uint32 (soa_expire soa) c5;
          c7 \<leftarrow> write_uint32 (soa_minimum soa) c6;
          Some (RCODE_OKAY, c7) })))"

definition encode_rr_aaaa :: "string \<Rightarrow> edns_context \<Rightarrow> enc_result" where
  "encode_rr_aaaa adr c = (if \<not> econtext_okay c then None else emit_checked 16 adr c)"

definition encode_rr_srv :: "nat \<Rightarrow> nat \<Rightarrow> nat \<Rightarrow> string \<Rightarrow> edns_context \<Rightarrow> enc_result" where
  "encode_rr_srv prio weight port target c =
     (if \<not> econtext_okay c \<or> prio > 65535 \<or> weight > 65535 \<or> port > 65535 then None
      else if e_room c < 7 then Some (RCODE_NO_MEMORY, c)
      else do {
        c1 \<leftarrow> write_uint16 prio c;
        c2 \<leftarrow> write_uint16 weight c1;
        c3 \<leftarrow> write_uint16 port c2;
        encode_domain target c3 })"

definition encode_rr_wks :: "string \<Rightarrow> nat \<Rightarrow> string \<Rightarrow> edns_context \<Rightarrow> enc_result" where
  "encode_rr_wks adr protocol bits c =
     (if \<not> econtext_okay c \<or> protocol > 65535 \<or> length bits > 8192 \<or> bits = [] then None
      else if e_room c < length bits + 6 then Some (RCODE_NO_MEMORY, c)
      else do { c1 \<leftarrow> write_uint16 protocol (emit adr c); Some (RCODE_OKAY, emit bits c1) })"

text \<open>
  A printed number longer than its array of 12 characters is cut by \<open>snprintf\<close>, but the length
  handed on is the full one.
\<close>

definition encode_fp :: "fpu \<Rightarrow> 64 word \<Rightarrow> edns_context \<Rightarrow> enc_result" where
  "encode_fp fpu v c =
     (let t = fp_print fpu v; n = length t; buf = take 11 t @ [NUL] in
      if \<not> econtext_okay c then None
      else if n > 255 then Some (RCODE_BAD_STRING, c)
      else if e_room c < n + 1 then Some (RCODE_NO_MEMORY, c)
      else if n > 12 then None
      else Some (RCODE_OKAY, emit (u8_bytes n @ take n buf) c))"

definition gpos_degrees :: "fpu \<Rightarrow> dnsgpos_angle \<Rightarrow> 64 word" where
  "gpos_degrees fpu a =
     (let d = fp_int fpu in
      fp_add fpu (fp_add fpu (fp_add fpu (d (ang_deg a)) (fp_div fpu (d (ang_min a)) (d 60)))
        (fp_div fpu (d (ang_sec a)) (d 3600))) (fp_div fpu (d (ang_frac a)) (d 3600000)))"

definition angle_okay :: "int \<Rightarrow> dnsgpos_angle \<Rightarrow> bool" where
  "angle_okay mx a \<longleftrightarrow> ang_deg a \<le> mx \<and> ang_min a < 60 \<and> ang_sec a < 60 \<and> ang_frac a < 1000"

definition encode_rr_gpos :: "fpu \<Rightarrow> dns_gpos \<Rightarrow> edns_context \<Rightarrow> enc_result" where
  "encode_rr_gpos fpu g c =
     (if \<not> econtext_okay c \<or> \<not> angle_okay 180 (gp_longitude g) \<or> \<not> angle_okay 90 (gp_latitude g) then None
      else let
        lat0 = gpos_degrees fpu (gp_latitude g); lat = (if ang_nw (gp_latitude g) then lat0 else fp_neg fpu lat0);
        lng0 = gpos_degrees fpu (gp_longitude g); lng = (if ang_nw (gp_longitude g) then fp_neg fpu lng0 else lng0)
      in enc_then (encode_fp fpu lng c) (\<lambda>c1. enc_then (encode_fp fpu lat c1) (encode_fp fpu (gp_altitude g))))"

text \<open>
  The scale byte of a location: \<open>modf (log10 scale)\<close> and \<open>pow (10, ip)\<close> are exact for the
  scales the assertions admit, so the digits are those of the decimal representation.
\<close>

fun decimal_exp :: "nat \<Rightarrow> nat" where
  "decimal_exp n = (if n < 10 then 0 else Suc (decimal_exp (n div 10)))"

declare decimal_exp.simps [simp del]

definition eloc_scale :: "nat \<Rightarrow> nat \<Rightarrow> nat option" where
  "eloc_scale scale def =
     (let s = (if scale = 0 then def else scale); spow = decimal_exp s; smul = s div 10 ^ spow in
      if smul \<le> 9 \<and> spow \<le> 9 then Some (smul * 16 + spow) else None)"

definition loc_angle :: "dnsgpos_angle \<Rightarrow> int" where
  "loc_angle a = (ang_deg a * 3600000 + ang_min a * 60000 + ang_sec a * 1000 + ang_frac a) mod 2 ^ 32"

definition u32 :: "int \<Rightarrow> nat" where
  "u32 v = nat (v mod 2 ^ 32)"

text \<open>
  The version and the three scale bytes advance the pointer into the packet, but they are not
  taken off the room left, so four bytes more than there are stay available.
\<close>

definition encode_rr_loc :: "dns_loc \<Rightarrow> edns_context \<Rightarrow> enc_result" where
  "encode_rr_loc loc c =
     (let lat = loc_latitude loc; lng = loc_longitude loc in
      if \<not> econtext_okay c \<or> loc_size loc > 9000000000 \<or> loc_horiz_pre loc > 9000000000 \<or> loc_vert_pre loc > 9000000000
        \<or> \<not> angle_okay 90 lat \<or> ang_min lng \<ge> 60 \<or> ang_sec lng \<ge> 60 \<or> ang_frac lng \<ge> 1000 then None
      else if e_room c < 16 then Some (RCODE_NO_MEMORY, c)
      else do {
        s \<leftarrow> eloc_scale (loc_size loc) 100;
        h \<leftarrow> eloc_scale (loc_horiz_pre loc) 1000000;
        v \<leftarrow> eloc_scale (loc_vert_pre loc) 1000;
        let la = loc_angle lat;
        let lo = loc_angle lng;
        if la > int LOC_LAT_MAX \<or> lo > int LOC_LNG_MAX then None
        else do {
          let c1 = c\<lparr>e_out := e_out c @ u8_bytes 0 @ u8_bytes s @ u8_bytes h @ u8_bytes v\<rparr>;
          c2 \<leftarrow> write_uint32 (u32 (if ang_nw lat then la + int LOC_BIAS else int LOC_BIAS - la)) c1;
          c3 \<leftarrow> write_uint32 (u32 (if ang_nw lng then int LOC_BIAS - lo else lo + int LOC_BIAS)) c2;
          c4 \<leftarrow> write_uint32 (u32 (loc_altitude loc mod 2 ^ 32 + LOC_ALT_BIAS)) c3;
          Some (RCODE_OKAY, c4) } })"

text \<open>With an empty option \<open>strlen\<close> is taken of an array that was never written.\<close>

definition hex_digit :: "nat \<Rightarrow> char" where
  "hex_digit n = ''0123456789ABCDEF'' ! n"

definition encode_edns0rr_nsid :: "edns0_opt \<Rightarrow> edns_context \<Rightarrow> enc_result" where
  "encode_edns0rr_nsid opt c =
     (let hex = concat (map (\<lambda>x. [hex_digit (octet x div 16), hex_digit (octet x mod 16)]) (eo_data opt)) in
      if \<not> econtext_okay c \<or> length (eo_data opt) > 65535 then None
      else if e_room c < length hex + 4 then Some (RCODE_NO_MEMORY, c)
      else if hex = [] then None
      else Some (RCODE_OKAY, emit (u16_bytes (eo_code opt) @ u16_bytes (length hex) @ hex) c))"

definition encode_edns0rr_raw :: "edns0_opt \<Rightarrow> edns_context \<Rightarrow> enc_result" where
  "encode_edns0rr_raw opt c =
     (if \<not> econtext_okay c \<or> eo_code opt > 65535 \<or> length (eo_data opt) > 65535 then None
      else emit_checked (length (eo_data opt) + 4)
             (u16_bytes (eo_code opt) @ u16_bytes (length (eo_data opt)) @ eo_data opt) c)"

fun encode_opts :: "edns0_opt list \<Rightarrow> edns_context \<Rightarrow> enc_result" where
  "encode_opts [] c = Some (RCODE_OKAY, c)"
| "encode_opts (opt # opts) c =
     enc_then (if eo_code opt = EDNS0RR_NSID then encode_edns0rr_nsid opt c else encode_edns0rr_raw opt c)
       (encode_opts opts)"

definition encode_rr_opt :: "nat \<Rightarrow> dns_edns0opt \<Rightarrow> edns_context \<Rightarrow> enc_result" where
  "encode_rr_opt cls opt c =
     (if \<not> econtext_okay c \<or> cls \<noteq> op_udp_payload opt \<or> op_version opt \<noteq> 0 \<or> op_udp_payload opt > 65535 then None
      else if e_edns c then Some (RCODE_FORMAT_ERROR, c)
      else if e_room c < 11 then Some (RCODE_NO_MEMORY, c)
      else encode_opts (op_opts opt) (c\<lparr>e_edns := True\<rparr>))"

definition encode_rr_naptr :: "nat \<Rightarrow> dns_naptr \<Rightarrow> edns_context \<Rightarrow> enc_result" where
  "encode_rr_naptr cls na c =
     (if \<not> econtext_okay c \<or> cls \<noteq> CLASS_IN \<or> na_order na > 65535 \<or> na_preference na > 65535 then None
      else if e_room c < 4 then Some (RCODE_NO_MEMORY, c)
      else do {
        c1 \<leftarrow> write_uint16 (na_order na) c;
        c2 \<leftarrow> write_uint16 (na_preference na) c1;
        enc_then (encode_string (na_flags na) c2) (\<lambda>c3. enc_then (encode_string (na_services na) c3)
          (\<lambda>c4. enc_then (encode_string (na_regexp na) c4) (encode_domain (na_replacement na)))) })"

definition encode_rr_minfo :: "string \<Rightarrow> string \<Rightarrow> edns_context \<Rightarrow> enc_result" where
  "encode_rr_minfo rmailbx emailbx c =
     (if \<not> econtext_okay c then None else enc_then (encode_domain rmailbx c) (encode_domain emailbx))"

definition encode_rr_mx :: "nat \<Rightarrow> string \<Rightarrow> edns_context \<Rightarrow> enc_result" where
  "encode_rr_mx preference exchange c =
     (if \<not> econtext_okay c \<or> preference > 65535 then None
      else if e_room c < 2 then Some (RCODE_NO_MEMORY, c)
      else do { c1 \<leftarrow> write_uint16 preference c; encode_domain exchange c1 })"

definition encode_rr_hinfo :: "string \<Rightarrow> string \<Rightarrow> edns_context \<Rightarrow> enc_result" where
  "encode_rr_hinfo cpu os c =
     (if \<not> econtext_okay c then None else enc_then (encode_string cpu c) (encode_string os))"

text \<open>A text is cut into strings of at most 255 bytes.\<close>

function encode_chunks :: "string \<Rightarrow> edns_context \<Rightarrow> enc_result" where
  "encode_chunks txt c =
     (if txt = [] then Some (RCODE_OKAY, c)
      else enc_then (encode_string (take 255 txt) c) (encode_chunks (drop 255 txt)))"
  by pat_completeness auto
termination
  by (relation "measure (\<lambda>(txt, c). length txt)") auto

declare encode_chunks.simps [simp del]

definition encode_rr_txt :: "string \<Rightarrow> edns_context \<Rightarrow> enc_result" where
  "encode_rr_txt txt c = (if \<not> econtext_okay c \<or> txt = [] then None else encode_chunks txt c)"

definition encode_rr_x :: "string \<Rightarrow> edns_context \<Rightarrow> enc_result" where
  "encode_rr_x raw c = (if \<not> econtext_okay c \<or> raw = [] then None else emit_checked (length raw) raw c)"

text \<open>The member selected by the type; another member would be read as this one.\<close>

definition encode_rdata :: "fpu \<Rightarrow> nat \<Rightarrow> nat \<Rightarrow> rdata \<Rightarrow> edns_context \<Rightarrow> enc_result" where
  "encode_rdata fpu t cls d c =
     (case (rr_kind t, d) of
        (K_A, RD_A adr) \<Rightarrow> encode_rr_a adr c
      | (K_SOA, RD_SOA soa) \<Rightarrow> encode_rr_soa soa c
      | (K_NAPTR, RD_NAPTR na) \<Rightarrow> encode_rr_naptr cls na c
      | (K_AAAA, RD_AAAA adr) \<Rightarrow> encode_rr_aaaa adr c
      | (K_SRV, RD_SRV prio weight port target) \<Rightarrow> encode_rr_srv prio weight port target c
      | (K_WKS, RD_WKS adr protocol bits) \<Rightarrow> encode_rr_wks adr protocol bits c
      | (K_GPOS, RD_GPOS g) \<Rightarrow> encode_rr_gpos fpu g c
      | (K_LOC, RD_LOC loc) \<Rightarrow> encode_rr_loc loc c
      | (K_OPT, RD_OPT opt) \<Rightarrow> encode_rr_opt cls opt c
      | (K_MINFO, RD_MINFO a b) \<Rightarrow> encode_rr_minfo a b c
      | (K_MX, RD_MX p x) \<Rightarrow> encode_rr_mx p x c
      | (K_HINFO, RD_HINFO a b) \<Rightarrow> encode_rr_hinfo a b c
      | (K_TXT, RD_TXT txt) \<Rightarrow> encode_rr_txt txt c
      | (K_NAME, RD_NAME nm) \<Rightarrow> encode_domain nm c
      | (K_NULL, RD_X raw) \<Rightarrow> encode_rr_x raw c
      | (K_OTHER, _) \<Rightarrow> Some (RCODE_NOT_IMPLEMENTED, c)
      | _ \<Rightarrow> None)"

text \<open>Class and lifetime of an OPT record carry other data.\<close>

definition opt_ttl :: "nat \<Rightarrow> dns_edns0opt \<Rightarrow> nat" where
  "opt_ttl rcode opt =
     (rcode div 16 mod 256) * 2 ^ 24 + (op_version opt mod 256) * 2 ^ 16
     + ((if op_fdo opt then 128 else 0) * 256 OR swap16 (op_z opt mod 65536))"

definition wire_class_ttl :: "nat \<Rightarrow> dns_answer \<Rightarrow> nat \<times> nat" where
  "wire_class_ttl rcode a =
     (case (an_type a = RR_OPT, an_data a) of
        (True, RD_OPT opt) \<Rightarrow> (op_udp_payload opt, opt_ttl rcode opt)
      | _ \<Rightarrow> (an_class a, an_ttl a))"

text \<open>The length of the data is patched in when the data has been written; until then it is zero.\<close>

definition patch_rdlen :: "nat \<Rightarrow> edns_context \<Rightarrow> edns_context" where
  "patch_rdlen pos c =
     c\<lparr>e_out := take pos (e_out c) @ u16_bytes (length (e_out c) - (pos + 2)) @ drop (pos + 2) (e_out c)\<rparr>"

definition encode_answer :: "fpu \<Rightarrow> dns_answer \<Rightarrow> edns_context \<Rightarrow> enc_result" where
  "encode_answer fpu a c =
     (case an_name a of
        None \<Rightarrow> None
      | Some nm \<Rightarrow>
          enc_then (encode_domain nm c) (\<lambda>c1.
            if e_room c1 < 10 then Some (RCODE_NO_MEMORY, c1)
            else let (cls, ttl) = wire_class_ttl (e_rcode c1) a in do {
              c2 \<leftarrow> write_uint16 (an_type a) c1;
              c3 \<leftarrow> write_uint16 cls c2;
              c4 \<leftarrow> write_uint32 ttl c3;
              enc_then (encode_rdata fpu (an_type a) cls (an_data a) (emit [NUL, NUL] c4))
                (\<lambda>c5. Some (RCODE_OKAY, patch_rdlen (length (e_out c4)) c5)) }))"

section \<open>Messages\<close>

fun encode_questions :: "dns_question list \<Rightarrow> edns_context \<Rightarrow> enc_result" where
  "encode_questions [] c = Some (RCODE_OKAY, c)"
| "encode_questions (q # qs) c = enc_then (encode_question q c) (encode_questions qs)"

fun encode_answers :: "fpu \<Rightarrow> dns_answer list \<Rightarrow> edns_context \<Rightarrow> enc_result" where
  "encode_answers fpu [] c = Some (RCODE_OKAY, c)"
| "encode_answers fpu (a # as) c = enc_then (encode_answer fpu a c) (encode_answers fpu as)"

definition hdr_flag :: "nat \<Rightarrow> bool \<Rightarrow> nat" where
  "hdr_flag n b = (if b then n else 0)"

definition header_bytes :: "dns_query \<Rightarrow> string" where
  "header_bytes q =
     u16_bytes (nat (dq_id q))
     @ u8_bytes ((dq_opcode q mod 16) * 8 + hdr_flag 128 (\<not> dq_query q) + hdr_flag 4 (dq_aa q) + hdr_flag 2 (dq_tc q) + hdr_flag 1 (dq_rd q))
     @ u8_bytes (dq_rcode q mod 16 + hdr_flag 128 (dq_ra q) + hdr_flag 64 (dq_z q) + hdr_flag 32 (dq_ad q) + hdr_flag 16 (dq_cd q))
     @ u16_bytes (length (dq_questions q)) @ u16_bytes (length (dq_answers q))
     @ u16_bytes (length (dq_nameservers q)) @ u16_bytes (length (dq_additional q))"

definition query_okay :: "dns_query \<Rightarrow> bool" where
  "query_okay q \<longleftrightarrow> 0 \<le> dq_id q \<and> dq_id q \<le> 65535 \<and> dq_opcode q \<le> 5 \<and> dq_rcode q \<le> 15
     \<and> length (dq_questions q) \<le> 65535 \<and> length (dq_answers q) \<le> 65535
     \<and> length (dq_nameservers q) \<le> 65535 \<and> length (dq_additional q) \<le> 65535"

definition encode_sections :: "fpu \<Rightarrow> dns_query \<Rightarrow> edns_context \<Rightarrow> enc_result" where
  "encode_sections fpu q c =
     enc_then (encode_questions (dq_questions q) c) (\<lambda>c1.
     enc_then (encode_answers fpu (dq_answers q) c1) (\<lambda>c2.
     enc_then (encode_answers fpu (dq_nameservers q) c2) (\<lambda>c3.
       if e_edns c3 then Some (RCODE_FORMAT_ERROR, c3)
       else encode_answers fpu (dq_additional q) c3)))"

text \<open>The return code and all bytes written, from the start of the packet on.\<close>

definition dns_encode_written :: "fpu \<Rightarrow> nat \<Rightarrow> dns_query \<Rightarrow> (dns_rcode \<times> string) option" where
  "dns_encode_written fpu plen q =
     (if plen < HEADER_SIZE \<or> \<not> query_okay q then None
      else do {
        (rc, c) \<leftarrow> encode_sections fpu q
          \<lparr>e_out = header_bytes q, e_room = plen - HEADER_SIZE, e_segs = [], e_edns = False, e_rcode = dq_rcode q\<rparr>;
        Some (rc, e_out c) })"

text \<open>
  The packet has \<open>plen\<close> bytes, and writing behind it is a fault.  Otherwise the caller sends the
  message, or after an error the whole zeroed packet with what was written into it, because the
  length is left as it was.
\<close>

definition dns_encode :: "fpu \<Rightarrow> nat \<Rightarrow> dns_query \<Rightarrow> (dns_rcode \<times> string) option" where
  "dns_encode fpu plen q = do {
     (rc, bs) \<leftarrow> dns_encode_written fpu plen q;
     if plen < length bs then None
     else Some (rc, if rc = RCODE_OKAY then bs else bs @ replicate (plen - length bs) NUL) }"

end
