(* ===== verification/Dns_Decode.thy ===== *)
theory Dns_Decode
  imports Dns_Types
begin

text \<open>
  The decoder of lib/dns/codec.c.  The packet is the caller's array (\<open>d_mem\<close>) with the number
  of bytes received; the parse position is an offset into the array with the count of bytes
  left, which wraps around as \<open>size_t\<close>.  Of the memory for results only the size left is kept:
  strings and arrays are values.  Reading outside the array, writing past the result memory
  and a failed assertion are \<open>None\<close>; otherwise the result is a return code or a value.
\<close>

unbundle bit_operations_syntax

section \<open>Context\<close>

record ddns_context =
  d_mem :: string
  d_size :: nat
  d_ptr :: nat
  d_left :: nat
  d_dest :: nat
  d_edns :: bool
  d_rcode :: nat

type_synonym 'a dec_result = "(dns_rcode + 'a \<times> ddns_context) option"

definition and_then :: "'a dec_result \<Rightarrow> ('a \<Rightarrow> ddns_context \<Rightarrow> 'b dec_result) \<Rightarrow> 'b dec_result" where
  "and_then m f =
     (case m of None \<Rightarrow> None | Some (Inl rc) \<Rightarrow> Some (Inl rc) | Some (Inr (a, c)) \<Rightarrow> f a c)"

definition sub64 :: "nat \<Rightarrow> nat \<Rightarrow> nat" where
  "sub64 a b = (if b \<le> a then a - b else a + 2 ^ 64 - b)"

definition dcontext_okay :: "ddns_context \<Rightarrow> bool" where
  "dcontext_okay c \<longleftrightarrow> d_size c > 0 \<and> d_left c > 0 \<and> d_dest c > 0"

definition peek :: "ddns_context \<Rightarrow> nat \<Rightarrow> nat option" where
  "peek c i = (if d_ptr c + i < length (d_mem c) then Some (octet (d_mem c ! (d_ptr c + i))) else None)"

definition advance :: "nat \<Rightarrow> ddns_context \<Rightarrow> ddns_context" where
  "advance n c = c\<lparr>d_ptr := d_ptr c + n, d_left := sub64 (d_left c) n\<rparr>"

definition alloc :: "nat \<Rightarrow> ddns_context \<Rightarrow> ddns_context" where
  "alloc n c = c\<lparr>d_dest := d_dest c - n\<rparr>"

text \<open>The next \<open>n\<close> bytes of the array.\<close>

definition bytes_at :: "string \<Rightarrow> nat \<Rightarrow> nat \<Rightarrow> string option" where
  "bytes_at mem p n = (if p + n \<le> length mem then Some (take n (drop p mem)) else None)"

section \<open>Result memory\<close>

text \<open>The flag and the size left; the pointer moves by what the size loses.\<close>

definition align_memory :: "nat \<Rightarrow> (bool \<times> nat) option" where
  "align_memory n =
     (if n = 0 then None
      else if n < MEM_ALIGN then Some (False, n)
      else let newsize = n - n mod MEM_ALIGN in
        if newsize = n then Some (True, n)
        else let delta = (newsize + MEM_ALIGN) - n in
          if delta < n then Some (True, n - delta) else None)"

definition alloc_struct :: "nat \<Rightarrow> nat \<Rightarrow> (bool \<times> nat) option" where
  "alloc_struct n sz = do {
     (ok, n1) \<leftarrow> align_memory n;
     if \<not> ok \<or> n1 < sz then Some (False, n1) else Some (True, n1 - sz) }"

section \<open>Reading\<close>

definition read_uint16 :: "ddns_context \<Rightarrow> (nat \<times> ddns_context) option" where
  "read_uint16 c =
     (if d_left c < 2 then None
      else do { a \<leftarrow> peek c 0; b \<leftarrow> peek c 1; Some (a * 256 + b, advance 2 c) })"

definition read_uint32 :: "ddns_context \<Rightarrow> (nat \<times> ddns_context) option" where
  "read_uint32 c =
     (if d_left c < 4 then None
      else do {
        a \<leftarrow> peek c 0; b \<leftarrow> peek c 1; e \<leftarrow> peek c 2; f \<leftarrow> peek c 3;
        Some (a * 2 ^ 24 + b * 2 ^ 16 + e * 256 + f, advance 4 c) })"

definition read_raw :: "nat \<Rightarrow> ddns_context \<Rightarrow> string dec_result" where
  "read_raw len c =
     (if \<not> dcontext_okay c then None
      else if len = 0 then Some (Inr ([], c))
      else if len > d_left c then Some (Inl RCODE_FORMAT_ERROR)
      else do {
        (ok, n) \<leftarrow> align_memory (d_dest c);
        if \<not> ok \<or> len > n then Some (Inl RCODE_NO_MEMORY)
        else do {
          bs \<leftarrow> bytes_at (d_mem c) (d_ptr c) len;
          Some (Inr (bs, alloc len (advance len (c\<lparr>d_dest := n\<rparr>)))) } })"

definition read_string :: "ddns_context \<Rightarrow> string dec_result" where
  "read_string c =
     (if \<not> dcontext_okay c then None
      else do {
        len \<leftarrow> peek c 0;
        if d_dest c < len + 1 then Some (Inl RCODE_NO_MEMORY)
        else if d_left c < len + 1 then Some (Inl RCODE_FORMAT_ERROR)
        else do {
          bs \<leftarrow> bytes_at (d_mem c) (d_ptr c + 1) len;
          Some (Inr (cstr bs, alloc (len + 1) (advance (len + 1) c))) } })"

text \<open>
  A name: the labels from a position on, with the number of pointers followed so far, the
  room for the result, and the position at which parsing goes on once a pointer was followed.
  The counter starts at zero and is compared after each increment, so the equality test of
  the source is the order test here.
\<close>

datatype name_result = Name_rc dns_rcode | Name string nat "nat \<times> nat"

text \<open>Behind the zero byte that ends a name.\<close>

definition name_end :: "nat \<times> nat \<Rightarrow> (nat \<times> nat) option \<Rightarrow> nat \<Rightarrow> name_result option" where
  "name_end pos main dest =
     (if dest = 0 then None
      else Some (Name [] (dest - 1) (case main of None \<Rightarrow> (fst pos + 1, sub64 (snd pos) 1) | Some m \<Rightarrow> m)))"

definition prepend_label :: "string \<Rightarrow> name_result option \<Rightarrow> name_result option" where
  "prepend_label l r = (case r of Some (Name s d pos) \<Rightarrow> Some (Name (l @ CHR ''.'' # s) d pos) | _ \<Rightarrow> r)"

function read_labels ::
  "string \<Rightarrow> nat \<Rightarrow> nat \<Rightarrow> nat \<Rightarrow> (nat \<times> nat) option \<Rightarrow> nat \<Rightarrow> nat \<Rightarrow> name_result option" where
  "read_labels mem psize p n main loop dest =
     (if \<not> p < length mem then None
      else let b = octet (mem ! p) in
      if b < 64 then
        (if n < b + 1 then Some (Name_rc RCODE_FORMAT_ERROR)
         else if dest < b + 1 then Some (Name_rc RCODE_NO_MEMORY)
         else case bytes_at mem (p + 1) b of
                None \<Rightarrow> None
              | Some l \<Rightarrow>
                  let p' = (if b = 0 then p else p + b + 1); n' = (if b = 0 then n else n - (b + 1)); dest' = dest - (b + 1) in
                  if \<not> p' < length mem then None
                  else prepend_label l
                    (if mem ! p' = NUL then name_end (p', n') main dest'
                     else read_labels mem psize p' n' main loop dest'))
      else if b \<ge> 192 then
        (if 256 \<le> loop + 1 then Some (Name_rc RCODE_FORMAT_ERROR)
         else if n < 2 then Some (Name_rc RCODE_FORMAT_ERROR)
         else if \<not> p + 1 < length mem then None
         else let off = (b * 256 + octet (mem ! (p + 1))) mod 16384 in
           if off \<ge> psize then Some (Name_rc RCODE_FORMAT_ERROR)
           else if \<not> off < length mem then None
           else let main' = (case main of None \<Rightarrow> Some (p + 2, n - 2) | Some m \<Rightarrow> Some m) in
             if mem ! off = NUL then name_end (off, psize - off) main' dest
             else read_labels mem psize off (psize - off) main' (loop + 1) dest)
      else Some (Name_rc RCODE_FORMAT_ERROR))"
  by pat_completeness auto
termination
  by (relation "measures [\<lambda>(mem, psize, p, n, main, loop, dest). 256 - loop, \<lambda>(mem, psize, p, n, main, loop, dest). n]")
     (auto split: if_splits)

declare read_labels.simps [simp del]

definition read_domain :: "ddns_context \<Rightarrow> string dec_result" where
  "read_domain c =
     (if \<not> dcontext_okay c then None
      else case read_labels (d_mem c) (d_size c) (d_ptr c) (d_left c) None 0 (d_dest c) of
             None \<Rightarrow> None
           | Some (Name_rc rc) \<Rightarrow> Some (Inl rc)
           | Some (Name s dest (p, n)) \<Rightarrow> Some (Inr (cstr s, c\<lparr>d_ptr := p, d_left := n, d_dest := dest\<rparr>)))"

section \<open>Options\<close>

definition is_xdigit :: "nat \<Rightarrow> bool" where
  "is_xdigit n \<longleftrightarrow> 48 \<le> n \<and> n \<le> 57 \<or> 65 \<le> n \<and> n \<le> 70 \<or> 97 \<le> n \<and> n \<le> 102"

definition xdigit_value :: "nat \<Rightarrow> nat" where
  "xdigit_value n = (if n \<le> 57 then n - 48 else if n \<le> 70 then n - 55 else n - 87)"

fun hex_pairs :: "string \<Rightarrow> string option" where
  "hex_pairs [] = Some []"
| "hex_pairs [x] = None"
| "hex_pairs (x # y # xs) =
     (if is_xdigit (octet x) \<and> is_xdigit (octet y)
      then map_option (\<lambda>r. char_of (xdigit_value (octet x) * 16 + xdigit_value (octet y)) # r) (hex_pairs xs)
      else None)"

definition decode_edns0rr_nsid :: "nat \<Rightarrow> ddns_context \<Rightarrow> string dec_result" where
  "decode_edns0rr_nsid len c =
     (if len mod 2 = 1 then Some (Inl RCODE_FORMAT_ERROR)
      else if d_dest c < len div 2 then Some (Inl RCODE_NO_MEMORY)
      else do {
        bs \<leftarrow> bytes_at (d_mem c) (d_ptr c) len;
        Some (case hex_pairs bs of
                None \<Rightarrow> Inl RCODE_FORMAT_ERROR
              | Some d \<Rightarrow> Inr (d, alloc (len div 2) (advance len c))) })"

definition decode_edns0rr_raw :: "nat \<Rightarrow> ddns_context \<Rightarrow> string dec_result" where
  "decode_edns0rr_raw len c =
     (if d_dest c < len then Some (Inl RCODE_NO_MEMORY)
      else do { bs \<leftarrow> bytes_at (d_mem c) (d_ptr c) len; Some (Inr (bs, alloc len (advance len c))) })"

section \<open>Questions and resource records\<close>

definition decode_question :: "ddns_context \<Rightarrow> dns_question dec_result" where
  "decode_question c =
     (if \<not> dcontext_okay c then None
      else and_then (read_domain c) (\<lambda>nm c1.
        if d_left c1 < 4 then Some (Inl RCODE_FORMAT_ERROR)
        else do {
          (t, c2) \<leftarrow> read_uint16 c1;
          (cls, c3) \<leftarrow> read_uint16 c2;
          if t = RR_OPT then Some (Inl RCODE_FORMAT_ERROR)
          else Some (Inr (\<lparr>qu_name = Some nm, qu_type = t, qu_class = cls\<rparr>, c3)) }))"

definition decode_rr_soa :: "nat \<Rightarrow> ddns_context \<Rightarrow> rdata dec_result" where
  "decode_rr_soa len c =
     (if \<not> dcontext_okay c then None
      else and_then (read_domain c) (\<lambda>m c1. and_then (read_domain c1) (\<lambda>r c2.
        if len < 20 then Some (Inl RCODE_FORMAT_ERROR)
        else do {
          (v1, c3) \<leftarrow> read_uint32 c2;
          (v2, c4) \<leftarrow> read_uint32 c3;
          (v3, c5) \<leftarrow> read_uint32 c4;
          (v4, c6) \<leftarrow> read_uint32 c5;
          (v5, c7) \<leftarrow> read_uint32 c6;
          Some (Inr (RD_SOA \<lparr>soa_mname = m, soa_rname = r, soa_serial = v1, soa_refresh = v2, soa_retry = v3,
            soa_expire = v4, soa_minimum = v5\<rparr>, c7)) })))"

definition decode_rr_a :: "nat \<Rightarrow> ddns_context \<Rightarrow> rdata dec_result" where
  "decode_rr_a len c =
     (if \<not> dcontext_okay c then None
      else if len \<noteq> 4 then Some (Inl RCODE_FORMAT_ERROR)
      else do { bs \<leftarrow> bytes_at (d_mem c) (d_ptr c) 4; Some (Inr (RD_A bs, advance 4 c)) })"

definition decode_rr_aaaa :: "nat \<Rightarrow> ddns_context \<Rightarrow> rdata dec_result" where
  "decode_rr_aaaa len c =
     (if \<not> dcontext_okay c then None
      else if len \<noteq> 16 then Some (Inl RCODE_FORMAT_ERROR)
      else do { bs \<leftarrow> bytes_at (d_mem c) (d_ptr c) 16; Some (Inr (RD_AAAA bs, advance 16 c)) })"

definition decode_rr_wks :: "nat \<Rightarrow> ddns_context \<Rightarrow> rdata dec_result" where
  "decode_rr_wks len c =
     (if \<not> dcontext_okay c then None
      else if len < 6 then Some (Inl RCODE_FORMAT_ERROR)
      else do {
        bs \<leftarrow> bytes_at (d_mem c) (d_ptr c) 4;
        (protocol, c1) \<leftarrow> read_uint16 (advance 4 c);
        and_then (read_raw (len - 6) c1) (\<lambda>bits c2. Some (Inr (RD_WKS bs protocol bits, c2))) })"

definition decode_rr_mx :: "nat \<Rightarrow> ddns_context \<Rightarrow> rdata dec_result" where
  "decode_rr_mx len c =
     (if \<not> dcontext_okay c then None
      else if len < 4 then Some (Inl RCODE_FORMAT_ERROR)
      else do {
        (pref, c1) \<leftarrow> read_uint16 c;
        and_then (read_domain c1) (\<lambda>x c2. Some (Inr (RD_MX pref x, c2))) })"

text \<open>The strings of a text, joined.\<close>

function decode_strings :: "nat \<Rightarrow> ddns_context \<Rightarrow> string dec_result" where
  "decode_strings len c =
     (if len = 0 then Some (Inr ([], c))
      else if d_left c < 1 then Some (Inl RCODE_FORMAT_ERROR)
      else case peek c 0 of
             None \<Rightarrow> None
           | Some slen \<Rightarrow>
               let c1 = advance 1 c in
               if slen > len - 1 then Some (Inl RCODE_FORMAT_ERROR)
               else if d_left c1 < slen then Some (Inl RCODE_FORMAT_ERROR)
               else if d_dest c1 < slen then Some (Inl RCODE_NO_MEMORY)
               else case bytes_at (d_mem c1) (d_ptr c1) slen of
                      None \<Rightarrow> None
                    | Some s \<Rightarrow> and_then (decode_strings (len - 1 - slen) (alloc slen (advance slen c1)))
                                  (\<lambda>r c2. Some (Inr (s @ r, c2))))"
  by pat_completeness auto
termination
  by (relation "measure (\<lambda>(len, c). len)") auto

declare decode_strings.simps [simp del]

definition decode_rr_txt :: "nat \<Rightarrow> ddns_context \<Rightarrow> rdata dec_result" where
  "decode_rr_txt len c =
     (if \<not> dcontext_okay c then None
      else and_then (decode_strings len c) (\<lambda>txt c1.
        if d_dest c1 = 0 then Some (Inl RCODE_NO_MEMORY) else Some (Inr (RD_TXT txt, alloc 1 c1))))"

definition decode_rr_hinfo :: "ddns_context \<Rightarrow> rdata dec_result" where
  "decode_rr_hinfo c =
     (if \<not> dcontext_okay c then None
      else and_then (read_string c) (\<lambda>cpu c1. and_then (read_string c1) (\<lambda>os c2. Some (Inr (RD_HINFO cpu os, c2)))))"

definition decode_rr_srv :: "nat \<Rightarrow> ddns_context \<Rightarrow> rdata dec_result" where
  "decode_rr_srv len c =
     (if \<not> dcontext_okay c then None
      else if len < 7 then Some (Inl RCODE_FORMAT_ERROR)
      else do {
        (prio, c1) \<leftarrow> read_uint16 c;
        (weight, c2) \<leftarrow> read_uint16 c1;
        (port, c3) \<leftarrow> read_uint16 c2;
        and_then (read_domain c3) (\<lambda>x c4. Some (Inr (RD_SRV prio weight port x, c4))) })"

definition decode_rr_naptr :: "nat \<Rightarrow> ddns_context \<Rightarrow> rdata dec_result" where
  "decode_rr_naptr len c =
     (if \<not> dcontext_okay c then None
      else if len < 4 then Some (Inl RCODE_FORMAT_ERROR)
      else do {
        (order, c1) \<leftarrow> read_uint16 c;
        (pref, c2) \<leftarrow> read_uint16 c1;
        and_then (read_string c2) (\<lambda>fl c3. and_then (read_string c3) (\<lambda>sv c4. and_then (read_string c4) (\<lambda>re c5.
        and_then (read_domain c5) (\<lambda>rp c6.
          Some (Inr (RD_NAPTR \<lparr>na_order = order, na_preference = pref, na_flags = fl, na_services = sv,
            na_regexp = re, na_replacement = rp\<rparr>, c6)))))) })"

definition decode_rr_minfo :: "ddns_context \<Rightarrow> rdata dec_result" where
  "decode_rr_minfo c =
     (if \<not> dcontext_okay c then None
      else and_then (read_domain c) (\<lambda>a c1. and_then (read_domain c1) (\<lambda>b c2. Some (Inr (RD_MINFO a b, c2)))))"

section \<open>Locations\<close>

definition dloc_double :: "fpu \<Rightarrow> ddns_context \<Rightarrow> (64 word) dec_result" where
  "dloc_double fpu c =
     (if \<not> dcontext_okay c then None
      else do {
        len \<leftarrow> peek c 0;
        if len > d_left c - 1 then Some (Inl RCODE_FORMAT_ERROR)
        else do {
          bs \<leftarrow> bytes_at (d_mem c) (d_ptr c + 1) len;
          Some (case fp_parse fpu (cstr bs) of
                  None \<Rightarrow> Inl RCODE_FORMAT_ERROR
                | Some v \<Rightarrow> Inr (v, advance (len + 1) c)) } })"

definition dgpos_angle :: "fpu \<Rightarrow> bool \<Rightarrow> 64 word \<Rightarrow> dnsgpos_angle option" where
  "dgpos_angle fpu nw v0 =
     (let d = fp_int fpu;
          (ip1, f1) = fp_modf fpu v0; v1 = fp_mul fpu f1 (d 60);
          (ip2, f2) = fp_modf fpu v1; v2 = fp_mul fpu f2 (d 60);
          (ip3, f3) = fp_modf fpu v2; v3 = fp_mul fpu f3 (d 1000)
      in do {
        dg \<leftarrow> fp_toint fpu ip1;
        mn \<leftarrow> fp_toint fpu ip2;
        sc \<leftarrow> fp_toint fpu ip3;
        fr \<leftarrow> fp_toint fpu v3;
        Some \<lparr>ang_deg = dg, ang_min = mn, ang_sec = sc, ang_frac = fr, ang_nw = nw\<rparr> })"

definition decode_rr_gpos :: "fpu \<Rightarrow> ddns_context \<Rightarrow> rdata dec_result" where
  "decode_rr_gpos fpu c =
     (if \<not> dcontext_okay c then None
      else and_then (dloc_double fpu c) (\<lambda>lng0 c1. and_then (dloc_double fpu c1) (\<lambda>lat0 c2.
        let west = fp_below0 fpu lng0; lng = (if west then fp_abs fpu lng0 else lng0);
            north = fp_atleast0 fpu lat0; lat = (if north then lat0 else fp_abs fpu lat0)
        in do {
          longitude \<leftarrow> dgpos_angle fpu west lng;
          latitude \<leftarrow> dgpos_angle fpu north lat;
          and_then (dloc_double fpu c2) (\<lambda>alt c3.
            Some (Inr (RD_GPOS \<lparr>gp_longitude = longitude, gp_latitude = latitude, gp_altitude = alt\<rparr>, c3))) })))"

definition dloc_scale :: "nat \<Rightarrow> nat option" where
  "dloc_scale scale =
     (let smul = scale div 16; spow = scale mod 16 in if spow > 9 \<or> smul > 9 then None else Some (10 ^ spow * smul))"

definition dloc_angle :: "bool \<Rightarrow> nat \<Rightarrow> dnsgpos_angle" where
  "dloc_angle nw v =
     \<lparr>ang_deg = int (v div 1000 div 60 div 60), ang_min = int (v div 1000 div 60 mod 60),
      ang_sec = int (v div 1000 mod 60), ang_frac = int (v mod 1000), ang_nw = nw\<rparr>"

text \<open>The first four bytes are stepped over without being taken off the count of bytes left.\<close>

definition decode_rr_loc :: "nat \<Rightarrow> ddns_context \<Rightarrow> rdata dec_result" where
  "decode_rr_loc len c =
     (if \<not> dcontext_okay c then None
      else if len < 16 then Some (Inl RCODE_FORMAT_ERROR)
      else do {
        version \<leftarrow> peek c 0;
        if version \<noteq> 0 then Some (Inl RCODE_FORMAT_ERROR)
        else do {
          b1 \<leftarrow> peek c 1; b2 \<leftarrow> peek c 2; b3 \<leftarrow> peek c 3;
          case (dloc_scale b1, dloc_scale b2, dloc_scale b3) of
            (Some size', Some horiz, Some vert) \<Rightarrow> do {
              (la, c1) \<leftarrow> read_uint32 (c\<lparr>d_ptr := d_ptr c + 4\<rparr>);
              (lo, c2) \<leftarrow> read_uint32 c1;
              (alt, c3) \<leftarrow> read_uint32 c2;
              let north = (la \<ge> LOC_BIAS);
              let lat = (if north then la - LOC_BIAS else LOC_BIAS - la);
              let west = (lo < LOC_BIAS);
              let lng = (if west then LOC_BIAS - lo else lo - LOC_BIAS);
              if lat > LOC_LAT_MAX \<or> lng > LOC_LNG_MAX then Some (Inl RCODE_FORMAT_ERROR)
              else Some (Inr (RD_LOC \<lparr>loc_version = 0, loc_size = size', loc_horiz_pre = horiz, loc_vert_pre = vert,
                     loc_latitude = dloc_angle north lat, loc_longitude = dloc_angle west lng,
                     loc_altitude = int alt - LOC_ALT_BIAS\<rparr>, c3)) }
          | _ \<Rightarrow> Some (Inl RCODE_FORMAT_ERROR) } })"

section \<open>The OPT record\<close>

text \<open>The first pass counts the options.\<close>

function count_opts :: "string \<Rightarrow> nat \<Rightarrow> nat \<Rightarrow> (nat option) option" where
  "count_opts mem p length' =
     (if length' = 0 then Some (Some 0)
      else if \<not> p + 3 < length mem then None
      else let sz = octet (mem ! (p + 2)) * 256 + octet (mem ! (p + 3)) + 4 in
        if sz > length' then Some None
        else map_option (map_option Suc) (count_opts mem (p + sz) (length' - sz)))"
  by pat_completeness auto
termination
  by (relation "measure (\<lambda>(mem, p, l). l)") auto

declare count_opts.simps [simp del]

fun decode_opts :: "nat \<Rightarrow> ddns_context \<Rightarrow> (edns0_opt list) dec_result" where
  "decode_opts 0 c = Some (Inr ([], c))"
| "decode_opts (Suc k) c = do {
     (cd, c1) \<leftarrow> read_uint16 c;
     (len, c2) \<leftarrow> read_uint16 c1;
     (ok, n) \<leftarrow> align_memory (d_dest c2);
     if \<not> ok then Some (Inl RCODE_NO_MEMORY)
     else let c3 = c2\<lparr>d_dest := n\<rparr> in
       and_then (if cd = EDNS0RR_NSID then decode_edns0rr_nsid len c3 else decode_edns0rr_raw len c3) (\<lambda>d c4.
         and_then (decode_opts k c4) (\<lambda>os c5. Some (Inr (\<lparr>eo_code = cd, eo_data = d\<rparr> # os, c5)))) }"

text \<open>The lifetime was set to zero, so version, \<open>z\<close> and the extended code read from it are zero.\<close>

definition decode_rr_opt :: "nat \<Rightarrow> bool \<Rightarrow> nat \<Rightarrow> nat \<Rightarrow> ddns_context \<Rightarrow> rdata dec_result" where
  "decode_rr_opt payload fdo fug len c =
     (let opt = \<lparr>op_udp_payload = payload, op_version = 0, op_fdo = fdo, op_fug = fug, op_z = 0, op_opts = []\<rparr> in
      if d_edns c then Some (Inl RCODE_FORMAT_ERROR)
      else let c0 = c\<lparr>d_edns := True\<rparr> in
        if len = 0 then Some (Inr (RD_OPT opt, c0))
        else if \<not> dcontext_okay c0 \<or> \<not> len > 4 then None
        else do {
          k \<leftarrow> count_opts (d_mem c0) (d_ptr c0) len;
          case k of
            None \<Rightarrow> Some (Inl RCODE_FORMAT_ERROR)
          | Some numopts \<Rightarrow> do {
              (ok, n) \<leftarrow> alloc_struct (d_dest c0) (SIZE_edns0opt * numopts);
              if \<not> ok then Some (Inl RCODE_NO_MEMORY)
              else and_then (decode_opts numopts (c0\<lparr>d_dest := n\<rparr>)) (\<lambda>os c1.
                     Some (Inr (RD_OPT (opt\<lparr>op_opts := os\<rparr>), c1))) } })"

section \<open>Answers and messages\<close>

definition decode_rdata :: "fpu \<Rightarrow> nat \<Rightarrow> nat \<Rightarrow> nat \<Rightarrow> bool \<Rightarrow> nat \<Rightarrow> ddns_context \<Rightarrow> rdata dec_result" where
  "decode_rdata fpu t len payload fdo fug c =
     (case rr_kind t of
        K_A \<Rightarrow> decode_rr_a len c
      | K_SOA \<Rightarrow> decode_rr_soa len c
      | K_NAPTR \<Rightarrow> decode_rr_naptr len c
      | K_AAAA \<Rightarrow> decode_rr_aaaa len c
      | K_SRV \<Rightarrow> decode_rr_srv len c
      | K_WKS \<Rightarrow> decode_rr_wks len c
      | K_GPOS \<Rightarrow> decode_rr_gpos fpu c
      | K_LOC \<Rightarrow> decode_rr_loc len c
      | K_OPT \<Rightarrow> decode_rr_opt payload fdo fug len c
      | K_MINFO \<Rightarrow> decode_rr_minfo c
      | K_MX \<Rightarrow> decode_rr_mx len c
      | K_HINFO \<Rightarrow> decode_rr_hinfo c
      | K_TXT \<Rightarrow> decode_rr_txt len c
      | K_NAME \<Rightarrow> and_then (read_domain c) (\<lambda>nm c1. Some (Inr (RD_NAME nm, c1)))
      | _ \<Rightarrow> and_then (read_raw len c) (\<lambda>raw c1. Some (Inr (RD_X raw, c1))))"

text \<open>Class, lifetime, and for OPT the payload size, the DO bit and the other flags.\<close>

definition decode_fixed :: "nat \<Rightarrow> ddns_context \<Rightarrow> (nat \<times> nat \<times> nat \<times> bool \<times> nat) dec_result" where
  "decode_fixed t c =
     (if t = RR_OPT then do {
        (payload, c1) \<leftarrow> read_uint16 c;
        ext \<leftarrow> peek c1 0;
        version \<leftarrow> peek c1 1;
        let c2 = c1\<lparr>d_rcode := (ext * 16) OR d_rcode c1\<rparr>;
        if version \<noteq> 0 then Some (Inl RCODE_FORMAT_ERROR)
        else do {
          (fug, c3) \<leftarrow> read_uint16 (advance 2 c2);
          Some (Inr ((CLASS_UNKNOWN, 0, payload, fug > 32767, fug mod 32768), c3)) } }
      else do {
        (cls, c1) \<leftarrow> read_uint16 c;
        (ttl, c2) \<leftarrow> read_uint32 c1;
        Some (Inr ((cls, ttl, 0, False, 0), c2)) })"

definition decode_answer :: "fpu \<Rightarrow> ddns_context \<Rightarrow> dns_answer dec_result" where
  "decode_answer fpu c =
     (if \<not> dcontext_okay c then None
      else and_then (read_domain c) (\<lambda>nm c1.
        if d_left c1 < 10 then Some (Inl RCODE_FORMAT_ERROR)
        else do {
          (t, c2) \<leftarrow> read_uint16 c1;
          and_then (decode_fixed t c2) (\<lambda>(cls, ttl, payload, fdo, fug) c3. do {
            (len, c4) \<leftarrow> read_uint16 c3;
            if len > sub64 (d_size c4) (d_ptr c4) then Some (Inl RCODE_FORMAT_ERROR)
            else and_then (decode_rdata fpu t len payload fdo fug c4) (\<lambda>d c5.
                   Some (Inr (\<lparr>an_name = Some nm, an_type = t, an_class = cls, an_ttl = ttl, an_data = d\<rparr>, c5))) }) }))"

fun decode_questions :: "nat \<Rightarrow> ddns_context \<Rightarrow> (dns_question list) dec_result" where
  "decode_questions 0 c = Some (Inr ([], c))"
| "decode_questions (Suc k) c =
     and_then (decode_question c) (\<lambda>q c1. and_then (decode_questions k c1) (\<lambda>qs c2. Some (Inr (q # qs, c2))))"

fun decode_answers :: "fpu \<Rightarrow> nat \<Rightarrow> ddns_context \<Rightarrow> (dns_answer list) dec_result" where
  "decode_answers fpu 0 c = Some (Inr ([], c))"
| "decode_answers fpu (Suc k) c =
     and_then (decode_answer fpu c) (\<lambda>a c1. and_then (decode_answers fpu k c1) (\<lambda>as c2. Some (Inr (a # as, c2))))"

definition word_at :: "string \<Rightarrow> nat \<Rightarrow> nat" where
  "word_at mem i = octet (mem ! i) * 256 + octet (mem ! (i + 1))"

text \<open>The arrays of a message are allocated one after the other, whether or not one failed.\<close>

definition alloc_arrays :: "nat \<Rightarrow> nat \<Rightarrow> nat \<Rightarrow> nat \<Rightarrow> nat \<Rightarrow> (bool \<times> nat) option" where
  "alloc_arrays qd an ns ar n = do {
     (ok1, n1) \<leftarrow> alloc_struct n (qd * SIZE_question);
     (ok2, n2) \<leftarrow> alloc_struct n1 (an * SIZE_answer);
     (ok3, n3) \<leftarrow> alloc_struct n2 (ns * SIZE_answer);
     (ok4, n4) \<leftarrow> alloc_struct n3 (ar * SIZE_answer);
     Some ((qd = 0 \<or> ok1) \<and> (an = 0 \<or> ok2) \<and> (ns = 0 \<or> ok3) \<and> (ar = 0 \<or> ok4), n4) }"

definition decode_sections :: "fpu \<Rightarrow> nat \<Rightarrow> nat \<Rightarrow> nat \<Rightarrow> nat \<Rightarrow> ddns_context \<Rightarrow>
    (dns_question list \<times> dns_answer list \<times> dns_answer list \<times> dns_answer list) dec_result" where
  "decode_sections fpu qd an ns ar c =
     and_then (decode_questions qd c) (\<lambda>qs c1.
     and_then (decode_answers fpu an c1) (\<lambda>as c2.
     and_then (decode_answers fpu ns c2) (\<lambda>nss c3.
       if d_edns c3 then Some (Inl RCODE_FORMAT_ERROR)
       else and_then (decode_answers fpu ar c3) (\<lambda>ars c4. Some (Inr ((qs, as, nss, ars), c4))))))"

text \<open>
  \<open>mem\<close> is the array the packet lies in, \<open>len\<close> the size of the packet, \<open>prsize\<close> the size of the
  result memory, of which the part used is reported with the message.
\<close>

definition dns_decode_used :: "fpu \<Rightarrow> nat \<Rightarrow> string \<Rightarrow> nat \<Rightarrow> (dns_rcode + dns_query \<times> nat) option" where
  "dns_decode_used fpu prsize mem len =
     (if prsize < SIZE_query then None
      else if len < HEADER_SIZE then Some (Inl RCODE_FORMAT_ERROR)
      else if length mem < HEADER_SIZE \<or> prsize mod MEM_ALIGN \<noteq> 0 then None
      else do {
        (ok, n) \<leftarrow> alloc_struct prsize SIZE_query;
        let op = octet (mem ! 2);
        let rc = octet (mem ! 3);
        let qd = word_at mem 4;
        let an = word_at mem 6;
        let ns = word_at mem 8;
        let ar = word_at mem 10;
        (ok', n') \<leftarrow> alloc_arrays qd an ns ar n;
        if \<not> ok' then Some (Inl RCODE_NO_MEMORY)
        else do {
          r \<leftarrow> decode_sections fpu qd an ns ar
            \<lparr>d_mem = mem, d_size = len, d_ptr = HEADER_SIZE, d_left = len - HEADER_SIZE, d_dest = n',
             d_edns = False, d_rcode = rc mod 16\<rparr>;
          Some (case r of
                  Inl e \<Rightarrow> Inl e
                | Inr ((qs, as, nss, ars), c) \<Rightarrow>
                    Inr (\<lparr>dq_id = int (word_at mem 0), dq_query = (op div 128 = 0), dq_opcode = op div 8 mod 16,
                      dq_aa = odd (op div 4), dq_tc = odd (op div 2), dq_rd = odd op,
                      dq_ra = odd (rc div 128), dq_z = odd (rc div 64), dq_ad = odd (rc div 32), dq_cd = odd (rc div 16),
                      dq_rcode = d_rcode c, dq_questions = qs, dq_answers = as, dq_nameservers = nss,
                      dq_additional = ars\<rparr>, prsize - d_dest c)) } })"

definition dns_decode :: "fpu \<Rightarrow> nat \<Rightarrow> string \<Rightarrow> nat \<Rightarrow> (dns_rcode + dns_query) option" where
  "dns_decode fpu prsize mem len = map_option (map_sum (\<lambda>e. e) fst) (dns_decode_used fpu prsize mem len)"

text \<open>The message alone.\<close>

lemma dns_decode_eq:
  "dns_decode fpu prsize mem len =
     (if prsize < SIZE_query then None
      else if len < HEADER_SIZE then Some (Inl RCODE_FORMAT_ERROR)
      else if length mem < HEADER_SIZE \<or> prsize mod MEM_ALIGN \<noteq> 0 then None
      else do {
        (ok, n) \<leftarrow> alloc_struct prsize SIZE_query;
        let op = octet (mem ! 2);
        let rc = octet (mem ! 3);
        let qd = word_at mem 4;
        let an = word_at mem 6;
        let ns = word_at mem 8;
        let ar = word_at mem 10;
        (ok', n') \<leftarrow> alloc_arrays qd an ns ar n;
        if \<not> ok' then Some (Inl RCODE_NO_MEMORY)
        else do {
          r \<leftarrow> decode_sections fpu qd an ns ar
            \<lparr>d_mem = mem, d_size = len, d_ptr = HEADER_SIZE, d_left = len - HEADER_SIZE, d_dest = n',
             d_edns = False, d_rcode = rc mod 16\<rparr>;
          Some (case r of
                  Inl e \<Rightarrow> Inl e
                | Inr ((qs, as, nss, ars), c) \<Rightarrow>
                    Inr \<lparr>dq_id = int (word_at mem 0), dq_query = (op div 128 = 0), dq_opcode = op div 8 mod 16,
                      dq_aa = odd (op div 4), dq_tc = odd (op div 2), dq_rd = odd op,
                      dq_ra = odd (rc div 128), dq_z = odd (rc div 64), dq_ad = odd (rc div 32), dq_cd = odd (rc div 16),
                      dq_rcode = d_rcode c, dq_questions = qs, dq_answers = as, dq_nameservers = nss,
                      dq_additional = ars\<rparr>) } })"
  unfolding dns_decode_def dns_decode_used_def Let_def
  by (auto simp: map_option_bind comp_def case_prod_beta split: sum.split intro!: Option.bind_cong)

end
