(* ===== verification/Dns_Mappings.thy ===== *)
theory Dns_Mappings
  imports Dns_Types "HOL-Library.List_Lexorder"
begin

text \<open>
  lib/dns/mappings.c: the tables between the numbers of the protocol and their names, and the
  binary searches over them.
\<close>

section \<open>Tables\<close>

fun rcode_value :: "dns_rcode \<Rightarrow> nat" where
  "rcode_value RCODE_OKAY = 0"
| "rcode_value RCODE_FORMAT_ERROR = 1"
| "rcode_value RCODE_SERVER_FAILURE = 2"
| "rcode_value RCODE_NAME_ERROR = 3"
| "rcode_value RCODE_NOT_IMPLEMENTED = 4"
| "rcode_value RCODE_REFUSED = 5"
| "rcode_value RCODE_YXDOMAIN = 6"
| "rcode_value RCODE_YXRRSET = 7"
| "rcode_value RCODE_NXRRSET = 8"
| "rcode_value RCODE_NOTAUTH = 9"
| "rcode_value RCODE_NOTZONE = 10"
| "rcode_value RCODE_BADVERS = 16"
| "rcode_value RCODE_BADKEY = 17"
| "rcode_value RCODE_BADTIME = 18"
| "rcode_value RCODE_BADMODE = 19"
| "rcode_value RCODE_BADNAME = 20"
| "rcode_value RCODE_BADALG = 21"
| "rcode_value RCODE_BADTRUC = 22"
| "rcode_value RCODE_BADCOOKIE = 23"
| "rcode_value RCODE_PRIVATE = 3841"
| "rcode_value RCODE_NO_MEMORY = 3842"
| "rcode_value RCODE_BAD_STRING = 3843"

definition cm_dns_rcode :: "(nat \<times> string) list" where
  "cm_dns_rcode =
     [(rcode_value RCODE_OKAY, ''No error''), (rcode_value RCODE_FORMAT_ERROR, ''Format error''),
      (rcode_value RCODE_SERVER_FAILURE, ''Server failure''),
      (rcode_value RCODE_NAME_ERROR, ''Non-existant domain''),
      (rcode_value RCODE_NOT_IMPLEMENTED, ''Not implemented''),
      (rcode_value RCODE_REFUSED, ''Query refused''),
      (rcode_value RCODE_YXDOMAIN, ''Name exists when it should not''),
      (rcode_value RCODE_YXRRSET, ''RRset exists when it should not''),
      (rcode_value RCODE_NXRRSET, ''RRset does not exist''),
      (rcode_value RCODE_NOTAUTH, ''Server not authoritative''),
      (rcode_value RCODE_NOTZONE, ''Zone not in zone section''),
      (rcode_value RCODE_BADVERS, ''Bad OPT version/TSIG failed''),
      (rcode_value RCODE_BADKEY, ''Key not recognized''),
      (rcode_value RCODE_BADTIME, ''Signature out of time window''),
      (rcode_value RCODE_BADMODE, ''Bad TKEY mode''),
      (rcode_value RCODE_BADNAME, ''Duplicate key name''),
      (rcode_value RCODE_BADALG, ''Algorithm not supported''),
      (rcode_value RCODE_BADTRUC, ''Bad truncation''),
      (rcode_value RCODE_BADCOOKIE, ''Bad/missing server cookie''),
      (rcode_value RCODE_NO_MEMORY, ''No memory''), (rcode_value RCODE_BAD_STRING, ''Bad sring'')]"

definition c_dns_rcode_enum :: "(nat \<times> string) list" where
  "c_dns_rcode_enum =
     [(rcode_value RCODE_OKAY, ''OKAY''), (rcode_value RCODE_FORMAT_ERROR, ''FORMAT_ERROR''),
      (rcode_value RCODE_SERVER_FAILURE, ''SERVER_FAILURE''),
      (rcode_value RCODE_NAME_ERROR, ''NAME_ERROR''),
      (rcode_value RCODE_NOT_IMPLEMENTED, ''NOT_IMPLEMENTED''),
      (rcode_value RCODE_REFUSED, ''REFUSED''), (rcode_value RCODE_YXDOMAIN, ''YXDOMAIN''),
      (rcode_value RCODE_YXRRSET, ''YXRRSET''), (rcode_value RCODE_NXRRSET, ''NXRRSET''),
      (rcode_value RCODE_NOTAUTH, ''NOTAUTH''), (rcode_value RCODE_NOTZONE, ''NOTZONE''),
      (rcode_value RCODE_BADVERS, ''BADVERS''), (rcode_value RCODE_BADKEY, ''BADKEY''),
      (rcode_value RCODE_BADTIME, ''BADTIME''), (rcode_value RCODE_BADMODE, ''BADMODE''),
      (rcode_value RCODE_BADNAME, ''BADNAME''), (rcode_value RCODE_BADALG, ''BADALG''),
      (rcode_value RCODE_BADTRUC, ''BADTRUNC''), (rcode_value RCODE_BADCOOKIE, ''BADCOOKIE''),
      (rcode_value RCODE_NO_MEMORY, ''NO_MEMORY''), (rcode_value RCODE_BAD_STRING, ''BAD_STRING'')]"

definition cm_dns_rcode_is :: "(string \<times> nat) list" where
  "cm_dns_rcode_is =
     [(''BADALG'', rcode_value RCODE_BADALG), (''BADCOOKIE'', rcode_value RCODE_BADCOOKIE),
      (''BADKEY'', rcode_value RCODE_BADKEY), (''BADMODE'', rcode_value RCODE_BADMODE),
      (''BADNAME'', rcode_value RCODE_BADNAME), (''BADTIME'', rcode_value RCODE_BADTIME),
      (''BADTRUNC'', rcode_value RCODE_BADTRUC), (''BADVERS'', rcode_value RCODE_BADVERS),
      (''BAD_STRING'', rcode_value RCODE_BAD_STRING),
      (''FORMAT_ERROR'', rcode_value RCODE_FORMAT_ERROR),
      (''NAME_ERROR'', rcode_value RCODE_NAME_ERROR), (''NOTAUTH'', rcode_value RCODE_NOTAUTH),
      (''NOTZONE'', rcode_value RCODE_NOTZONE),
      (''NOT_IMPLEMENTED'', rcode_value RCODE_NOT_IMPLEMENTED),
      (''NO_MEMORY'', rcode_value RCODE_NO_MEMORY), (''NXRRSET'', rcode_value RCODE_NXRRSET),
      (''OKAY'', rcode_value RCODE_OKAY), (''REFUSED'', rcode_value RCODE_REFUSED),
      (''SERVER_FAILURE'', rcode_value RCODE_SERVER_FAILURE),
      (''YXDOMAIN'', rcode_value RCODE_YXDOMAIN), (''YXRRSET'', rcode_value RCODE_YXRRSET)]"

definition cm_dns_type :: "(nat \<times> string) list" where
  "cm_dns_type =
     [(RR_A, ''A''), (RR_NS, ''NS''), (RR_MD, ''MD''), (RR_MF, ''MF''), (RR_CNAME, ''CNAME''),
      (RR_SOA, ''SOA''), (RR_MB, ''MB''), (RR_MG, ''MG''), (RR_MR, ''MR''), (RR_NULL, ''NULL''),
      (RR_WKS, ''WKS''), (RR_PTR, ''PTR''), (RR_HINFO, ''HINFO''), (RR_MINFO, ''MINFO''),
      (RR_MX, ''MX''), (RR_TXT, ''TXT''), (RR_RP, ''RP''), (RR_AFSDB, ''AFSDB''), (RR_X25, ''X25''),
      (RR_ISDN, ''ISDN''), (RR_RT, ''RT''), (RR_NSAP, ''NSAP''), (RR_NSAP_PTR, ''NSAP-PTR''),
      (RR_SIG, ''SIG''), (RR_KEY, ''KEY''), (RR_PX, ''PX''), (RR_GPOS, ''GPOS''), (RR_AAAA, ''AAAA''),
      (RR_LOC, ''LOC''), (RR_NXT, ''NXT''), (RR_EID, ''EID''), (RR_NIMLOC, ''NIMLOC''),
      (RR_SRV, ''SRV''), (RR_ATMA, ''ATMA''), (RR_NAPTR, ''NAPTR''), (RR_KX, ''KX''),
      (RR_CERT, ''CERT''), (RR_A6, ''A6''), (RR_DNAME, ''DNAME''), (RR_SINK, ''SINK''),
      (RR_OPT, ''OPT''), (RR_APL, ''APL''), (RR_DS, ''DS''), (RR_SSHFP, ''SSHFP''),
      (RR_ISECKEY, ''ISECKEY''), (RR_RRSIG, ''RRSIG''), (RR_NSEC, ''NSEC''), (RR_DNSKEY, ''DNSKEY''),
      (RR_DHCID, ''DHCID''), (RR_NSEC3, ''NSEC3''), (RR_NSEC3PARAM, ''NSEC3PARAM''),
      (RR_TLSA, ''TLSA''), (RR_SMIMEA, ''SMIMEA''), (RR_HIP, ''HIP''), (RR_NINFO, ''NINFO''),
      (RR_RKEY, ''RKEY''), (RR_TALINK, ''TALINK''), (RR_CDS, ''CDS''), (RR_CDNSKEY, ''CDNSKEY''),
      (RR_OPENPGPKEY, ''OPENPGPKEY''), (RR_CSYNC, ''CSYNC''), (RR_ZONEMD, ''ZONEMD''),
      (RR_HTTPS, ''HTTPS''), (RR_SPF, ''SPF''), (RR_UINFO, ''UINFO''), (RR_UID, ''UID''),
      (RR_GID, ''GID''), (RR_UNSPEC, ''UNSPEC''), (RR_NID, ''NID''), (RR_L32, ''L32''),
      (RR_L64, ''L64''), (RR_LP, ''LP''), (RR_EUI48, ''EUI48''), (RR_EUI64, ''EUI64''),
      (RR_TKEY, ''TKEY''), (RR_TSIG, ''TSIG''), (RR_IXFR, ''IXFR''), (RR_AXFR, ''AXFR''),
      (RR_MAILB, ''MAILB''), (RR_MAILA, ''MAILA''), (RR_ANY, ''ANY''), (RR_URI, ''URI''),
      (RR_CAA, ''CAA''), (RR_AVC, ''AVC''), (RR_DOA, ''DOA''), (RR_AMTRELAY, ''AMTRELAY''),
      (RR_TA, ''TA''), (RR_DLV, ''DLV''), (RR_PRIVATE, ''PRIVATE''), (RR_UNKNOWN, ''UNKNOWN'')]"

definition cm_dns_type_is :: "(string \<times> nat) list" where
  "cm_dns_type_is =
     [(''A'', RR_A), (''A6'', RR_A6), (''AAAA'', RR_AAAA), (''AFSDB'', RR_AFSDB),
      (''AMTRELAY'', RR_AMTRELAY), (''ANY'', RR_ANY), (''APL'', RR_APL), (''ATMA'', RR_ATMA),
      (''AVC'', RR_AVC), (''AXFR'', RR_AXFR), (''CAA'', RR_CAA), (''CDNSKEY'', RR_CDNSKEY),
      (''CDS'', RR_CDS), (''CERT'', RR_CERT), (''CNAME'', RR_CNAME), (''CSYNC'', RR_CSYNC),
      (''DHCID'', RR_DHCID), (''DLV'', RR_DLV), (''DNAME'', RR_DNAME), (''DNSKEY'', RR_DNSKEY),
      (''DOA'', RR_DOA), (''DS'', RR_DS), (''EID'', RR_EID), (''EUI48'', RR_EUI48),
      (''EUI64'', RR_EUI64), (''GID'', RR_GID), (''GPOS'', RR_GPOS), (''HINFO'', RR_HINFO),
      (''HIP'', RR_HIP), (''HTTPS'', RR_HTTPS), (''ISDN'', RR_ISDN), (''ISECKEY'', RR_ISECKEY),
      (''IXFR'', RR_IXFR), (''KEY'', RR_KEY), (''KX'', RR_KX), (''L32'', RR_L32), (''L64'', RR_L64),
      (''LOC'', RR_LOC), (''LP'', RR_LP), (''MAILA'', RR_MAILA), (''MAILB'', RR_MAILB), (''MB'', RR_MB),
      (''MD'', RR_MD), (''MF'', RR_MF), (''MG'', RR_MG), (''MINFO'', RR_MINFO), (''MR'', RR_MR),
      (''MX'', RR_MX), (''NAPTR'', RR_NAPTR), (''NID'', RR_NID), (''NIMLOC'', RR_NIMLOC),
      (''NINFO'', RR_NINFO), (''NS'', RR_NS), (''NSAP'', RR_NSAP), (''NSAP-PTR'', RR_NSAP_PTR),
      (''NSEC'', RR_NSEC), (''NSEC3'', RR_NSEC3), (''NSEC3PARAM'', RR_NSEC3PARAM), (''NULL'', RR_NULL),
      (''NXT'', RR_NXT), (''OPENPGPKEY'', RR_OPENPGPKEY), (''OPT'', RR_OPT), (''PRIVATE'', RR_PRIVATE),
      (''PTR'', RR_PTR), (''PX'', RR_PX), (''RKEY'', RR_RKEY), (''RP'', RR_RP), (''RRSIG'', RR_RRSIG),
      (''RT'', RR_RT), (''SIG'', RR_SIG), (''SINK'', RR_SINK), (''SMIMEA'', RR_SMIMEA),
      (''SOA'', RR_SOA), (''SPF'', RR_SPF), (''SRV'', RR_SRV), (''SSHFP'', RR_SSHFP), (''TA'', RR_TA),
      (''TALINK'', RR_TALINK), (''TKEY'', RR_TKEY), (''TLSA'', RR_TLSA), (''TSIG'', RR_TSIG),
      (''TXT'', RR_TXT), (''UID'', RR_UID), (''UINFO'', RR_UINFO), (''UNKNOWN'', RR_UNKNOWN),
      (''UNSPEC'', RR_UNSPEC), (''URI'', RR_URI), (''WKS'', RR_WKS), (''X25'', RR_X25),
      (''ZONEMD'', RR_ZONEMD)]"

definition cm_dns_class :: "(nat \<times> string) list" where
  "cm_dns_class =
     [(CLASS_IN, ''IN''), (CLASS_CS, ''CS''), (CLASS_CH, ''CH''), (CLASS_HS, ''HS''), (CLASS_NONE, ''NONE''),
      (CLASS_ANY, ''ANY''), (CLASS_PRIVATE, ''PRIVATE''), (CLASS_UNKNOWN, ''UNKNOWN'')]"

definition cm_dns_class_is :: "(string \<times> nat) list" where
  "cm_dns_class_is =
     [(''ANY'', CLASS_ANY), (''CH'', CLASS_CH), (''CS'', CLASS_CS), (''HS'', CLASS_HS), (''IN'', CLASS_IN),
      (''NONE'', CLASS_NONE), (''PRIVATE'', CLASS_PRIVATE), (''UNKNOWN'', CLASS_UNKNOWN)]"

definition cm_dns_op :: "(nat \<times> string) list" where
  "cm_dns_op =
     [(OP_QUERY, ''QUERY''), (OP_UNKNOWN, ''UKNOWN''), (OP_STATUS, ''STATUS''), (OP_NOTIFY, ''NOTIFY''),
      (OP_UPDATE, ''UPDATE'')]"

definition cm_dns_op_is :: "(string \<times> nat) list" where
  "cm_dns_op_is =
     [(''NOTIFY'', OP_NOTIFY), (''QUERY'', OP_QUERY), (''STATUS'', OP_STATUS), (''UNKNOWN'', OP_UNKNOWN),
      (''UPDATE'', OP_UPDATE)]"

section \<open>Searches\<close>

definition intstr_cmp :: "nat \<Rightarrow> nat \<times> string \<Rightarrow> int" where
  "intstr_cmp v e = int v - int (fst e)"

fun strcmp :: "string \<Rightarrow> string \<Rightarrow> int" where
  "strcmp [] [] = 0"
| "strcmp [] (b # bs) = - int (octet b)"
| "strcmp (a # as) [] = int (octet a)"
| "strcmp (a # as) (b # bs) = (if a = b then strcmp as bs else int (octet a) - int (octet b))"

definition strint_cmp :: "string \<Rightarrow> string \<times> nat \<Rightarrow> int" where
  "strint_cmp key e = strcmp key (fst e)"

text \<open>\<open>bsearch\<close> of the C library, on the indices from \<open>l\<close> below \<open>u\<close>.\<close>

function bsearch :: "('e \<Rightarrow> int) \<Rightarrow> 'e list \<Rightarrow> nat \<Rightarrow> nat \<Rightarrow> 'e option" where
  "bsearch cmp xs l u =
     (if \<not> l < u then None
      else let i = (l + u) div 2; r = cmp (xs ! i) in
        if r < 0 then bsearch cmp xs l i
        else if r > 0 then bsearch cmp xs (i + 1) u
        else Some (xs ! i))"
  by pat_completeness auto
termination
  by (relation "measure (\<lambda>(cmp, xs, l, u). u - l)") auto

declare bsearch.simps [simp del]

definition itosdef :: "nat \<Rightarrow> (nat \<times> string) list \<Rightarrow> string \<Rightarrow> string" where
  "itosdef v tab def = (case bsearch (intstr_cmp v) tab 0 (length tab) of Some e \<Rightarrow> snd e | None \<Rightarrow> def)"

definition toupper :: "char \<Rightarrow> char" where
  "toupper c = (if 97 \<le> octet c \<and> octet c \<le> 122 then char_of (octet c - 32) else c)"

text \<open>The tag is cut to 15 characters.\<close>

definition stoidef :: "string \<Rightarrow> (string \<times> nat) list \<Rightarrow> nat \<Rightarrow> nat" where
  "stoidef tag tab def =
     (case bsearch (strint_cmp (map toupper (take 15 tag))) tab 0 (length tab) of Some e \<Rightarrow> snd e | None \<Rightarrow> def)"

definition dns_rcode_enum :: "nat \<Rightarrow> string" where
  "dns_rcode_enum r = itosdef r c_dns_rcode_enum ''X-UNKN''"

definition dns_rcode_text :: "nat \<Rightarrow> string" where
  "dns_rcode_text r = itosdef r cm_dns_rcode ''Unknown error''"

definition dns_type_text :: "nat \<Rightarrow> string" where
  "dns_type_text t = itosdef t cm_dns_type ''X-UNKN''"

definition dns_class_text :: "nat \<Rightarrow> string" where
  "dns_class_text c = itosdef c cm_dns_class ''X-UNKN''"

definition dns_op_text :: "nat \<Rightarrow> string" where
  "dns_op_text p = itosdef p cm_dns_op ''X-UNKNOWN''"

definition dns_rcode_value :: "string \<Rightarrow> nat" where
  "dns_rcode_value tag = stoidef tag cm_dns_rcode_is (rcode_value RCODE_NOT_IMPLEMENTED)"

definition dns_type_value :: "string \<Rightarrow> nat" where
  "dns_type_value tag = stoidef tag cm_dns_type_is RR_UNKNOWN"

definition dns_class_value :: "string \<Rightarrow> nat" where
  "dns_class_value tag = stoidef tag cm_dns_class_is CLASS_UNKNOWN"

definition dns_op_value :: "string \<Rightarrow> nat" where
  "dns_op_value tag = stoidef tag cm_dns_op_is OP_UNKNOWN"

section \<open>The searches find what a scan finds\<close>

lemma bsearch_finds:
  fixes f :: "'e \<Rightarrow> 'k::linorder"
  assumes s: "sorted_wrt (<) (map f xs)" and u: "u \<le> length xs"
    and neg: "\<And>e. e \<in> set xs \<Longrightarrow> cmp e < 0 \<longleftrightarrow> k < f e" and pos: "\<And>e. e \<in> set xs \<Longrightarrow> cmp e > 0 \<longleftrightarrow> f e < k"
    and low: "\<And>j. j < l \<Longrightarrow> f (xs ! j) < k" and high: "\<And>j. u \<le> j \<Longrightarrow> j < length xs \<Longrightarrow> k < f (xs ! j)"
  shows "bsearch cmp xs l u = find (\<lambda>e. f e = k) xs"
  using u low high
proof (induction "u - l" arbitrary: l u rule: less_induct)
  case (less l u)
  note high = less.prems(3) and low = less.prems(2)
  have lt: "f (xs ! i) < f (xs ! j)" if "i < j" "j < length xs" for i j
    using sorted_wrt_nth_less [OF s, of i j] that by simp
  show ?case
  proof (cases "l < u")
    case False
    have "find (\<lambda>e. f e = k) xs = None"
    proof (subst find_None_iff, rule notI)
      assume "\<exists>x. x \<in> set xs \<and> f x = k"
      then obtain j where "j < length xs" "f (xs ! j) = k" by (auto simp: in_set_conv_nth)
      then show False using low [of j] high [of j] False by (cases "j < l") auto
    qed
    with False show ?thesis by (simp add: bsearch.simps [of cmp xs l u])
  next
    case True
    define i where "i = (l + u) div 2"
    have i: "l \<le> i" "i < u" "i < length xs" using True less.prems(1) by (auto simp: i_def)
    have mem: "xs ! i \<in> set xs" using i by simp
    note cmp = neg [OF mem] pos [OF mem]
    consider "k < f (xs ! i)" | "f (xs ! i) < k" | "f (xs ! i) = k" by fastforce
    then show ?thesis
    proof cases
      case 1
      have "bsearch cmp xs l i = find (\<lambda>e. f e = k) xs"
        by (rule less.hyps) (use i 1 low lt in \<open>auto simp: le_less intro: order.strict_trans\<close>)
      with 1 True cmp show ?thesis by (simp add: bsearch.simps [of cmp xs l u] i_def)
    next
      case 2
      have before: "f (xs ! j) < k" if "j < Suc i" for j
        using that 2 lt [of j i] i(3) by (cases "j = i") auto
      have "bsearch cmp xs (i + 1) u = find (\<lambda>e. f e = k) xs"
        by (rule less.hyps) (use i 2 high less.prems(1) before in auto)
      with 2 True cmp show ?thesis by (simp add: bsearch.simps [of cmp xs l u] i_def less_imp_not_less)
    next
      case 3
      have "find (\<lambda>e. f e = k) xs = Some (xs ! i)"
        using i(3) 3 lt by (auto simp: find_Some_iff) (metis less_irrefl)
      with 3 True cmp show ?thesis by (simp add: bsearch.simps [of cmp xs l u] i_def)
    qed
  qed
qed

lemma strcmp_order:
  "NUL \<notin> set a \<Longrightarrow> NUL \<notin> set b \<Longrightarrow> strcmp a b < 0 \<longleftrightarrow> map octet a < map octet b"
  "NUL \<notin> set a \<Longrightarrow> NUL \<notin> set b \<Longrightarrow> strcmp a b > 0 \<longleftrightarrow> map octet b < map octet a"
proof (induction a b rule: strcmp.induct)
  case (4 a as b bs)
  have inj: "octet a = octet b \<longleftrightarrow> a = b" by (metis char_of_octet)
  { case 1 then show ?case using 4 inj by auto }
  { case 2 then show ?case using 4 inj by auto }
qed auto

lemma itosdef_lookup:
  assumes "sorted_wrt (<) (map fst tab)"
  shows "itosdef v tab def = (case map_of tab v of Some t \<Rightarrow> t | None \<Rightarrow> def)"
proof -
  have "bsearch (intstr_cmp v) tab 0 (length tab) = find (\<lambda>e. fst e = v) tab"
    by (rule bsearch_finds [OF assms]) (auto simp: intstr_cmp_def)
  moreover have "map_option snd (find (\<lambda>e. fst e = v) tab) = map_of tab v" by (induction tab) auto
  ultimately show ?thesis by (auto simp: itosdef_def split: option.splits)
qed

lemma stoidef_lookup:
  assumes "sorted_wrt (<) (map (\<lambda>e. map octet (fst e)) tab)" and "list_all (\<lambda>e. NUL \<notin> set (fst e)) tab" and "NUL \<notin> set tag"
  shows "stoidef tag tab def = (case map_of tab (map toupper (take 15 tag)) of Some v \<Rightarrow> v | None \<Rightarrow> def)"
proof -
  let ?k = "map toupper (take 15 tag)"
  have nn: "NUL \<notin> set ?k"
  proof
    assume "NUL \<in> set ?k"
    then obtain c where "c \<in> set tag" "toupper c = NUL" using set_take_subset [of 15 tag] by (auto 0 4)
    moreover from this have "octet (toupper c) = 0" by simp
    then have "octet c = 0" by (cases "97 \<le> octet c \<and> octet c \<le> 122") (auto simp: toupper_def dest: dvd_imp_le)
    ultimately show False using assms(3) by auto
  qed
  have inj: "map octet (fst e) = map octet ?k \<longleftrightarrow> fst e = ?k" for e :: "string \<times> nat"
    by (rule inj_map_eq_map) (rule inj_on_inverseI [where g = char_of], simp)
  have "bsearch (strint_cmp ?k) tab 0 (length tab) = find (\<lambda>e. map octet (fst e) = map octet ?k) tab"
    by (rule bsearch_finds [OF assms(1)]) (use assms(2) nn strcmp_order in \<open>auto simp: strint_cmp_def list_all_iff\<close>)
  moreover have "map_option snd (find (\<lambda>e. fst e = ?k) tab) = map_of tab ?k" by (induction tab) auto
  ultimately show ?thesis unfolding inj by (auto simp: stoidef_def split: option.splits)
qed

lemma strictly_sorted: "successively (<) (xs :: 'a::order list) \<Longrightarrow> sorted_wrt (<) xs"
  by (subst (asm) successively_conv_sorted_wrt) (auto intro: transpI)

lemmas table_defs = cm_dns_type_def cm_dns_type_is_def cm_dns_class_def cm_dns_class_is_def cm_dns_op_def cm_dns_op_is_def
  cm_dns_rcode_def c_dns_rcode_enum_def cm_dns_rcode_is_def

lemma number_tables_sorted:
  "sorted_wrt (<) (map fst cm_dns_type)" "sorted_wrt (<) (map fst cm_dns_class)" "sorted_wrt (<) (map fst cm_dns_op)"
  "sorted_wrt (<) (map fst cm_dns_rcode)" "sorted_wrt (<) (map fst c_dns_rcode_enum)"
  by (rule strictly_sorted, simp add: table_defs)+

lemma name_tables_sorted:
  "sorted_wrt (<) (map (\<lambda>e. map octet (fst e)) cm_dns_type_is)" "sorted_wrt (<) (map (\<lambda>e. map octet (fst e)) cm_dns_class_is)"
  "sorted_wrt (<) (map (\<lambda>e. map octet (fst e)) cm_dns_op_is)" "sorted_wrt (<) (map (\<lambda>e. map octet (fst e)) cm_dns_rcode_is)"
  by (rule strictly_sorted, simp add: table_defs octet_def)+

lemma name_tables_clean:
  "list_all (\<lambda>e. NUL \<notin> set (fst e)) cm_dns_type_is" "list_all (\<lambda>e. NUL \<notin> set (fst e)) cm_dns_class_is"
  "list_all (\<lambda>e. NUL \<notin> set (fst e)) cm_dns_op_is" "list_all (\<lambda>e. NUL \<notin> set (fst e)) cm_dns_rcode_is"
  by (simp_all add: table_defs)

definition scan_table :: "('k \<times> 'v) list \<Rightarrow> 'k \<Rightarrow> 'v \<Rightarrow> 'v" where
  "scan_table tab k def = (case map_of tab k of Some v \<Rightarrow> v | None \<Rightarrow> def)"

text \<open>
  (C22) The tables are sorted the way the binary search needs, so every lookup finds what a scan
  of the table finds: numbers to names for types, classes, operations and return codes, and
  names to numbers, of which the first 15 characters are taken in upper case.
\<close>

theorem dns_lookups_scan:
  assumes "NUL \<notin> set tag"
  shows "dns_type_text v = scan_table cm_dns_type v ''X-UNKN'' \<and> dns_class_text v = scan_table cm_dns_class v ''X-UNKN''
    \<and> dns_op_text v = scan_table cm_dns_op v ''X-UNKNOWN'' \<and> dns_rcode_text v = scan_table cm_dns_rcode v ''Unknown error''
    \<and> dns_rcode_enum v = scan_table c_dns_rcode_enum v ''X-UNKN''
    \<and> dns_type_value tag = scan_table cm_dns_type_is (map toupper (take 15 tag)) RR_UNKNOWN
    \<and> dns_class_value tag = scan_table cm_dns_class_is (map toupper (take 15 tag)) CLASS_UNKNOWN
    \<and> dns_op_value tag = scan_table cm_dns_op_is (map toupper (take 15 tag)) OP_UNKNOWN
    \<and> dns_rcode_value tag = scan_table cm_dns_rcode_is (map toupper (take 15 tag)) 4"
  unfolding dns_type_text_def dns_class_text_def dns_op_text_def dns_rcode_text_def dns_rcode_enum_def
    dns_type_value_def dns_class_value_def dns_op_value_def dns_rcode_value_def scan_table_def
  by (simp add: itosdef_lookup number_tables_sorted stoidef_lookup name_tables_sorted name_tables_clean assms cong: option.case_cong)

theorem dns_lookups_scan_witness: "dns_type_value ''TXT'' = 16 \<and> dns_type_text 16 = ''TXT''"
proof -
  have "map toupper ''TXT'' = ''TXT''" by (simp add: toupper_def octet_def)
  moreover have "scan_table cm_dns_type_is ''TXT'' 65535 = 16" "scan_table cm_dns_type 16 ''X-UNKN'' = ''TXT''"
    by (simp_all add: scan_table_def cm_dns_type_is_def cm_dns_type_def)
  ultimately show ?thesis using dns_lookups_scan [of "''TXT''" 16] by simp
qed

lemma dns_type_TXT [simp]: "dns_type_value ''TXT'' = 16"
proof -
  have "map toupper ''TXT'' = ''TXT''" by (simp add: toupper_def octet_def)
  then show ?thesis
    by (simp add: dns_type_value_def stoidef_lookup name_tables_sorted name_tables_clean) (simp add: cm_dns_type_is_def)
qed

end
