(* ===== verification/Mdns.thy ===== *)
theory Mdns
  imports Protocol Dns_Encode Dns_Decode Dns_Mappings
begin

text \<open>
  The mDNS part of src/store.c and src/netUtils.c: sending queries, answering questions about
  this bridge, and the store of records learned from answers, over the codec of lib/dns.
\<close>

section \<open>Datagrams\<close>

definition DNS_BUFF :: nat where "DNS_BUFF = 1024"
definition MDNS_QUERY :: string where "MDNS_QUERY = ''hn.local''"

text \<open>
  The socket of \<open>mdns_send\<close> is opened by the first call and kept in a static variable.  When joining
  the multicast group fails the call returns, but the descriptor stays, and the later calls send
  to the address that was never set.
\<close>

definition mdns_open :: "os \<Rightarrow> hn \<Rightarrow> (bool \<times> hn) option" where
  "mdns_open os st =
     (if 0 \<le> mdns_fd st then Some (True, st)
      else case udp_opens st of
        [] \<Rightarrow> Some (False, st)
      | (f, ok) # us \<Rightarrow>
          if f < 0 \<or> \<not> ok IP_ADD_MEMBERSHIP then Some (False, st\<lparr>udp_opens := us, mdns_fd := f\<rparr>)
          else do {
            (r, ip) \<leftarrow> str_toIpAddr os ''224.0.0.251:5353'';
            Some (True, st\<lparr>udp_opens := us, mdns_fd := f, mdns_addr := ip\<rparr>) })"

definition mdns_send :: "os \<Rightarrow> string \<Rightarrow> hn \<Rightarrow> (int \<times> hn) option" where
  "mdns_send os buffer st = do {
     (open_ok, st1) \<leftarrow> mdns_open os st;
     if \<not> open_ok then Some (- 1, st1)
     else Some (case udp_fails st1 of
        True # fs \<Rightarrow> (- 1, st1\<lparr>udp_fails := fs\<rparr>)
      | _ \<Rightarrow> (int (length buffer), st1\<lparr>udp_fails := tl (udp_fails st1), udp_sent := udp_sent st1 @ [(mdns_addr st1, buffer)]\<rparr>)) }"

definition udp_read :: "nat \<Rightarrow> hn \<Rightarrow> (string \<times> sockaddr) option \<times> hn" where
  "udp_read mx st =
     (case udp_in st of
        [] \<Rightarrow> (None, st)
      | (d, from) # ds \<Rightarrow> (if d = [] then None else Some (take mx d, from), st\<lparr>udp_in := ds\<rparr>))"

definition txt_query :: "string \<Rightarrow> dns_query" where
  "txt_query nm =
     \<lparr>dq_id = 1234, dq_query = True, dq_opcode = OP_QUERY, dq_aa = False, dq_tc = False, dq_rd = True, dq_ra = False,
      dq_z = False, dq_ad = False, dq_cd = False, dq_rcode = rcode_value RCODE_OKAY,
      dq_questions = [\<lparr>qu_name = Some (nm @ ''.''), qu_type = dns_type_value ''TXT'', qu_class = CLASS_IN\<rparr>],
      dq_answers = [], dq_nameservers = [], dq_additional = []\<rparr>"

text \<open>The return code of the encoder is not looked at.\<close>

definition sendMdnsQuery :: "os \<Rightarrow> string \<Rightarrow> hn \<Rightarrow> hn option" where
  "sendMdnsQuery os nm st = do {
     (rc, packet) \<leftarrow> dns_encode (os_fpu os) DNS_BUFFER_UDP (txt_query nm);
     (r, st1) \<leftarrow> mdns_send os packet st;
     Some st1 }"

section \<open>The record store\<close>

text \<open>
  The records whose name is the one asked for or ends with a dot and it, at most \<open>mx\<close>.  For a
  record name shorter than the suffix the test reads the address that lies below the name in
  the struct (16 bytes, the last eight zero), so it fails, or leaves the struct.
\<close>

fun getMdnsRecordsForName :: "nat \<Rightarrow> string \<Rightarrow> (string \<times> MdnsRecord) list \<Rightarrow> (string \<times> MdnsRecord) list option" where
  "getMdnsRecordsForName mx nm [] = Some []"
| "getMdnsRecordsForName 0 nm (kr # krs) = Some []"
| "getMdnsRecordsForName (Suc mx) nm (kr # krs) =
     (let rn = rec_name (snd kr) in
      if nm \<noteq> rn \<and> length nm + 1 > length rn + 16 then None
      else if nm = rn \<or> endsWith rn (''.'' @ nm)
           then map_option (\<lambda>l. kr # l) (getMdnsRecordsForName mx nm krs)
           else getMdnsRecordsForName (Suc mx) nm krs)"

text \<open>The first record with the same printed address, as its key.\<close>

definition getMdnsRecordForIpAddr :: "os \<Rightarrow> sockaddr \<Rightarrow> BridgeContext \<Rightarrow> (string \<times> MdnsRecord) option" where
  "getMdnsRecordForIpAddr os ip c =
     find (\<lambda>kr. ipAddr_toString os (rec_ip (snd kr)) = ipAddr_toString os ip) (map_start (mdnsStore c))"

text \<open>A write through the pointer to the record stored under a key.\<close>

definition upd_record :: "string \<Rightarrow> (MdnsRecord \<Rightarrow> MdnsRecord) \<Rightarrow> hn \<Rightarrow> hn option" where
  "upd_record k f st = do {
     c \<leftarrow> get_ctx st;
     r \<leftarrow> map_get (mdnsStore c) k;
     set_ctx (c\<lparr>mdnsStore := (mdnsStore c)\<lparr>map_start := set_value (map_start (mdnsStore c)) k (f r)\<rparr>\<rparr>) st }"

section \<open>Questions\<close>

definition strip_dot :: "os \<Rightarrow> string \<Rightarrow> string option" where
  "strip_dot os nm = do {
     e \<leftarrow> str_endswith (below_buff os) (nm @ [NUL]) (''.'' @ [NUL]);
     if \<not> e then Some nm else if nm = [] then None else Some (butlast nm) }"

definition bridge_answer :: "string \<Rightarrow> int \<Rightarrow> dns_answer" where
  "bridge_answer nm port =
     \<lparr>an_name = Some (nm @ ''.''), an_type = RR_TXT, an_class = CLASS_IN, an_ttl = 0,
      an_data = RD_TXT (''PORT='' @ int_toString port @ '';'')\<rparr>"

definition advertise :: "os \<Rightarrow> dns_query \<Rightarrow> bridgeMode \<Rightarrow> hn \<Rightarrow> hn option" where
  "advertise os q b st = do {
     let c = br_context b;
     (rc, packet) \<leftarrow> dns_encode (os_fpu os) DNS_BUFF
       (q\<lparr>dq_answers := [bridge_answer (ctx_name c) (br_port b)], dq_query := False\<rparr>);
     (r, st1) \<leftarrow> mdns_send os packet st;
     if r \<le> 0 then Some st1
     else (let (t, st2) = os_time os st1 in set_ctx (c\<lparr>lastMdnsBroadcast := t\<rparr>) st2) }"

fun answer_questions :: "os \<Rightarrow> dns_query \<Rightarrow> dns_question list \<Rightarrow> hn \<Rightarrow> hn option" where
  "answer_questions os q [] st = Some st"
| "answer_questions os q (qu # qus) st =
     (case qu_name qu of
        None \<Rightarrow> answer_questions os q qus st
      | Some nm \<Rightarrow>
          if qu_type qu \<noteq> RR_TXT then answer_questions os q qus st
          else do {
            qname \<leftarrow> strip_dot os nm;
            b \<leftarrow> bridge (conf st);
            if qname = ctx_name (br_context b) \<or> qname = ''bridge.hn.local'' then advertise os q b st
            else answer_questions os q qus st })"

section \<open>Answers\<close>

definition new_record :: "os \<Rightarrow> string \<Rightarrow> sockaddr \<Rightarrow> BridgeContext \<Rightarrow> hn \<Rightarrow> (string \<times> hn) option" where
  "new_record os nm ip c st =
     (let (k, st1) = generateCode os 14 st in do {
        n \<leftarrow> fits MAX_URL_SIZE nm;
        m \<leftarrow> map_put True (mdnsStore c) k \<lparr>rec_ip = ip, rec_name = n, rec_data = map_init, rec_timestamp = 0\<rparr>;
        st2 \<leftarrow> set_ctx (c\<lparr>mdnsStore := m\<rparr>) st1;
        Some (k, st2) })"

definition put_field :: "string \<Rightarrow> string \<Rightarrow> string \<Rightarrow> hn \<Rightarrow> hn option" where
  "put_field key k v st = do {
     c \<leftarrow> get_ctx st;
     r \<leftarrow> map_get (mdnsStore c) key;
     m \<leftarrow> map_put True (rec_data r) k v;
     upd_record key (\<lambda>r. r\<lparr>rec_data := m\<rparr>) st }"

text \<open>
  The port of a record's text selects the record: the one already known for the address, when
  it has the same name, is emptied; otherwise a new record is stored under a fresh key.  The
  result is the key.
\<close>

definition select_record :: "os \<Rightarrow> string \<Rightarrow> sockaddr \<Rightarrow> hn \<Rightarrow> (string \<times> hn) option" where
  "select_record os nm ip st = do {
     c \<leftarrow> get_ctx st;
     (k, st1) \<leftarrow>
       (case getMdnsRecordForIpAddr os ip c of
          Some (k, r) \<Rightarrow>
            if nm = rec_name r then do {
              st' \<leftarrow> upd_record k (\<lambda>r. r\<lparr>rec_data := fst (map_cleanup (rec_data r) True)\<rparr>) st;
              Some (k, st') }
            else new_record os nm ip c st
        | None \<Rightarrow> new_record os nm ip c st);
     let (t, st2) = os_time os st1;
     st3 \<leftarrow> upd_record k (\<lambda>r. r\<lparr>rec_timestamp := t\<rparr>) st2;
     Some (k, st3) }"

text \<open>
  The fields of the text.  A field without key, or without value where the value is used,
  hands a null pointer to a string function.
\<close>

function text_fields :: "os \<Rightarrow> string \<Rightarrow> string \<Rightarrow> sockaddr \<Rightarrow> string option \<Rightarrow> hn \<Rightarrow> (sockaddr \<times> hn) option" where
  "text_fields os nm s ip key st =
     (case strtok '';'' s of
        (None, _) \<Rightarrow> Some (ip, st)
      | (Some line, rest) \<Rightarrow>
          (let (k, r) = strtok ''='' line; (v, _) = strtok ''='' r in
           case k of
             None \<Rightarrow> None
           | Some k' \<Rightarrow>
               (case key of
                  None \<Rightarrow>
                    if k' = ''PORT'' then
                      (case Option.bind v str_toInt of
                         None \<Rightarrow> None
                       | Some port \<Rightarrow>
                           (let ip' = ipAddr_setPort ip port in
                            case select_record os nm ip' st of
                              None \<Rightarrow> None
                            | Some (key', st') \<Rightarrow> text_fields os nm rest ip' (Some key') st'))
                    else Some (ip, st)
                | Some key' \<Rightarrow>
                    (case v of
                       None \<Rightarrow> None
                     | Some v' \<Rightarrow>
                         (case put_field key' k' v' st of
                            None \<Rightarrow> None
                          | Some st' \<Rightarrow> text_fields os nm rest ip key st')))))"
  by pat_completeness auto
termination
  by (relation "measure (\<lambda>(os, nm, s, ip, key, st). length s)") (auto dest!: strtok_shorter [OF sym])

declare text_fields.simps [simp del]

text \<open>A record of type TXT has a text; the text is used as a string.\<close>

definition answer_text :: "dns_answer \<Rightarrow> string" where
  "answer_text an = (case an_data an of RD_TXT t \<Rightarrow> t | _ \<Rightarrow> [])"

definition learn_answer :: "os \<Rightarrow> dns_answer \<Rightarrow> sockaddr \<Rightarrow> hn \<Rightarrow> (sockaddr \<times> hn) option" where
  "learn_answer os an ip st =
     (if an_type an \<noteq> RR_TXT then Some (ip, st)
      else case an_name an of
             None \<Rightarrow> Some (ip, st)
           | Some full \<Rightarrow> do {
               n0 \<leftarrow> fits 300 full;
               nm \<leftarrow> (if n0 = [] then None else Some (butlast n0));
               e \<leftarrow> str_endswith (below_buff os) (nm @ [NUL]) (''.hn.local'' @ [NUL]);
               c \<leftarrow> get_ctx st;
               if \<not> e \<or> nm = ctx_name c then Some (ip, st)
               else do {
                 s \<leftarrow> fits 500 (cstr (answer_text an));
                 text_fields os nm s ip None st } })"

fun learn_answers :: "os \<Rightarrow> dns_answer list \<Rightarrow> sockaddr \<Rightarrow> hn \<Rightarrow> hn option" where
  "learn_answers os [] ip st = Some st"
| "learn_answers os (an # ans) ip st = do {
     (ip', st') \<leftarrow> learn_answer os an ip st;
     learn_answers os ans ip' st' }"

section \<open>The handler\<close>

text \<open>
  The packet is received into a zeroed array of \<open>DNS_BUFF\<close> bytes; the result memory has 4096.
\<close>

definition handleMdnsRead :: "os \<Rightarrow> hn \<Rightarrow> hn option" where
  "handleMdnsRead os st = do {
     b \<leftarrow> bridge (conf st);
     let (d, st1) = udp_read DNS_BUFF st;
     case d of
       None \<Rightarrow> Some st1
     | Some (buff, ip) \<Rightarrow> do {
         r \<leftarrow> dns_decode (os_fpu os) DNS_DECODEBUF_4K (buff @ replicate (DNS_BUFF - length buff) NUL) (length buff);
         case r of
           Inl rc \<Rightarrow> Some st1
         | Inr q \<Rightarrow>
             if dq_answers q = [] \<and> dq_questions q \<noteq> [] then
               (let (t, st2) = os_time os st1 in
                if lastMdnsBroadcast (br_context b) + BROADCAST_MIN_INTERVAL_SECS > t then Some st2
                else answer_questions os q (dq_questions q) st2)
             else learn_answers os (dq_answers q) ip st1 } }"

end
