(* ===== verification/Dns_Names.thy ===== *)
theory Dns_Names
  imports Dns_Encode Dns_Decode
begin

text \<open>
  Domain names and texts through the codec.  A relation says that a name can be read at an offset of a
  packet, through how many pointers, and where it ends; the encoder establishes it for every
  name it writes and for every suffix it remembers, the decoder reads exactly those names.
\<close>

section \<open>Names on the wire\<close>

inductive name_at :: "string \<Rightarrow> nat \<Rightarrow> nat \<Rightarrow> nat \<Rightarrow> nat \<Rightarrow> string \<Rightarrow> bool" for mem psize where
  at_end: "off < psize \<Longrightarrow> mem ! off = NUL \<Longrightarrow> name_at mem psize off (Suc off) 0 []"
| at_label: "l \<noteq> [] \<Longrightarrow> length l < 64 \<Longrightarrow> octet (mem ! off) = length l \<Longrightarrow> take (length l) (drop (off + 1) mem) = l \<Longrightarrow>
    name_at mem psize (off + 1 + length l) e k s \<Longrightarrow> name_at mem psize off e k (l @ CHR ''.'' # s)"
| at_pointer: "Suc off < psize \<Longrightarrow> octet (mem ! off) = 192 + t div 256 \<Longrightarrow> octet (mem ! Suc off) = t mod 256 \<Longrightarrow>
    t < 16384 \<Longrightarrow> s \<noteq> [] \<Longrightarrow> name_at mem psize t e k s \<Longrightarrow> name_at mem psize off (Suc (Suc off)) (Suc k) s"

lemma name_at_bounds: "name_at mem psize off e k s \<Longrightarrow> off < psize \<and> off < e \<and> e \<le> psize"
  by (induction rule: name_at.induct) auto

lemma name_at_nil: "name_at mem psize off e k s \<Longrightarrow> (mem ! off = NUL) = (s = [])"
  by (erule name_at.cases) (auto simp del: octet_eq_0 simp flip: octet_eq_0(1))

lemma name_at_extend:
  assumes "name_at mem psize off e k s" and "take psize mem' = take psize mem" and "psize \<le> psize'" and "psize \<le> length mem"
  shows "name_at mem' psize' off e k s"
  using assms(1)
proof (induction rule: name_at.induct)
  have nth: "mem' ! i = mem ! i" if "i < psize" for i
    using that assms(2) by (metis nth_take)
  case (at_end off)
  then show ?case using nth assms(3) by (auto intro: name_at.at_end)
next
  have nth: "mem' ! i = mem ! i" if "i < psize" for i
    using that assms(2) by (metis nth_take)
  case (at_label l off e k s)
  then have b: "off + 1 + length l < psize" using name_at_bounds by blast
  have "take (length l) (drop (off + 1) mem') = take (length l) (drop (off + 1) (take psize mem'))"
    using b by (simp add: drop_take min_def)
  also have "\<dots> = take (length l) (drop (off + 1) mem)" using b by (simp add: assms(2) drop_take min_def)
  finally show ?case using at_label b nth by (auto intro!: name_at.at_label)
next
  have nth: "mem' ! i = mem ! i" if "i < psize" for i
    using that assms(2) by (metis nth_take)
  case (at_pointer off t s e k)
  then show ?case using nth assms(3) by (auto intro!: name_at.at_pointer)
qed

lemma name_at_append: "name_at m (length m) off e k s \<Longrightarrow> name_at (m @ x) (length (m @ x)) off e k s"
  by (erule name_at_extend) auto

lemma bytes_at_label: "take n (drop p mem) = l \<Longrightarrow> length l = n \<Longrightarrow> p \<le> length mem \<Longrightarrow> bytes_at mem p n = Some l"
  by (auto simp: bytes_at_def)

lemma read_labels_name:
  assumes "name_at mem psize off e k s" and "psize \<le> length mem" and "s \<noteq> []" and "loop + k < 255" and "length s < dest"
  shows "read_labels mem psize off (psize - off) main loop dest
    = Some (Name s (dest - (length s + 1)) (case main of None \<Rightarrow> (e, psize - e) | Some m \<Rightarrow> m))"
  using assms
proof (induction arbitrary: main loop dest rule: name_at.induct)
  case (at_label l off e k s)
  have b: "off + 1 + length l < psize" using name_at_bounds [OF at_label(5)] by simp
  have bts: "bytes_at mem (Suc off) (length l) = Some l" using at_label(4,7) b bytes_at_label [of "length l" "Suc off" mem l] by simp
  note eq = read_labels.simps [of mem psize off "psize - off" main loop dest]
  have left: "psize - off - Suc (length l) = psize - (off + length l + 1)" using b by simp
  show ?case
  proof (cases "s = []")
    case True
    with at_label(5) have "k = 0" "e = off + 1 + length l + 1" "mem ! (off + 1 + length l) = NUL"
      by (auto elim: name_at.cases)
    with True at_label b bts left show ?thesis
      unfolding eq by (auto simp: Let_def name_end_def prepend_label_def sub64_def add.commute add.left_commute split: option.split)
  next
    case False
    then have "mem ! (off + 1 + length l) \<noteq> NUL" using name_at_nil [OF at_label(5)] by simp
    moreover have "read_labels mem psize (off + 1 + length l) (psize - (off + 1 + length l)) main loop (dest - (length l + 1))
      = Some (Name s (dest - (length l + 1) - (length s + 1)) (case main of None \<Rightarrow> (e, psize - e) | Some m \<Rightarrow> m))"
      by (rule at_label(6)) (use at_label False in auto)
    ultimately show ?thesis
      unfolding eq using at_label b bts left
      by (simp add: Let_def prepend_label_def add.commute add.left_commute)
  qed
next
  case (at_pointer off t s e k)
  have t: "t < psize" "mem ! t \<noteq> NUL" using name_at_bounds [OF at_pointer(6)] name_at_nil [OF at_pointer(6)] at_pointer(5) by auto
  have off: "(octet (mem ! off) * 256 + octet (mem ! Suc off)) mod 16384 = t"
  proof -
    have "(192 + t div 256) * 256 + t mod 256 = 192 * 256 + t" by (simp add: algebra_simps)
    moreover have "(192 * 256 + t) mod 16384 = (3 * 16384 + t) mod 16384" by simp
    moreover have "(3 * 16384 + t) mod 16384 = t" using at_pointer(4) by (simp only: mod_mult_self3 mod_less)
    ultimately show ?thesis using at_pointer(2,3) by (simp add: add.commute)
  qed
  have "read_labels mem psize t (psize - t) (case main of None \<Rightarrow> Some (off + 2, psize - off - 2) | Some m \<Rightarrow> Some m) (loop + 1) dest
    = Some (Name s (dest - (length s + 1)) (case main of None \<Rightarrow> (off + 2, psize - off - 2) | Some m \<Rightarrow> m))"
    by (subst at_pointer(7)) (use at_pointer in \<open>auto split: option.split\<close>)
  moreover have "\<not> psize - off < 2" using at_pointer(1) by simp
  ultimately show ?case using at_pointer t off
    by (simp add: read_labels.simps [of mem psize off "psize - off" main loop dest] Let_def split: option.split)
qed simp


lemma char_of_0 [simp]: "char_of (0 :: nat) = NUL"
  by (metis char_of_octet octet_eq_0(1))

section \<open>Writing names\<close>

text \<open>A domain name: its labels, each followed by a dot.\<close>

definition dotted :: "string list \<Rightarrow> string" where
  "dotted ls = concat (map (\<lambda>l. l @ ''.'') ls)"

definition label_ok :: "string \<Rightarrow> bool" where
  "label_ok l \<longleftrightarrow> l \<noteq> [] \<and> CHR ''.'' \<notin> set l \<and> NUL \<notin> set l"

lemma dotted_Nil [simp]: "dotted [] = []"
  by (simp add: dotted_def)

lemma dotted_Cons: "dotted (l # ls) = l @ CHR ''.'' # dotted ls"
  by (simp add: dotted_def)

lemma dotted_eq_Nil [simp]: "dotted ls = [] \<longleftrightarrow> ls = []"
  by (cases ls) (auto simp: dotted_Cons)

lemma dotted_clean: "list_all label_ok ls \<Longrightarrow> NUL \<notin> set (dotted ls)"
  by (induction ls) (auto simp: dotted_Cons label_ok_def)

text \<open>A remembered suffix can be read where it was written.\<close>

definition seg_ok :: "string \<Rightarrow> nat \<Rightarrow> string \<times> nat \<Rightarrow> bool" where
  "seg_ok out b sg \<longleftrightarrow> (\<exists>e k. name_at out (length out) (snd sg) e k (fst sg) \<and> k \<le> b) \<and> fst sg \<noteq> []"

lemma seg_ok_append: "seg_ok out b sg \<Longrightarrow> b \<le> b' \<Longrightarrow> seg_ok (out @ x) b' sg"
  unfolding seg_ok_def using name_at_append by (meson order_trans)

lemma segment_find_Some: "segment_find nm segs = Some off \<Longrightarrow> (nm, off) \<in> set segs"
  by (induction nm segs rule: segment_find.induct) (auto split: if_splits)

lemma emit_simps [simp]:
  "e_out (emit bs c) = e_out c @ bs" "e_room (emit bs c) = e_room c - length bs" "e_segs (emit bs c) = e_segs c"
  "e_edns (emit bs c) = e_edns c" "e_rcode (emit bs c) = e_rcode c"
  by (simp_all add: emit_def)

lemma emit_checked_OKAY: "emit_checked n bs c = Some (RCODE_OKAY, c') \<longleftrightarrow> n \<le> e_room c \<and> c' = emit bs c"
  by (auto simp: emit_checked_def)

lemma encode_segment_label:
  assumes "label_ok l"
  shows "encode_segment (l @ CHR ''.'' # r) c =
    (if length l \<ge> 64 then Inl RCODE_NAME_ERROR else if e_room c < length l + 1 then Inl RCODE_NO_MEMORY
     else Inr (r, length (e_out c), emit (u8_bytes (length l) @ l) c))"
proof -
  have "takeWhile (\<lambda>x. x \<noteq> CHR ''.'') (l @ CHR ''.'' # r) = l" using assms takeWhile_upto [of "CHR ''.''" l r] by (simp add: label_ok_def)
  then show ?thesis by (auto simp: encode_segment_def Let_def)
qed

text \<open>What encoding a name adds to the context.\<close>

definition adds_name :: "string \<Rightarrow> nat \<Rightarrow> edns_context \<Rightarrow> edns_context \<Rightarrow> bool" where
  "adds_name nm b c c' \<longleftrightarrow> (\<exists>bs new k. e_out c' = e_out c @ bs \<and> e_room c' + length bs = e_room c
     \<and> e_segs c' = e_segs c @ new \<and> e_edns c' = e_edns c \<and> e_rcode c' = e_rcode c
     \<and> length (e_segs c') \<le> MAXSEG
     \<and> name_at (e_out c') (length (e_out c')) (length (e_out c)) (length (e_out c')) k nm \<and> k \<le> Suc b
     \<and> list_all (seg_ok (e_out c') (Suc b)) new)"

lemma encode_labels_adds:
  assumes "encode_labels (dotted ls) c = Some (RCODE_OKAY, c')" and "list_all label_ok ls"
    and "\<And>sg. sg \<in> set (e_segs c) \<Longrightarrow> length (fst sg) \<le> length (dotted ls) \<Longrightarrow> seg_ok (e_out c) b sg"
    and "length (e_out c) + e_room c \<le> 16384" and "length (e_segs c) \<le> MAXSEG"
  shows "adds_name (dotted ls) b c c'"
  using assms
proof (induction ls arbitrary: c)
  case Nil
  then have "c' = emit (u8_bytes 0) c" "1 \<le> e_room c" by (simp_all add: encode_labels.simps [of "[]"] emit_checked_OKAY)
  then show ?case using Nil(5)
    by (auto simp: adds_name_def u8_bytes_def intro!: exI [where x = "[NUL]"] exI [where x = 0] name_at.at_end)
next
  case (Cons l ls)
  let ?nm = "l @ CHR ''.'' # dotted ls"
  have l: "label_ok l" "l \<noteq> []" "hd l \<noteq> CHR ''.''" using Cons(3) by (auto simp: label_ok_def) (metis list.set_sel(1))
  note eq = encode_labels.simps [of ?nm c]
  show ?case
  proof (cases "segment_find ?nm (e_segs c)")
    case (Some off)
    then have c': "c' = emit (pointer_bytes off) c" and r: "2 \<le> e_room c"
      using Cons(2) l by (auto simp: dotted_Cons eq emit_checked_OKAY)
    from segment_find_Some [OF Some] Cons(4) [of "(?nm, off)"] obtain e k
      where n: "name_at (e_out c) (length (e_out c)) off e k ?nm" "k \<le> b" by (auto simp: seg_ok_def dotted_Cons)
    then have off: "off < length (e_out c)" using name_at_bounds by blast
    then have lo: "off < 16384" using Cons(5) by simp
    have p: "octet (e_out c' ! length (e_out c)) = 192 + off div 256" "octet (e_out c' ! Suc (length (e_out c))) = off mod 256"
      using lo by (auto simp: c' pointer_bytes_def nth_append)
    have "name_at (e_out c') (length (e_out c')) (length (e_out c)) (Suc (Suc (length (e_out c)))) (Suc k) ?nm"
      by (rule name_at.at_pointer [OF _ p lo _ name_at_append [OF n(1), of "pointer_bytes off", folded emit_simps(1), folded c']])
         (auto simp: c' pointer_bytes_def)
    then show ?thesis using n(2) r Cons(6)
      by (auto simp: adds_name_def dotted_Cons c' pointer_bytes_def intro!: exI [where x = "pointer_bytes off"] exI [where x = "Suc k"])
  next
    case None
    from Cons(2) l None have s: "length (e_segs c) \<noteq> MAXSEG" "length l < 64" "length l + 1 \<le> e_room c"
      by (auto simp: dotted_Cons eq encode_segment_label split: if_split_asm)
    define c1 where "c1 = emit (u8_bytes (length l) @ l) c"
    define c2 where "c2 = c1\<lparr>e_segs := e_segs c @ [(?nm, length (e_out c))]\<rparr>"
    have e: "encode_labels (dotted ls) c2 = Some (RCODE_OKAY, c')"
      using Cons(2) l None s by (simp add: dotted_Cons eq encode_segment_label c1_def c2_def)
    have "adds_name (dotted ls) b c2 c'"
    proof (rule Cons.IH [OF e])
      fix sg assume sg: "sg \<in> set (e_segs c2)" "length (fst sg) \<le> length (dotted ls)"
      then have "sg \<in> set (e_segs c)" by (auto simp: c2_def)
      then have "seg_ok (e_out c) b sg" using Cons(4) sg by (simp add: dotted_Cons)
      then show "seg_ok (e_out c2) b sg" using seg_ok_append by (simp add: c2_def c1_def)
    qed (use Cons(3,5,6) s in \<open>auto simp: c2_def c1_def u8_bytes_def\<close>)
    then obtain bs new k where i: "e_out c' = e_out c2 @ bs" "e_room c' + length bs = e_room c2" "e_segs c' = e_segs c2 @ new"
      "e_edns c' = e_edns c2" "e_rcode c' = e_rcode c2" "length (e_segs c') \<le> MAXSEG"
      "name_at (e_out c') (length (e_out c')) (length (e_out c2)) (length (e_out c')) k (dotted ls)" "k \<le> Suc b"
      "list_all (seg_ok (e_out c') (Suc b)) new" unfolding adds_name_def by blast
    have o2: "e_out c2 = e_out c @ u8_bytes (length l) @ l" by (simp add: c2_def c1_def)
    have n: "name_at (e_out c') (length (e_out c')) (length (e_out c)) (length (e_out c')) k ?nm"
      by (rule name_at.at_label) (use l s i(7) in \<open>auto simp: i(1) o2 u8_bytes_def nth_append\<close>)
    then have "seg_ok (e_out c') (Suc b) (?nm, length (e_out c))" using i(8) by (auto simp: seg_ok_def)
    with i n s o2 show ?thesis unfolding adds_name_def dotted_Cons
      by (intro exI [where x = "u8_bytes (length l) @ l @ bs"] exI [where x = "(?nm, length (e_out c)) # new"] exI [where x = k])
         (auto simp: c2_def c1_def u8_bytes_def)
  qed
qed


section \<open>Reading what was written\<close>

text \<open>The encoder's invariant: every remembered suffix can be read, through few enough pointers.\<close>

definition segs_inv :: "edns_context \<Rightarrow> bool" where
  "segs_inv c \<longleftrightarrow> list_all (seg_ok (e_out c) (length (e_segs c))) (e_segs c) \<and> length (e_segs c) \<le> MAXSEG
     \<and> length (e_out c) + e_room c \<le> 16384"

lemma segs_inv_emit: "segs_inv c \<Longrightarrow> length bs \<le> e_room c \<Longrightarrow> segs_inv (emit bs c)"
  by (auto simp: segs_inv_def list_all_iff intro: seg_ok_append)

lemma encode_domain_adds:
  assumes "encode_domain (dotted ls) c = Some (RCODE_OKAY, c')" and "list_all label_ok ls" and "segs_inv c"
  shows "adds_name (dotted ls) (length (e_segs c)) c c' \<and> segs_inv c'"
proof -
  from assms(1) have e: "encode_labels (dotted ls) c = Some (RCODE_OKAY, c')" by (simp add: encode_domain_def split: if_split_asm)
  have a: "adds_name (dotted ls) (length (e_segs c)) c c'"
    by (rule encode_labels_adds [OF e assms(2)]) (use assms(3) in \<open>auto simp: segs_inv_def list_all_iff\<close>)
  then obtain bs new k where i: "e_out c' = e_out c @ bs" "e_room c' + length bs = e_room c" "e_segs c' = e_segs c @ new"
    "length (e_segs c') \<le> MAXSEG" "list_all (seg_ok (e_out c') (Suc (length (e_segs c)))) new" unfolding adds_name_def by blast
  have "seg_ok (e_out c') (length (e_segs c')) sg" if "sg \<in> set (e_segs c')" for sg
  proof (cases "sg \<in> set (e_segs c)")
    case True
    then show ?thesis using assms(3) i(1,3) by (auto simp: segs_inv_def list_all_iff intro: seg_ok_append)
  next
    case False
    then have "sg \<in> set new" "Suc (length (e_segs c)) \<le> length (e_segs c')" using that i(3) by (auto simp: Suc_le_eq)
    then show ?thesis using i(5) seg_ok_append [of "e_out c'" _ sg _ "[]"] by (auto simp: list_all_iff)
  qed
  then show ?thesis using a i assms(3) by (auto simp: segs_inv_def list_all_iff)
qed

text \<open>
  A decoder that stands where the encoder stood in \<open>e\<close>, on a packet that contains what the
  encoder had written in \<open>e'\<close>.
\<close>

definition follows :: "edns_context \<Rightarrow> edns_context \<Rightarrow> ddns_context \<Rightarrow> bool" where
  "follows e e' d \<longleftrightarrow> d_ptr d = length (e_out e) \<and> prefix (e_out e') (d_mem d) \<and> length (e_out e') \<le> d_size d
     \<and> d_size d \<le> length (d_mem d) \<and> d_left d = d_size d - d_ptr d"

definition moved :: "nat \<Rightarrow> nat \<Rightarrow> ddns_context \<Rightarrow> ddns_context" where
  "moved p n d = d\<lparr>d_ptr := p, d_left := d_size d - p, d_dest := d_dest d - n\<rparr>"

lemma moved_simps [simp]:
  "d_mem (moved p n d) = d_mem d" "d_size (moved p n d) = d_size d" "d_ptr (moved p n d) = p"
  "d_left (moved p n d) = d_size d - p" "d_dest (moved p n d) = d_dest d - n" "d_edns (moved p n d) = d_edns d"
  "d_rcode (moved p n d) = d_rcode d" "moved q m (moved p n d) = moved q (n + m) d"
  by (simp_all add: moved_def)

lemma follows_left: "follows e e2 d \<Longrightarrow> prefix (e_out e1) (e_out e2) \<Longrightarrow> follows e e1 d"
  by (auto simp: follows_def dest: prefix_length_le prefix_order.trans)

lemma follows_right: "follows e e2 d \<Longrightarrow> follows e1 e2 (moved (length (e_out e1)) n d)"
  by (simp add: follows_def)

lemma follows_bytes:
  assumes "follows e e' d" and "e_out e' = e_out e @ bs @ r"
  shows "take (length bs) (drop (d_ptr d) (d_mem d)) = bs \<and> d_ptr d + length bs \<le> d_size d"
  using assms by (auto simp: follows_def prefix_def)

lemma peek_bytes:
  assumes "follows e e' d" and "e_out e' = e_out e @ bs @ r" and "i < length bs"
  shows "peek d i = Some (octet (bs ! i))"
  using assms by (auto simp: follows_def prefix_def peek_def nth_append)

lemma advance_moved: "follows e e' d \<Longrightarrow> d_ptr d + n \<le> d_size d \<Longrightarrow> advance n d = moved (d_ptr d + n) 0 d"
  by (auto simp: follows_def advance_def moved_def sub64_def)

lemma read_uint16_follows:
  assumes "follows e e' d" and "e_out e' = e_out e @ u16_bytes v @ r" and "v < 65536"
  shows "read_uint16 d = Some (v, moved (length (e_out e) + 2) 0 d)"
proof -
  have b: "d_ptr d + 2 \<le> d_size d" using follows_bytes [OF assms(1,2)] by simp
  have p: "peek d 0 = Some (v div 256)" "peek d 1 = Some (v mod 256)"
    using peek_bytes [OF assms(1,2), of 0] peek_bytes [OF assms(1,2), of 1] assms(3) by (simp_all add: u16_bytes_def)
  have "v div 256 * 256 + v mod 256 = v" by simp
  with b p assms(1) advance_moved [OF assms(1) b] show ?thesis
    by (simp add: read_uint16_def follows_def)
qed

lemma u32_parts: "v < 2 ^ 32 \<Longrightarrow> (v div 2 ^ 24) mod 256 * 2 ^ 24 + (v div 2 ^ 16) mod 256 * 2 ^ 16 + (v div 256) mod 256 * 256 + v mod 256 = (v :: nat)"
proof -
  assume v: "v < 2 ^ 32"
  define a b c where "a = v div 256" and "b = a div 256" and "c = b div 256"
  have d: "v div 2 ^ 24 = c" "v div 2 ^ 16 = b" by (simp_all add: a_def b_def c_def div_mult2_eq [symmetric])
  have "c < 256" using v by (simp add: a_def b_def c_def div_mult2_eq [symmetric] div_less_iff_less_mult)
  then have "c mod 256 = c" by simp
  moreover have "v = a * 256 + v mod 256" "a = b * 256 + a mod 256" "b = c * 256 + b mod 256"
    by (simp_all add: a_def b_def c_def)
  ultimately show ?thesis unfolding d a_def [symmetric] by simp
qed

lemma read_uint32_follows:
  assumes "follows e e' d" and "e_out e' = e_out e @ u32_bytes v @ r" and "v < 2 ^ 32"
  shows "read_uint32 d = Some (v, moved (length (e_out e) + 4) 0 d)"
proof -
  have b: "d_ptr d + 4 \<le> d_size d" using follows_bytes [OF assms(1,2)] by simp
  have p: "peek d 0 = Some ((v div 2 ^ 24) mod 256)" "peek d 1 = Some ((v div 2 ^ 16) mod 256)"
      "peek d 2 = Some ((v div 256) mod 256)" "peek d 3 = Some (v mod 256)"
    using peek_bytes [OF assms(1,2), of 0] peek_bytes [OF assms(1,2), of 1] peek_bytes [OF assms(1,2), of 2]
      peek_bytes [OF assms(1,2), of 3] by (simp_all add: u32_bytes_def)
  have "read_uint32 d = Some ((v div 2 ^ 24) mod 256 * 2 ^ 24 + (v div 2 ^ 16) mod 256 * 2 ^ 16 + (v div 256) mod 256 * 256 + v mod 256,
      advance 4 d)"
    unfolding read_uint32_def p using b assms(1) by (simp add: follows_def)
  then show ?thesis unfolding u32_parts [OF assms(3)] using advance_moved [OF assms(1) b] assms(1) by (simp add: follows_def)
qed

lemma read_domain_follows:
  assumes "follows e e' d" and "adds_name s b e e'" and "b \<le> MAXSEG" and "s \<noteq> []" and "NUL \<notin> set s" and "length s < d_dest d"
  shows "read_domain d = Some (Inr (s, moved (length (e_out e')) (length s + 1) d))"
proof -
  from assms(2) obtain k where n: "name_at (e_out e') (length (e_out e')) (length (e_out e)) (length (e_out e')) k s" and k: "k \<le> Suc b"
    unfolding adds_name_def by blast
  have n': "name_at (d_mem d) (d_size d) (d_ptr d) (length (e_out e')) k s"
    using name_at_extend [OF n, of "d_mem d" "d_size d"] assms(1) by (auto simp: follows_def prefix_def)
  have "d_ptr d < d_size d" using name_at_bounds [OF n'] by simp
  then have ok: "dcontext_okay d" using assms(1,6) by (auto simp: follows_def dcontext_okay_def)
  have "cstr s = s" using assms(5) by (auto simp: cstr_def takeWhile_eq_all_conv)
  moreover have "read_labels (d_mem d) (d_size d) (d_ptr d) (d_size d - d_ptr d) None 0 (d_dest d)
    = Some (Name s (d_dest d - (length s + 1)) (length (e_out e'), d_size d - length (e_out e')))"
    using read_labels_name [OF n', of 0 "d_dest d" None] assms k by (simp add: follows_def)
  ultimately show ?thesis using ok assms(1) by (simp add: read_domain_def follows_def moved_def)
qed


section \<open>Names and fields\<close>

definition name_ok :: "string \<Rightarrow> bool" where
  "name_ok s \<longleftrightarrow> (\<exists>ls. ls \<noteq> [] \<and> list_all label_ok ls \<and> s = dotted ls)"

lemma name_okE:
  assumes "name_ok s"
  obtains ls where "s = dotted ls" and "list_all label_ok ls" and "s \<noteq> []" and "NUL \<notin> set s"
  using assms dotted_clean unfolding name_ok_def by fastforce

lemma enc_then_OKAY: "enc_then m f = Some (RCODE_OKAY, c') \<longleftrightarrow> (\<exists>c. m = Some (RCODE_OKAY, c) \<and> f c = Some (RCODE_OKAY, c'))"
  by (auto simp: enc_then_def split: option.splits if_splits)

lemma write_uint16_Some: "write_uint16 v c = Some c' \<longleftrightarrow> 2 \<le> e_room c \<and> c' = emit (u16_bytes v) c"
  by (auto simp: write_uint16_def)

lemma write_uint32_Some: "write_uint32 v c = Some c' \<longleftrightarrow> 4 \<le> e_room c \<and> c' = emit (u32_bytes v) c"
  by (auto simp: write_uint32_def)

definition name_cost :: "string option \<Rightarrow> nat" where
  "name_cost nm = (case nm of None \<Rightarrow> 0 | Some s \<Rightarrow> length s + 1)"

lemma encode_domain_name:
  assumes "encode_domain s c = Some (RCODE_OKAY, c')" and "name_ok s" and "segs_inv c"
  shows "segs_inv c' \<and> prefix (e_out c) (e_out c') \<and> e_edns c' = e_edns c \<and> e_rcode c' = e_rcode c
    \<and> (\<forall>d. follows c c' d \<longrightarrow> length s < d_dest d \<longrightarrow>
          read_domain d = Some (Inr (s, moved (length (e_out c')) (length s + 1) d)) \<and> dcontext_okay d)"
proof -
  from assms(2) obtain ls where s: "s = dotted ls" "list_all label_ok ls" "s \<noteq> []" "NUL \<notin> set s" by (rule name_okE)
  have a: "adds_name s (length (e_segs c)) c c'" "segs_inv c'"
    using encode_domain_adds [of ls c c'] assms s by auto
  have r: "read_domain d = Some (Inr (s, moved (length (e_out c')) (length s + 1) d))" if "follows c c' d" "length s < d_dest d" for d
    using read_domain_follows [OF that(1) a(1) _ s(3,4) that(2)] assms(3) by (simp add: segs_inv_def)
  moreover have "dcontext_okay d" if "follows c c' d" "length s < d_dest d" for d
    using r [OF that] by (auto simp: read_domain_def split: if_split_asm)
  ultimately show ?thesis using a by (auto simp: adds_name_def)
qed

section \<open>Texts\<close>

fun chunk_bytes :: "nat \<Rightarrow> string \<Rightarrow> string" where
  "chunk_bytes 0 tx = []"
| "chunk_bytes (Suc n) tx = (if tx = [] then [] else u8_bytes (length (take 255 tx)) @ take 255 tx @ chunk_bytes n (drop 255 tx))"

lemma encode_chunks_bytes:
  "encode_chunks tx c = Some (RCODE_OKAY, c') \<Longrightarrow> length tx \<le> n \<Longrightarrow>
   e_out c' = e_out c @ chunk_bytes n tx \<and> e_room c' + length (chunk_bytes n tx) = e_room c \<and> e_segs c' = e_segs c
   \<and> e_edns c' = e_edns c \<and> e_rcode c' = e_rcode c"
proof (induction n arbitrary: tx c)
  case 0
  then show ?case by (simp add: encode_chunks.simps [of "[]"])
next
  case (Suc n)
  show ?case
  proof (cases "tx = []")
    case True
    with Suc(2) show ?thesis by (simp add: encode_chunks.simps [of "[]"])
  next
    case False
    with Suc(2) obtain c1 where "encode_string (take 255 tx) c = Some (RCODE_OKAY, c1)"
      and r: "encode_chunks (drop 255 tx) c1 = Some (RCODE_OKAY, c')"
      by (auto simp: encode_chunks.simps [of tx] enc_then_OKAY)
    then have c1: "c1 = emit (u8_bytes (length (take 255 tx)) @ take 255 tx) c" "length (take 255 tx) + 1 \<le> e_room c"
      by (auto simp: encode_string_def emit_checked_OKAY split: if_split_asm)
    have "length (drop 255 tx) \<le> n" using Suc(3) False by (cases tx) auto
    from Suc.IH [OF r this] c1 False show ?thesis by auto
  qed
qed

lemma decode_strings_chunks:
  "follows e e' d \<Longrightarrow> e_out e' = e_out e @ chunk_bytes n tx @ r \<Longrightarrow> length tx \<le> n \<Longrightarrow> length tx \<le> d_dest d \<Longrightarrow>
   decode_strings (length (chunk_bytes n tx)) d
     = Some (Inr (tx, moved (length (e_out e) + length (chunk_bytes n tx)) (length tx) d))"
proof (induction n arbitrary: tx e d)
  case 0
  then show ?case by (simp add: decode_strings.simps follows_def moved_def)
next
  case (Suc n)
  show ?case
  proof (cases "tx = []")
    case True
    with Suc(2) show ?thesis by (simp add: decode_strings.simps follows_def moved_def)
  next
    case False
    let ?t = "take 255 tx"
    let ?bs = "u8_bytes (length ?t) @ ?t"
    let ?e1 = "emit ?bs e"
    let ?rest = "chunk_bytes n (drop 255 tx)"
    have out: "e_out e' = e_out e @ ?bs @ ?rest @ r" using Suc(3) False by simp
    have lt: "length ?t < 256" by simp
    have p: "peek d 0 = Some (length ?t)" using peek_bytes [OF Suc(2) out, of 0] by (simp add: u8_bytes_def)
    note b = follows_bytes [OF Suc(2) out]
    have by1: "bytes_at (d_mem d) (d_ptr d + 1) (length ?t) = Some ?t"
    proof (rule bytes_at_label)
      have "take (length ?bs) (drop (d_ptr d) (d_mem d)) = ?bs" using b by simp
      then have "drop 1 (take (length ?bs) (drop (d_ptr d) (d_mem d))) = ?t" by (simp add: u8_bytes_def)
      then show "take (length ?t) (drop (d_ptr d + 1) (d_mem d)) = ?t" by (simp add: drop_take add.commute u8_bytes_def)
      show "d_ptr d + 1 \<le> length (d_mem d)" using b Suc(2) by (auto simp: follows_def)
    qed simp
    let ?d1 = "moved (length (e_out ?e1)) (length ?t) d"
    have f1: "follows ?e1 e' ?d1" by (rule follows_right [OF Suc(2)])
    have ih: "decode_strings (length ?rest) ?d1
        = Some (Inr (drop 255 tx, moved (length (e_out ?e1) + length ?rest) (length (drop 255 tx)) ?d1))"
      by (rule Suc.IH [OF f1]) (use out Suc(4,5) False in \<open>auto simp: u8_bytes_def\<close>)
    have ad: "alloc (length ?t) (advance (length ?t) (advance 1 d)) = ?d1"
      using b Suc(2) by (auto simp: advance_def alloc_def moved_def sub64_def follows_def)
    have left: "1 \<le> d_left d" "length ?t \<le> d_left (advance 1 d)" "d_mem (advance 1 d) = d_mem d"
        "d_ptr (advance 1 d) = d_ptr d + 1" "d_dest (advance 1 d) = d_dest d"
      using b Suc(2) by (auto simp: advance_def follows_def sub64_def)
    have len: "length (chunk_bytes (Suc n) tx) = 1 + length ?t + length ?rest" using False by simp
    define m where "m = length ?t"
    have dest: "m \<le> d_dest d" using Suc(5) by (simp add: m_def)
    have "decode_strings (length (chunk_bytes (Suc n) tx)) d
        = and_then (decode_strings (length ?rest) ?d1) (\<lambda>r c2. Some (Inr (?t @ r, c2)))"
      unfolding len using p by1 ad left dest unfolding m_def [symmetric] by (subst decode_strings.simps) (simp add: Let_def)
    then show ?thesis unfolding ih len using False Suc(3) by (simp add: and_then_def u8_bytes_def)
  qed
qed

end
