(* ===== verification/Dns_Records.thy ===== *)
theory Dns_Records
  imports Dns_Names
begin

text \<open>
  Resource records through the codec.  Encoders only append, so the length of a record's data,
  which the encoder patches in afterwards, can be thought of as written first; then every
  record is the sequence of its fields, and rules for the fields compose to the records.
\<close>

section \<open>Encoders only append\<close>

text \<open>
  What an encoder writes and how it ends depend on the length of the output so far, not on its
  bytes.  The length of a record's data can therefore be put in place before the data is
  written.
\<close>

definition rebase :: "string \<Rightarrow> dns_rcode \<times> edns_context \<Rightarrow> dns_rcode \<times> edns_context" where
  "rebase out r = (fst r, (snd r)\<lparr>e_out := out @ drop (length out) (e_out (snd r))\<rparr>)"

definition appends :: "(edns_context \<Rightarrow> enc_result) \<Rightarrow> bool" where
  "appends f \<longleftrightarrow> (\<forall>c. (\<forall>rc c'. f c = Some (rc, c') \<longrightarrow> prefix (e_out c) (e_out c'))
     \<and> (\<forall>out. length out = length (e_out c) \<longrightarrow> f (c\<lparr>e_out := out\<rparr>) = map_option (rebase out) (f c)))"

lemma appendsI:
  assumes "\<And>c rc c'. f c = Some (rc, c') \<Longrightarrow> prefix (e_out c) (e_out c')"
    and "\<And>c out. length out = length (e_out c) \<Longrightarrow> f (c\<lparr>e_out := out\<rparr>) = map_option (rebase out) (f c)"
  shows "appends f"
  unfolding appends_def using assms by blast

lemma appends_prefix: "appends f \<Longrightarrow> f c = Some (rc, c') \<Longrightarrow> prefix (e_out c) (e_out c')"
  by (simp add: appends_def)

lemma appends_rebase: "appends f \<Longrightarrow> length out = length (e_out c) \<Longrightarrow> f (c\<lparr>e_out := out\<rparr>) = map_option (rebase out) (f c)"
  by (simp add: appends_def)

named_theorems append_rules

lemma appends_none [append_rules]: "appends (\<lambda>c. None)"
  by (simp add: appends_def)

lemma appends_stop [append_rules]: "appends (\<lambda>c. Some (rc, c))"
  by (rule appendsI) (auto simp: rebase_def)

lemma appends_emit [append_rules]: "appends (\<lambda>c. Some (rc, emit bs c))"
  by (rule appendsI) (auto simp: rebase_def emit_def)

lemma appends_if [append_rules]:
  assumes "\<And>c out. P (c\<lparr>e_out := out\<rparr>) = P c" and "appends f" and "appends g"
  shows "appends (\<lambda>c. if P c then f c else g c)"
  by (rule appendsI) (auto simp: assms(1) appends_rebase assms(2,3) split: if_split_asm intro: appends_prefix assms(2,3))

lemma appends_then [append_rules]:
  assumes f: "appends f" and g: "appends g"
  shows "appends (\<lambda>c. enc_then (f c) g)"
proof (rule appendsI)
  fix c rc c' assume "enc_then (f c) g = Some (rc, c')"
  then obtain rc1 c1 where 1: "f c = Some (rc1, c1)" and 2: "c' = c1 \<or> g c1 = Some (rc, c')"
    by (auto simp: enc_then_def split: option.split_asm if_split_asm)
  from 2 show "prefix (e_out c) (e_out c')"
    using appends_prefix [OF f 1] appends_prefix [OF g, of c1] by (auto intro: prefix_order.trans)
next
  fix c :: edns_context and out :: string assume l: "length out = length (e_out c)"
  note a = appends_rebase [OF f l]
  show "enc_then (f (c\<lparr>e_out := out\<rparr>)) g = map_option (rebase out) (enc_then (f c) g)"
  proof (cases "f c")
    case None
    then show ?thesis by (simp add: a enc_then_def)
  next
    case (Some r)
    obtain rc c1 where r: "f c = Some (rc, c1)" using Some by (cases r) simp
    from appends_prefix [OF f r] obtain bs where b: "e_out c1 = e_out c @ bs" by (auto simp: prefix_def)
    let ?out = "out @ bs"
    have g1: "g (c1\<lparr>e_out := ?out\<rparr>) = map_option (rebase ?out) (g c1)" by (rule appends_rebase [OF g]) (simp add: b l)
    have same: "rebase ?out (rc', c2) = rebase out (rc', c2)" if "g c1 = Some (rc', c2)" for rc' c2
      using appends_prefix [OF g that] b l by (auto simp: rebase_def prefix_def)
    show ?thesis using g1 same by (cases "g c1") (auto simp: a r enc_then_def rebase_def b l)
  qed
qed

lemma appends_write16 [append_rules]: "appends f \<Longrightarrow> appends (\<lambda>c. Option.bind (write_uint16 v c) f)"
proof -
  assume f: "appends f"
  have "appends (\<lambda>c. if e_room c < 2 then None else enc_then (Some (RCODE_OKAY, emit (u16_bytes v) c)) f)"
    by (intro append_rules f) simp
  moreover have "(\<lambda>c. if e_room c < 2 then None else enc_then (Some (RCODE_OKAY, emit (u16_bytes v) c)) f) = (\<lambda>c. Option.bind (write_uint16 v c) f)"
    by (auto simp: write_uint16_def enc_then_def)
  ultimately show ?thesis by simp
qed

lemma appends_write32 [append_rules]: "appends f \<Longrightarrow> appends (\<lambda>c. Option.bind (write_uint32 v c) f)"
proof -
  assume f: "appends f"
  have "appends (\<lambda>c. if e_room c < 4 then None else enc_then (Some (RCODE_OKAY, emit (u32_bytes v) c)) f)"
    by (intro append_rules f) simp
  moreover have "(\<lambda>c. if e_room c < 4 then None else enc_then (Some (RCODE_OKAY, emit (u32_bytes v) c)) f) = (\<lambda>c. Option.bind (write_uint32 v c) f)"
    by (auto simp: write_uint32_def enc_then_def)
  ultimately show ?thesis by simp
qed

lemma appends_emit_checked [append_rules]: "appends (emit_checked n bs)"
  unfolding emit_checked_def by (intro append_rules) simp

lemma segment_rebase:
  fixes c :: edns_context and out :: string
  assumes "length out = length (e_out c)"
  shows "encode_segment nm (c\<lparr>e_out := out\<rparr>) = (case encode_segment nm c of Inl rc \<Rightarrow> Inl rc
     | Inr (rest, off, c') \<Rightarrow> Inr (rest, off, c'\<lparr>e_out := out @ drop (length out) (e_out c')\<rparr>))"
  using assms by (auto simp: encode_segment_def Let_def emit_def)

lemma segment_prefix: "encode_segment nm c = Inr (rest, off, c') \<Longrightarrow> prefix (e_out c) (e_out c')"
  by (auto simp: encode_segment_def Let_def emit_def split: if_split_asm)

lemma appends_labels [append_rules]: "appends (encode_labels nm)"
proof (induction nm rule: length_induct)
  case (1 nm)
  note e = encode_labels.simps [of nm]
  have rest: "appends (encode_labels rest)" if "encode_segment nm c = Inr (rest, off, c')" for c rest off c'
    using 1 encode_segment_shorter [OF that] by blast
  show ?case
  proof (rule appendsI)
    fix c rc c' assume s: "encode_labels nm c = Some (rc, c')"
    have "prefix (e_out c) (e_out c')" if "encode_segment nm c = Inr (rest, off, c1)"
        and "encode_labels rest (c1\<lparr>e_segs := sg\<rparr>) = Some (rc, c')" for rest off c1 sg
      using segment_prefix [OF that(1)] appends_prefix [OF rest [OF that(1)] that(2)] by (auto intro: prefix_order.trans)
    moreover have "prefix (e_out c) (e_out c')" if "emit_checked n bs c = Some (rc, c')" for n bs
      using appends_prefix [OF appends_emit_checked that] .
    ultimately show "prefix (e_out c) (e_out c')"
      using s unfolding e by (auto split: if_split_asm option.split_asm sum.split_asm)
  next
    fix c :: edns_context and out :: string assume l: "length out = length (e_out c)"
    have step: "encode_labels rest (c1\<lparr>e_out := out @ drop (length out) (e_out c1), e_segs := sg\<rparr>)
        = map_option (rebase out) (encode_labels rest (c1\<lparr>e_segs := sg\<rparr>))" if s: "encode_segment nm c = Inr (rest, off, c1)" for rest off c1 sg
    proof -
      from segment_prefix [OF s] obtain bs where b: "e_out c1 = e_out c @ bs" by (auto simp: prefix_def)
      have "encode_labels rest (c1\<lparr>e_segs := sg\<rparr>\<lparr>e_out := out @ bs\<rparr>) = map_option (rebase (out @ bs)) (encode_labels rest (c1\<lparr>e_segs := sg\<rparr>))"
        by (rule appends_rebase [OF rest [OF s]]) (simp add: b l)
      also have "\<dots> = map_option (rebase out) (encode_labels rest (c1\<lparr>e_segs := sg\<rparr>))"
        using appends_prefix [OF rest [OF s], of "c1\<lparr>e_segs := sg\<rparr>"] by (intro option.map_cong0) (auto simp: rebase_def prefix_def b l)
      finally show ?thesis using b by (cases c1) (simp add: l)
    qed
    show "encode_labels nm (c\<lparr>e_out := out\<rparr>) = map_option (rebase out) (encode_labels nm c)"
      unfolding e segment_rebase [OF l]
      by (auto simp: appends_rebase [OF appends_emit_checked l] step [unfolded l] rebase_def l split: option.split sum.split)
  qed
qed

lemma appends_domain [append_rules]: "appends (encode_domain nm)"
  unfolding encode_domain_def [abs_def] by (intro append_rules) (simp add: econtext_okay_def)

lemma appends_string [append_rules]: "appends (encode_string s)"
  unfolding encode_string_def [abs_def] by (intro append_rules) (simp_all add: econtext_okay_def)

lemma appends_chunks [append_rules]: "appends (encode_chunks tx)"
proof (induction tx rule: length_induct)
  case (1 tx)
  have e: "encode_chunks tx = (\<lambda>c. if tx = [] then Some (RCODE_OKAY, c) else enc_then (encode_string (take 255 tx) c) (encode_chunks (drop 255 tx)))"
    by (rule ext) (rule encode_chunks.simps)
  show ?case
  proof (cases "tx = []")
    case False
    then have "appends (encode_chunks (drop 255 tx))" using 1 by simp
    with False show ?thesis unfolding e by (simp add: append_rules)
  next
    case True
    show ?thesis by (subst e) (simp add: True append_rules)
  qed
qed

section \<open>What is written is read back\<close>

text \<open>
  From \<open>e\<close> to \<open>e'\<close> the encoder wrote a form of \<open>v\<close>: a decoder standing there reads \<open>v\<close>, takes \<open>n\<close>
  bytes of result memory and stands behind it.
\<close>

definition carries :: "edns_context \<Rightarrow> edns_context \<Rightarrow> (ddns_context \<Rightarrow> 'a dec_result) \<Rightarrow> 'a \<Rightarrow> nat \<Rightarrow> bool" where
  "carries e e' dec v n \<longleftrightarrow> segs_inv e' \<and> prefix (e_out e) (e_out e') \<and> e_edns e' = e_edns e \<and> e_rcode e' = e_rcode e
     \<and> (\<forall>d. follows e e' d \<longrightarrow> n < d_dest d \<longrightarrow> dec d = Some (Inr (v, moved (length (e_out e')) n d)))"

lemma carriesD:
  assumes "carries e e' dec v n"
  shows "segs_inv e'" "prefix (e_out e) (e_out e')" "e_edns e' = e_edns e" "e_rcode e' = e_rcode e"
    "follows e e' d \<Longrightarrow> n < d_dest d \<Longrightarrow> dec d = Some (Inr (v, moved (length (e_out e')) n d))"
  using assms by (auto simp: carries_def)

lemma carries_return: "segs_inv e \<Longrightarrow> carries e e (\<lambda>d. Some (Inr (v, d))) v 0"
  by (auto simp: carries_def follows_def moved_def)

lemma carries_then:
  assumes a: "carries e e1 f v n" and b: "carries e1 e' (g v) w m"
  shows "carries e e' (\<lambda>d. and_then (f d) g) w (n + m)"
proof -
  have "and_then (f d) g = Some (Inr (w, moved (length (e_out e')) (n + m) d))" if "follows e e' d" "n + m < d_dest d" for d
    using carriesD(5) [OF a, of d] carriesD(5) [OF b, of "moved (length (e_out e1)) n d"] carriesD(2) [OF b] that
    by (auto simp: and_then_def follows_left follows_right)
  then show ?thesis
    using carriesD(1-4) [OF a] carriesD(1-4) [OF b] by (auto simp: carries_def intro: prefix_order.trans)
qed

lemma carries_last: "carries e e' f v n \<Longrightarrow> (\<And>c. g v c = Some (Inr (w, c))) \<Longrightarrow> carries e e' (\<lambda>d. and_then (f d) g) w n"
  by (auto simp: carries_def and_then_def)

lemma carries_read16:
  assumes a: "carries (emit (u16_bytes v) e) e' (g v) w m" and v: "v < 65536"
  shows "carries e e' (\<lambda>d. Option.bind (read_uint16 d) (\<lambda>(x, c). g x c)) w m"
proof -
  from carriesD(2) [OF a] obtain r where r: "e_out e' = e_out e @ u16_bytes v @ r" by (auto simp: prefix_def)
  have "Option.bind (read_uint16 d) (\<lambda>(x, c). g x c) = Some (Inr (w, moved (length (e_out e')) m d))"
    if f: "follows e e' d" and m: "m < d_dest d" for d
    using carriesD(5) [OF a follows_right [OF f, of _ 0]] m read_uint16_follows [OF f r v] by simp
  then show ?thesis using carriesD(1-4) [OF a] by (auto simp: carries_def prefix_def)
qed

lemma carries_read32:
  assumes a: "carries (emit (u32_bytes v) e) e' (g v) w m" and v: "v < 2 ^ 32"
  shows "carries e e' (\<lambda>d. Option.bind (read_uint32 d) (\<lambda>(x, c). g x c)) w m"
proof -
  from carriesD(2) [OF a] obtain r where r: "e_out e' = e_out e @ u32_bytes v @ r" by (auto simp: prefix_def)
  have "Option.bind (read_uint32 d) (\<lambda>(x, c). g x c) = Some (Inr (w, moved (length (e_out e')) m d))"
    if f: "follows e e' d" and m: "m < d_dest d" for d
    using carriesD(5) [OF a follows_right [OF f, of _ 0]] m read_uint32_follows [OF f r v] by simp
  then show ?thesis using carriesD(1-4) [OF a] by (auto simp: carries_def prefix_def)
qed

lemma carries_room:
  assumes a: "carries e e' f v n" and k: "length (e_out e) + k \<le> length (e_out e')"
  shows "carries e e' (\<lambda>d. if d_left d < k then r else f d) v n"
  using a k by (auto simp: carries_def follows_def)

lemma carries_guard:
  assumes a: "carries e e' f v n" and k: "length (e_out e) < length (e_out e')"
  shows "carries e e' (\<lambda>d. if \<not> dcontext_okay d then None else f d) v n"
  using a k by (auto simp: carries_def follows_def dcontext_okay_def)

lemma carries_if: "carries e e' f v n \<Longrightarrow> \<not> b \<Longrightarrow> carries e e' (\<lambda>d. if b then r d else f d) v n"
  by simp

lemma carries_bytes:
  assumes i: "segs_inv e" and r: "length bs \<le> e_room e" and n: "n = length bs"
  shows "carries e (emit bs e) (\<lambda>d. Option.bind (bytes_at (d_mem d) (d_ptr d) n) (\<lambda>x. Some (Inr (g x, advance n d)))) (g bs) 0"
proof -
  have "Option.bind (bytes_at (d_mem d) (d_ptr d) n) (\<lambda>x. Some (Inr (g x, advance n d))) = Some (Inr (g bs, moved (length (e_out (emit bs e))) 0 d))"
    if f: "follows e (emit bs e) d" for d
  proof -
    note b = follows_bytes [OF f, of bs "[]"]
    have "bytes_at (d_mem d) (d_ptr d) n = Some bs" using b f n by (intro bytes_at_label) (auto simp: follows_def)
    moreover have "advance n d = moved (length (e_out (emit bs e))) 0 d" using b f n advance_moved [OF f, of n] by (auto simp: follows_def)
    ultimately show ?thesis by simp
  qed
  then show ?thesis using segs_inv_emit [OF i r] by (auto simp: carries_def)
qed

text \<open>A name may also be the root.\<close>

definition domain_ok :: "string \<Rightarrow> bool" where
  "domain_ok s \<longleftrightarrow> s = ''.'' \<or> name_ok s"

lemma name_ok_root: "\<not> name_ok ''.''"
proof
  assume "name_ok ''.''"
  then obtain l ls where "label_ok l" "l @ CHR ''.'' # dotted ls = ''.''" by (auto simp: name_ok_def neq_Nil_conv dotted_Cons)
  then show False by (cases l) (auto simp: label_ok_def)
qed

lemma carries_domain:
  assumes e: "encode_domain s e = Some (RCODE_OKAY, e')" and s: "domain_ok s" and i: "segs_inv e"
  shows "carries e e' read_domain s (length s + 1)" and "length (e_out e) < length (e_out e')"
    and "s \<noteq> ''.'' \<Longrightarrow> length (e_out e) + 2 \<le> length (e_out e')"
proof -
  have "carries e e' read_domain s (length s + 1) \<and> length (e_out e) < length (e_out e')
     \<and> (s \<noteq> ''.'' \<longrightarrow> length (e_out e) + 2 \<le> length (e_out e'))"
  proof (cases "s = ''.''")
    case True
    with e have e': "e' = emit (u8_bytes 0) e" "1 \<le> e_room e"
      by (auto simp: encode_domain_def encode_labels.simps [of "''.''"] emit_checked_OKAY split: if_split_asm)
    have "read_domain d = Some (Inr (''.'', moved (length (e_out e')) 2 d))" if f: "follows e e' d" and m: "2 < d_dest d" for d
    proof -
      have p: "d_ptr d < d_size d" "d_size d \<le> length (d_mem d)" "d_left d = d_size d - d_ptr d" "d_ptr d = length (e_out e)"
        using f e' by (auto simp: follows_def)
      have z: "d_mem d ! d_ptr d = NUL"
        using f e' by (auto simp: follows_def prefix_def u8_bytes_def nth_append)
      have "read_labels (d_mem d) (d_size d) (d_ptr d) (d_left d) None 0 (d_dest d)
          = Some (Name ''.'' (d_dest d - 2) (d_ptr d + 1, d_size d - (d_ptr d + 1)))"
        using p z m by (subst read_labels.simps) (simp add: bytes_at_def name_end_def prepend_label_def sub64_def Let_def numeral_2_eq_2)
      then show ?thesis using p m e' by (simp add: read_domain_def dcontext_okay_def moved_def cstr_def)
    qed
    then show ?thesis using e' segs_inv_emit [OF i, of "u8_bytes 0"] True by (auto simp: carries_def)
  next
    case False
    with s have n: "name_ok s" by (simp add: domain_ok_def)
    then obtain ls where ls: "s = dotted ls" "list_all label_ok ls" "s \<noteq> []" by (rule name_okE)
    have "adds_name s (length (e_segs e)) e e'" using encode_domain_adds [of ls e e'] e ls i by auto
    then obtain k where k: "name_at (e_out e') (length (e_out e')) (length (e_out e)) (length (e_out e')) k s"
      unfolding adds_name_def by blast
    then have "length (e_out e) + 2 \<le> length (e_out e')"
      using ls(3) by (cases rule: name_at.cases) (auto dest: name_at_bounds)
    then show ?thesis using encode_domain_name [OF e n i] by (auto simp: carries_def)
  qed
  then show "carries e e' read_domain s (length s + 1)" "length (e_out e) < length (e_out e')"
    "s \<noteq> ''.'' \<Longrightarrow> length (e_out e) + 2 \<le> length (e_out e')" by auto
qed

lemma carries_string:
  assumes e: "encode_string s e = Some (RCODE_OKAY, e')" and s: "NUL \<notin> set s" and i: "segs_inv e"
  shows "carries e e' read_string s (length s + 1)" and "length (e_out e) < length (e_out e')"
proof -
  let ?bs = "u8_bytes (length s) @ s"
  from e have e': "e' = emit ?bs e" and r: "length ?bs \<le> e_room e" and l: "length s \<le> 255"
    by (auto simp: encode_string_def emit_checked_OKAY split: if_split_asm)
  have "read_string d = Some (Inr (s, moved (length (e_out e')) (length s + 1) d))"
    if f: "follows e e' d" and m: "length s + 1 < d_dest d" for d
  proof -
    have out: "e_out e' = e_out e @ ?bs @ []" by (simp add: e')
    note b = follows_bytes [OF f out]
    have p: "peek d 0 = Some (length s)" using peek_bytes [OF f out, of 0] l by (simp add: u8_bytes_def)
    have "drop 1 (take (length ?bs) (drop (d_ptr d) (d_mem d))) = s" using b by (simp add: u8_bytes_def)
    then have t: "take (length s) (drop (d_ptr d + 1) (d_mem d)) = s" by (simp add: drop_take add.commute u8_bytes_def)
    have y: "bytes_at (d_mem d) (d_ptr d + 1) (length s) = Some s"
      using t b f by (intro bytes_at_label) (auto simp: follows_def)
    have c: "cstr s = s" using s by (auto simp: cstr_def takeWhile_eq_all_conv)
    have "alloc (length s + 1) (advance (length s + 1) d) = moved (length (e_out e')) (length s + 1) d"
      using b f by (auto simp: advance_def alloc_def moved_def sub64_def follows_def e')
    then show ?thesis using p y c b f m by (auto simp: read_string_def dcontext_okay_def follows_def)
  qed
  then show "carries e e' read_string s (length s + 1)" "length (e_out e) < length (e_out e')"
    using segs_inv_emit [OF i r] by (auto simp: carries_def e')
qed

section \<open>Resource records\<close>

text \<open>
  The data that survives the trip: names of non-empty labels or the root (but not the root as
  a mail exchange, which the decoder finds too short), strings without a zero byte, numbers
  within their fields.
\<close>

fun rdata_ok :: "rdata \<Rightarrow> bool" where
  "rdata_ok (RD_A adr) = (length adr = 4)"
| "rdata_ok (RD_AAAA adr) = (length adr = 16)"
| "rdata_ok (RD_SOA soa) = (domain_ok (soa_mname soa) \<and> domain_ok (soa_rname soa) \<and> soa_serial soa < 2 ^ 32
     \<and> soa_refresh soa < 2 ^ 32 \<and> soa_retry soa < 2 ^ 32 \<and> soa_expire soa < 2 ^ 32 \<and> soa_minimum soa < 2 ^ 32)"
| "rdata_ok (RD_NAPTR na) = (NUL \<notin> set (na_flags na) \<and> NUL \<notin> set (na_services na) \<and> NUL \<notin> set (na_regexp na)
     \<and> domain_ok (na_replacement na))"
| "rdata_ok (RD_SRV prio weight port target) = domain_ok target"
| "rdata_ok (RD_MINFO a b) = (domain_ok a \<and> domain_ok b)"
| "rdata_ok (RD_MX pref x) = name_ok x"
| "rdata_ok (RD_HINFO a b) = (NUL \<notin> set a \<and> NUL \<notin> set b)"
| "rdata_ok (RD_TXT tx) = True"
| "rdata_ok (RD_NAME nm) = domain_ok nm"
| "rdata_ok _ = False"

fun rdata_cost :: "rdata \<Rightarrow> nat" where
  "rdata_cost (RD_SOA soa) = length (soa_mname soa) + length (soa_rname soa) + 2"
| "rdata_cost (RD_NAPTR na) = length (na_flags na) + length (na_services na) + length (na_regexp na) + length (na_replacement na) + 4"
| "rdata_cost (RD_SRV prio weight port target) = length target + 1"
| "rdata_cost (RD_MINFO a b) = length a + length b + 2"
| "rdata_cost (RD_MX pref x) = length x + 1"
| "rdata_cost (RD_HINFO a b) = length a + length b + 2"
| "rdata_cost (RD_TXT tx) = length tx + 1"
| "rdata_cost (RD_NAME nm) = length nm + 1"
| "rdata_cost _ = 0"

lemma appends_rdata:
  assumes "rdata_ok d"
  shows "appends (encode_rdata fpu t cls d)"
proof -
  have "appends (encode_rr_a adr)" "appends (encode_rr_aaaa adr)" "appends (encode_rr_soa soa)" "appends (encode_rr_naptr cls na)"
    "appends (encode_rr_srv n m k s)" "appends (encode_rr_minfo s u)" "appends (encode_rr_mx n s)" "appends (encode_rr_hinfo s u)"
    "appends (encode_rr_txt s)" for adr soa na n m k s u
    unfolding encode_rr_a_def [abs_def] encode_rr_aaaa_def [abs_def] encode_rr_soa_def [abs_def] encode_rr_naptr_def [abs_def]
      encode_rr_srv_def [abs_def] encode_rr_minfo_def [abs_def] encode_rr_mx_def [abs_def] encode_rr_hinfo_def [abs_def] encode_rr_txt_def [abs_def]
    by (intro append_rules; simp add: econtext_okay_def)+
  then show ?thesis
    using assms by (cases d; cases "rr_kind t") (simp_all add: encode_rdata_def [abs_def] append_rules)
qed

lemma carries_a:
  assumes "encode_rr_a adr e = Some (RCODE_OKAY, e')" and "length adr = 4" and "segs_inv e"
  shows "carries e e' (decode_rr_a 4) (RD_A adr) 0"
proof -
  have e': "e' = emit adr e" "4 \<le> e_room e" using assms(1) by (auto simp: encode_rr_a_def emit_checked_OKAY split: if_split_asm)
  show ?thesis unfolding decode_rr_a_def [abs_def] e'
    by (intro carries_guard carries_if carries_bytes) (use assms e' in auto)
qed

lemma carries_aaaa:
  assumes "encode_rr_aaaa adr e = Some (RCODE_OKAY, e')" and "length adr = 16" and "segs_inv e"
  shows "carries e e' (decode_rr_aaaa 16) (RD_AAAA adr) 0"
proof -
  have e': "e' = emit adr e" "16 \<le> e_room e" using assms(1) by (auto simp: encode_rr_aaaa_def emit_checked_OKAY split: if_split_asm)
  show ?thesis unfolding decode_rr_aaaa_def [abs_def] e'
    by (intro carries_guard carries_if carries_bytes) (use assms e' in auto)
qed

lemma carries_stop: "segs_inv e' \<Longrightarrow> v = w \<Longrightarrow> e = e' \<Longrightarrow> carries e e' (\<lambda>d. Some (Inr (v, d))) w 0"
  by (simp add: carries_return)

lemma carries_soa:
  assumes "encode_rr_soa soa e = Some (RCODE_OKAY, e')" and "rdata_ok (RD_SOA soa)" and "segs_inv e"
    and "len = length (e_out e') - length (e_out e)"
  shows "carries e e' (decode_rr_soa len) (RD_SOA soa) (rdata_cost (RD_SOA soa))"
proof -
  from assms(1) obtain e1 e2 where d: "encode_domain (soa_mname soa) e = Some (RCODE_OKAY, e1)" "encode_domain (soa_rname soa) e1 = Some (RCODE_OKAY, e2)"
    and r: "20 \<le> e_room e2" and e': "e' = emit (u32_bytes (soa_minimum soa)) (emit (u32_bytes (soa_expire soa)) (emit (u32_bytes (soa_retry soa))
      (emit (u32_bytes (soa_refresh soa)) (emit (u32_bytes (soa_serial soa)) e2))))"
    by (auto simp: encode_rr_soa_def enc_then_OKAY bind_eq_Some_conv write_uint32_Some split: if_split_asm)
  have ok: "domain_ok (soa_mname soa)" "domain_ok (soa_rname soa)" using assms(2) by auto
  note n1 = carries_domain [OF d(1) ok(1) assms(3)]
  note n2 = carries_domain [OF d(2) ok(2) carriesD(1) [OF n1(1)]]
  have i: "segs_inv e'" unfolding e' by (intro segs_inv_emit carriesD(1) [OF n2(1)]) (use r in auto)
  have l: "length (e_out e) < length (e_out e')" "\<not> len < 20" using n1(2) n2(2) by (simp_all add: e' assms(4))
  have "carries e e' (decode_rr_soa len) (RD_SOA soa) (length (soa_mname soa) + 1 + (length (soa_rname soa) + 1 + 0))"
    unfolding decode_rr_soa_def [abs_def]
    by (rule carries_guard, rule carries_then [OF n1(1)], rule carries_then [OF n2(1)], rule carries_if,
        rule carries_read32 [where v = "soa_serial soa"], rule carries_read32 [where v = "soa_refresh soa"],
        rule carries_read32 [where v = "soa_retry soa"], rule carries_read32 [where v = "soa_expire soa"],
        rule carries_read32 [where v = "soa_minimum soa"], rule carries_stop [OF i])
       (use assms(2) l in \<open>auto simp: e'\<close>)
  then show ?thesis by simp
qed

lemma carries_srv:
  assumes "encode_rr_srv prio weight port target e = Some (RCODE_OKAY, e')" and "domain_ok target" and "segs_inv e"
    and "len = length (e_out e') - length (e_out e)"
  shows "carries e e' (decode_rr_srv len) (RD_SRV prio weight port target) (length target + 1)"
proof -
  let ?e = "emit (u16_bytes port) (emit (u16_bytes weight) (emit (u16_bytes prio) e))"
  from assms(1) have d: "encode_domain target ?e = Some (RCODE_OKAY, e')" and r: "7 \<le> e_room e" and b: "prio < 65536" "weight < 65536" "port < 65536"
    by (auto simp: encode_rr_srv_def bind_eq_Some_conv write_uint16_Some split: if_split_asm)
  have i: "segs_inv ?e" by (intro segs_inv_emit assms(3)) (use r in auto)
  note n = carries_domain [OF d assms(2) i]
  have l: "length (e_out e) < length (e_out e')" "\<not> len < 7" using n(2) by (simp_all add: assms(4))
  show ?thesis unfolding decode_rr_srv_def [abs_def]
    by (rule carries_guard, rule carries_if, rule carries_read16 [where v = prio], rule carries_read16 [where v = weight],
        rule carries_read16 [where v = port], rule carries_last [OF n(1)]) (use l b in auto)
qed

lemma carries_mx:
  assumes "encode_rr_mx pref x e = Some (RCODE_OKAY, e')" and "name_ok x" and "segs_inv e"
    and "len = length (e_out e') - length (e_out e)"
  shows "carries e e' (decode_rr_mx len) (RD_MX pref x) (length x + 1)"
proof -
  let ?e = "emit (u16_bytes pref) e"
  from assms(1) have d: "encode_domain x ?e = Some (RCODE_OKAY, e')" and r: "2 \<le> e_room e" and b: "pref < 65536"
    by (auto simp: encode_rr_mx_def bind_eq_Some_conv write_uint16_Some split: if_split_asm)
  have i: "segs_inv ?e" by (intro segs_inv_emit assms(3)) (use r in auto)
  have x: "domain_ok x" "x \<noteq> ''.''" using assms(2) by (auto simp: domain_ok_def name_ok_root)
  note n = carries_domain [OF d x(1) i]
  have l: "length (e_out e) < length (e_out e')" "\<not> len < 4" using n(3) [OF x(2)] by (simp_all add: assms(4))
  show ?thesis unfolding decode_rr_mx_def [abs_def]
    by (rule carries_guard, rule carries_if, rule carries_read16 [where v = pref], rule carries_last [OF n(1)]) (use l b in auto)
qed

lemma carries_minfo:
  assumes "encode_rr_minfo a b e = Some (RCODE_OKAY, e')" and "domain_ok a" and "domain_ok b" and "segs_inv e"
  shows "carries e e' decode_rr_minfo (RD_MINFO a b) (length a + length b + 2)"
proof -
  from assms(1) obtain e1 where d: "encode_domain a e = Some (RCODE_OKAY, e1)" "encode_domain b e1 = Some (RCODE_OKAY, e')"
    by (auto simp: encode_rr_minfo_def enc_then_OKAY split: if_split_asm)
  note n1 = carries_domain [OF d(1) assms(2,4)]
  note n2 = carries_domain [OF d(2) assms(3) carriesD(1) [OF n1(1)]]
  have "carries e e' decode_rr_minfo (RD_MINFO a b) (length a + 1 + (length b + 1))" unfolding decode_rr_minfo_def [abs_def]
    by (rule carries_guard, rule carries_then [OF n1(1)], rule carries_last [OF n2(1)]) (use n1(2) n2(2) in auto)
  then show ?thesis by simp
qed

lemma carries_hinfo:
  assumes "encode_rr_hinfo a b e = Some (RCODE_OKAY, e')" and "NUL \<notin> set a" and "NUL \<notin> set b" and "segs_inv e"
  shows "carries e e' decode_rr_hinfo (RD_HINFO a b) (length a + length b + 2)"
proof -
  from assms(1) obtain e1 where d: "encode_string a e = Some (RCODE_OKAY, e1)" "encode_string b e1 = Some (RCODE_OKAY, e')"
    by (auto simp: encode_rr_hinfo_def enc_then_OKAY split: if_split_asm)
  note n1 = carries_string [OF d(1) assms(2,4)]
  note n2 = carries_string [OF d(2) assms(3) carriesD(1) [OF n1(1)]]
  have "carries e e' decode_rr_hinfo (RD_HINFO a b) (length a + 1 + (length b + 1))" unfolding decode_rr_hinfo_def [abs_def]
    by (rule carries_guard, rule carries_then [OF n1(1)], rule carries_last [OF n2(1)]) (use n1(2) n2(2) in auto)
  then show ?thesis by simp
qed

lemma carries_naptr:
  assumes "encode_rr_naptr cls na e = Some (RCODE_OKAY, e')" and "rdata_ok (RD_NAPTR na)" and "segs_inv e"
    and "len = length (e_out e') - length (e_out e)"
  shows "carries e e' (decode_rr_naptr len) (RD_NAPTR na) (rdata_cost (RD_NAPTR na))"
proof -
  let ?e = "emit (u16_bytes (na_preference na)) (emit (u16_bytes (na_order na)) e)"
  from assms(1) obtain e1 e2 e3 where d: "encode_string (na_flags na) ?e = Some (RCODE_OKAY, e1)"
      "encode_string (na_services na) e1 = Some (RCODE_OKAY, e2)" "encode_string (na_regexp na) e2 = Some (RCODE_OKAY, e3)"
      "encode_domain (na_replacement na) e3 = Some (RCODE_OKAY, e')"
    and r: "4 \<le> e_room e" and b: "na_order na < 65536" "na_preference na < 65536"
    by (auto simp: encode_rr_naptr_def bind_eq_Some_conv write_uint16_Some enc_then_OKAY split: if_split_asm)
  have ok: "NUL \<notin> set (na_flags na)" "NUL \<notin> set (na_services na)" "NUL \<notin> set (na_regexp na)" "domain_ok (na_replacement na)"
    using assms(2) by auto
  have i: "segs_inv ?e" by (intro segs_inv_emit assms(3)) (use r in auto)
  note n1 = carries_string [OF d(1) ok(1) i]
  note n2 = carries_string [OF d(2) ok(2) carriesD(1) [OF n1(1)]]
  note n3 = carries_string [OF d(3) ok(3) carriesD(1) [OF n2(1)]]
  note n4 = carries_domain [OF d(4) ok(4) carriesD(1) [OF n3(1)]]
  have l: "length (e_out e) < length (e_out e')" "\<not> len < 4" using n1(2) n2(2) n3(2) n4(2) by (simp_all add: assms(4))
  have "carries e e' (decode_rr_naptr len) (RD_NAPTR na) (length (na_flags na) + 1 + (length (na_services na) + 1
      + (length (na_regexp na) + 1 + (length (na_replacement na) + 1))))"
    unfolding decode_rr_naptr_def [abs_def]
    by (rule carries_guard, rule carries_if, rule carries_read16 [where v = "na_order na"], rule carries_read16 [where v = "na_preference na"],
        rule carries_then [OF n1(1)], rule carries_then [OF n2(1)], rule carries_then [OF n3(1)], rule carries_last [OF n4(1)])
       (use l b in auto)
  moreover have "length (na_flags na) + 1 + (length (na_services na) + 1 + (length (na_regexp na) + 1 + (length (na_replacement na) + 1)))
      = rdata_cost (RD_NAPTR na)" by simp
  ultimately show ?thesis by (simp only:)
qed

lemma carries_txt:
  assumes "encode_rr_txt tx e = Some (RCODE_OKAY, e')" and "segs_inv e" and "len = length (e_out e') - length (e_out e)"
  shows "carries e e' (decode_rr_txt len) (RD_TXT tx) (length tx + 1)"
proof -
  let ?ch = "chunk_bytes (length tx) tx"
  from assms(1) have t: "tx \<noteq> []" and "encode_chunks tx e = Some (RCODE_OKAY, e')" by (auto simp: encode_rr_txt_def split: if_split_asm)
  from encode_chunks_bytes [OF this(2), of "length tx"] have b: "e_out e' = e_out e @ ?ch" "e_room e' + length ?ch = e_room e"
    "e_segs e' = e_segs e" "e_edns e' = e_edns e" "e_rcode e' = e_rcode e" by auto
  then have e': "e' = emit ?ch e" and r: "length ?ch \<le> e_room e" by (auto simp: emit_def) 
  have ch: "0 < length ?ch" using t by (cases tx) (simp_all add: u8_bytes_def)
  have len: "len = length ?ch" by (simp add: assms(3) b)
  have "decode_rr_txt len d = Some (Inr (RD_TXT tx, moved (length (e_out e')) (length tx + 1) d))"
    if f: "follows e e' d" and m: "length tx + 1 < d_dest d" for d
  proof -
    have "d_ptr d + length ?ch \<le> d_size d" "d_left d = d_size d - d_ptr d" using f b(1) by (auto simp: follows_def)
    then have "0 < d_size d" "0 < d_left d" using ch by linarith+
    then have "dcontext_okay d" using m by (simp add: dcontext_okay_def)
    then show ?thesis
      using decode_strings_chunks [OF f, of "length tx" tx "[]"] m b(1) ch
      by (simp add: decode_rr_txt_def and_then_def len alloc_def moved_def)
  qed
  then show ?thesis using segs_inv_emit [OF assms(2) r] b e' by (auto simp: carries_def)
qed

text \<open>
  Every member of the union but the well-known services and raw data (whose place in the
  result memory depends on its alignment), the two kinds of location and the options.
\<close>

lemma rdata_kinds:
  "encode_rdata fpu t cls d e = Some (RCODE_OKAY, e') \<Longrightarrow>
   rr_kind t = (case d of RD_A _ \<Rightarrow> K_A | RD_SOA _ \<Rightarrow> K_SOA | RD_NAPTR _ \<Rightarrow> K_NAPTR | RD_AAAA _ \<Rightarrow> K_AAAA | RD_SRV _ _ _ _ \<Rightarrow> K_SRV
     | RD_WKS _ _ _ \<Rightarrow> K_WKS | RD_GPOS _ \<Rightarrow> K_GPOS | RD_LOC _ \<Rightarrow> K_LOC | RD_OPT _ \<Rightarrow> K_OPT | RD_MINFO _ _ \<Rightarrow> K_MINFO | RD_MX _ _ \<Rightarrow> K_MX
     | RD_HINFO _ _ \<Rightarrow> K_HINFO | RD_TXT _ \<Rightarrow> K_TXT | RD_NAME _ \<Rightarrow> K_NAME | RD_X _ \<Rightarrow> K_NULL)"
  by (auto simp: encode_rdata_def split: rr_member.split_asm rdata.split_asm)

lemma carries_rdata:
  assumes "encode_rdata fpu t cls d e = Some (RCODE_OKAY, e')" and "rdata_ok d" and "segs_inv e"
    and "len = length (e_out e') - length (e_out e)"
  shows "carries e e' (decode_rdata fpu t len payload fdo fug) d (rdata_cost d)"
proof -
  note k = rdata_kinds [OF assms(1)]
  note eqs = encode_rdata_def decode_rdata_def [abs_def]
  have 4: "len = 4" if "encode_rr_a adr e = Some (RCODE_OKAY, e')" "length adr = 4" for adr
    using that assms(4) by (auto simp: encode_rr_a_def emit_checked_OKAY split: if_split_asm)
  have 16: "len = 16" if "encode_rr_aaaa adr e = Some (RCODE_OKAY, e')" "length adr = 16" for adr
    using that assms(4) by (auto simp: encode_rr_aaaa_def emit_checked_OKAY split: if_split_asm)
  have nm: "carries e e' (\<lambda>c. and_then (read_domain c) (\<lambda>nm c1. Some (Inr (RD_NAME nm, c1)))) (RD_NAME nm) (length nm + 1)"
    if "encode_domain nm e = Some (RCODE_OKAY, e')" "domain_ok nm" for nm
    by (rule carries_last [OF carries_domain(1) [OF that assms(3)]]) simp
  show ?thesis
  proof (cases d)
    case (RD_A adr)
    with assms k 4 [of adr] carries_a [of adr e e'] show ?thesis by (simp add: eqs)
  next
    case (RD_AAAA adr)
    with assms k 16 [of adr] carries_aaaa [of adr e e'] show ?thesis by (simp add: eqs)
  next
    case (RD_SOA soa)
    with assms k carries_soa [of soa e e' len] show ?thesis by (simp add: eqs)
  next
    case (RD_NAPTR na)
    with assms k carries_naptr [of cls na e e' len] show ?thesis by (simp add: eqs)
  next
    case (RD_SRV prio weight port target)
    with assms k carries_srv [of prio weight port target e e' len] show ?thesis by (simp add: eqs)
  next
    case (RD_MINFO a b)
    with assms k carries_minfo [of a b e e'] show ?thesis by (simp add: eqs)
  next
    case (RD_MX pref x)
    with assms k carries_mx [of pref x e e' len] show ?thesis by (simp add: eqs)
  next
    case (RD_HINFO a b)
    with assms k carries_hinfo [of a b e e'] show ?thesis by (simp add: eqs)
  next
    case (RD_TXT tx)
    with assms k carries_txt [of tx e e' len] show ?thesis by (simp add: eqs)
  next
    case (RD_NAME s)
    with assms k nm [of s] show ?thesis by (simp add: eqs)
  qed (use assms(2) in simp_all)
qed

definition record_ok :: "dns_answer \<Rightarrow> bool" where
  "record_ok a \<longleftrightarrow> (\<exists>s. an_name a = Some s \<and> domain_ok s) \<and> an_type a < 65536 \<and> an_class a < 65536 \<and> an_ttl a < 2 ^ 32 \<and> rdata_ok (an_data a)"

definition record_cost :: "dns_answer \<Rightarrow> nat" where
  "record_cost a = name_cost (an_name a) + rdata_cost (an_data a)"

text \<open>With the length in place, the data is what the encoder would have written behind it.\<close>

lemma encode_answer_inverted:
  assumes "encode_answer fpu a e = Some (RCODE_OKAY, e')" and "an_name a = Some s" and "rdata_ok (an_data a)"
  obtains e1 e5 len where "encode_domain s e = Some (RCODE_OKAY, e1)" and "10 \<le> e_room e1"
    and "e5 = emit (u16_bytes len) (emit (u32_bytes (an_ttl a)) (emit (u16_bytes (an_class a)) (emit (u16_bytes (an_type a)) e1)))"
    and "encode_rdata fpu (an_type a) (an_class a) (an_data a) e5 = Some (RCODE_OKAY, e')"
    and "len = length (e_out e') - length (e_out e5)" and "an_type a \<noteq> RR_OPT"
proof -
  have t: "an_type a \<noteq> RR_OPT"
  proof
    assume "an_type a = RR_OPT"
    then have "rr_kind (an_type a) = K_OPT" by (simp add: rr_kind_def)
    moreover from assms(1,2) obtain cls c c' where "encode_rdata fpu (an_type a) cls (an_data a) c = Some (RCODE_OKAY, c')"
      by (auto simp: encode_answer_def enc_then_OKAY bind_eq_Some_conv split: if_split_asm prod.split_asm)
    ultimately show False using assms(3) by (cases "an_data a") (auto simp: encode_rdata_def)
  qed
  then have w: "wire_class_ttl r a = (an_class a, an_ttl a)" for r by (simp add: wire_class_ttl_def split: rdata.split)
  let ?e4 = "\<lambda>e1. emit (u32_bytes (an_ttl a)) (emit (u16_bytes (an_class a)) (emit (u16_bytes (an_type a)) e1))"
  from assms(1,2) obtain e1 c5 where d: "encode_domain s e = Some (RCODE_OKAY, e1)" and r: "10 \<le> e_room e1"
    and c5: "encode_rdata fpu (an_type a) (an_class a) (an_data a) (emit [NUL, NUL] (?e4 e1)) = Some (RCODE_OKAY, c5)"
    and e': "e' = patch_rdlen (length (e_out (?e4 e1))) c5"
    by (auto simp: encode_answer_def enc_then_OKAY w bind_eq_Some_conv write_uint16_Some write_uint32_Some add.commute split: if_split_asm)
  define pos where "pos = length (e_out (?e4 e1))"
  define out where "out = e_out (?e4 e1) @ u16_bytes (length (e_out c5) - (pos + 2))"
  note ap = appends_rdata [OF assms(3), of fpu "an_type a" "an_class a"]
  from appends_prefix [OF ap c5] obtain bs where bs: "e_out c5 = e_out (?e4 e1) @ [NUL, NUL] @ bs" by (auto simp: prefix_def)
  have "encode_rdata fpu (an_type a) (an_class a) (an_data a) (emit [NUL, NUL] (?e4 e1)\<lparr>e_out := out\<rparr>)
      = map_option (rebase out) (Some (RCODE_OKAY, c5))"
    unfolding c5 [symmetric] by (rule appends_rebase [OF ap]) (simp add: out_def)
  moreover have "emit [NUL, NUL] (?e4 e1)\<lparr>e_out := out\<rparr> = emit (u16_bytes (length (e_out c5) - (pos + 2))) (?e4 e1)"
    by (simp add: out_def emit_def)
  moreover have "rebase out (RCODE_OKAY, c5) = (RCODE_OKAY, e')"
    using bs by (simp add: rebase_def e' patch_rdlen_def out_def pos_def)
  moreover have "length (e_out e') = length (e_out c5)" using bs by (simp add: e' patch_rdlen_def)
  ultimately show thesis
    by (intro that [OF d r, of "emit (u16_bytes (length (e_out c5) - (pos + 2))) (?e4 e1)"]) (use t in \<open>simp_all add: pos_def add.commute\<close>)
qed

lemma carries_answer:
  assumes "encode_answer fpu a e = Some (RCODE_OKAY, e')" and "record_ok a" and "segs_inv e"
  shows "carries e e' (decode_answer fpu) a (record_cost a)"
proof -
  from assms(2) obtain s where s: "an_name a = Some s" "domain_ok s" and b: "an_type a < 65536" "an_class a < 65536" "an_ttl a < 2 ^ 32"
    and ok: "rdata_ok (an_data a)" by (auto simp: record_ok_def)
  obtain e1 e5 len where d: "encode_domain s e = Some (RCODE_OKAY, e1)" and r: "10 \<le> e_room e1"
    and e5: "e5 = emit (u16_bytes len) (emit (u32_bytes (an_ttl a)) (emit (u16_bytes (an_class a)) (emit (u16_bytes (an_type a)) e1)))"
    and x: "encode_rdata fpu (an_type a) (an_class a) (an_data a) e5 = Some (RCODE_OKAY, e')"
    and len: "len = length (e_out e') - length (e_out e5)" and t: "an_type a \<noteq> RR_OPT"
    using encode_answer_inverted [OF assms(1) s(1) ok] by metis
  note n = carries_domain [OF d s(2) assms(3)]
  have i5: "segs_inv e5" unfolding e5 by (intro segs_inv_emit carriesD(1) [OF n(1)]) (use r in auto)
  note x = carries_rdata [OF x ok i5 len, of 0 False 0]
  have p: "prefix (e_out e5) (e_out e')" by (rule carriesD(2) [OF x])
  have l5: "length (e_out e5) = length (e_out e1) + 10" "length (e_out e5) \<le> length (e_out e')"
    using prefix_length_le [OF p] by (simp_all add: e5)
  have ll: "len < 65536" using carriesD(1) [OF x] len unfolding segs_inv_def by linarith
  let ?res = "\<lambda>cls ttl d. \<lparr>an_name = Some s, an_type = an_type a, an_class = cls, an_ttl = ttl, an_data = d\<rparr>"
  let ?data = "\<lambda>len cls ttl payload fdo fug c4. if len > sub64 (d_size c4) (d_ptr c4) then Some (Inl RCODE_FORMAT_ERROR)
            else and_then (decode_rdata fpu (an_type a) len payload fdo fug c4) (\<lambda>d c5. Some (Inr (?res cls ttl d, c5)))"
  let ?rest = "\<lambda>(cls, ttl, payload, fdo, fug) c3. do { (len, c4) \<leftarrow> read_uint16 c3; ?data len cls ttl payload fdo fug c4 }"
  let ?e3 = "emit (u32_bytes (an_ttl a)) (emit (u16_bytes (an_class a)) (emit (u16_bytes (an_type a)) e1))"
  have "carries e5 e' (\<lambda>c. and_then (decode_rdata fpu (an_type a) len 0 False 0 c) (\<lambda>d c5. Some (Inr (?res (an_class a) (an_ttl a) d, c5)))) a (rdata_cost (an_data a))"
    by (rule carries_last [OF x]) (use s(1) in \<open>cases a, simp\<close>)
  then have 3: "carries e5 e' (?data len (an_class a) (an_ttl a) 0 False 0) a (rdata_cost (an_data a))"
    using l5(2) by (auto simp: carries_def follows_def sub64_def len)
  have f: "carries (emit (u16_bytes (an_type a)) e1) ?e3 (decode_fixed (an_type a)) (an_class a, an_ttl a, 0, False, 0) 0"
    unfolding decode_fixed_def [abs_def]
    by (rule carries_if [OF _ t], rule carries_read16 [where v = "an_class a"], rule carries_read32 [where v = "an_ttl a"], rule carries_stop)
       (use b r n in \<open>auto intro!: segs_inv_emit carriesD(1) [OF n(1)]\<close>)
  have 2: "carries (emit (u16_bytes (an_type a)) e1) e' (\<lambda>c. and_then (decode_fixed (an_type a) c) ?rest) a (0 + rdata_cost (an_data a))"
    by (rule carries_then [OF f], simp only: prod.case, rule carries_read16 [where v = len]) (use 3 e5 ll in simp_all)
  have "carries e e' (decode_answer fpu) a (length s + 1 + rdata_cost (an_data a))"
    unfolding decode_answer_def [abs_def]
    by (rule carries_guard, rule carries_then [OF n(1)], rule carries_room, rule carries_read16 [where v = "an_type a"])
       (use 2 n(2) l5 b in simp_all)
  then show ?thesis by (simp add: record_cost_def name_cost_def s(1))
qed

end
