(* ===== verification/Dns_Correct.thy ===== *)
theory Dns_Correct
  imports Dns_Records
begin

text \<open>
  The codec is its own inverse: questions, sections and the header, put together from the
  rules for names and records.
\<close>

section \<open>Questions\<close>

definition question_ok :: "dns_question \<Rightarrow> bool" where
  "question_ok q \<longleftrightarrow> (\<exists>s. qu_name q = Some s \<and> domain_ok s) \<and> qu_type q < 65536"

definition question_cost :: "dns_question \<Rightarrow> nat" where
  "question_cost q = name_cost (qu_name q)"

lemma carries_question:
  assumes "encode_question q e = Some (RCODE_OKAY, e')" and "question_ok q" and "segs_inv e"
  shows "carries e e' decode_question q (question_cost q)"
proof -
  from assms(2) obtain s where s: "qu_name q = Some s" "domain_ok s" by (auto simp: question_ok_def)
  from assms(1) s obtain e1 where d: "encode_domain s e = Some (RCODE_OKAY, e1)" and c: "qu_class q \<le> 4" "qu_type q \<noteq> RR_OPT"
    and e': "4 \<le> e_room e1" "e' = emit (u16_bytes (qu_class q)) (emit (u16_bytes (qu_type q)) e1)"
    by (auto simp: encode_question_def enc_then_OKAY bind_eq_Some_conv write_uint16_Some split: if_split_asm)
  note n = carries_domain [OF d s(2) assms(3)]
  have i: "segs_inv e'" unfolding e'(2) by (intro segs_inv_emit carriesD(1) [OF n(1)]) (use e'(1) in auto)
  have "carries e e' decode_question q (length s + 1 + 0)"
    unfolding decode_question_def [abs_def]
    by (rule carries_guard, rule carries_then [OF n(1)], rule carries_room, rule carries_read16 [where v = "qu_type q"],
        rule carries_read16 [where v = "qu_class q"], rule carries_if, rule carries_stop [OF i])
       (use assms(2) n(2) c s(1) in \<open>auto simp: question_ok_def e'(2)\<close>)
  then show ?thesis by (simp add: question_cost_def name_cost_def s(1))
qed

text \<open>
  The exchange of a domain that takes no mail is the root: the encoder writes such a record in
  three bytes of data, and the decoder rejects data of less than four.
\<close>

lemma root_exchange_rejected:
  assumes "3 \<le> e_room e" and "dcontext_okay d"
  shows "\<exists>e'. encode_rr_mx 0 ''.'' e = Some (RCODE_OKAY, e') \<and> length (e_out e') - length (e_out e) = 3
     \<and> decode_rr_mx 3 d = Some (Inl RCODE_FORMAT_ERROR)"
  using assms
  by (simp add: encode_rr_mx_def decode_rr_mx_def encode_domain_def encode_labels.simps [of "''.''"] econtext_okay_def write_uint16_def
      emit_checked_def emit_def)

section \<open>Sequences\<close>

text \<open>
  Both kinds of section are sequences of items of one codec: the encoder writes one item
  behind the other, the decoder reads as many as the header says.
\<close>

locale item_codec =
  fixes enc :: "'a \<Rightarrow> edns_context \<Rightarrow> enc_result" and encs :: "'a list \<Rightarrow> edns_context \<Rightarrow> enc_result"
    and dec :: "ddns_context \<Rightarrow> 'a dec_result" and decs :: "nat \<Rightarrow> ddns_context \<Rightarrow> 'a list dec_result"
    and ok :: "'a \<Rightarrow> bool" and cost :: "'a \<Rightarrow> nat"
  assumes encs_Nil: "encs [] c = Some (RCODE_OKAY, c)"
    and encs_Cons: "encs (x # xs) c = enc_then (enc x c) (encs xs)"
    and decs_0: "decs 0 d = Some (Inr ([], d))"
    and decs_Suc: "decs (Suc k) d = and_then (dec d) (\<lambda>x c. and_then (decs k c) (\<lambda>xs c'. Some (Inr (x # xs, c'))))"
    and item: "enc x e = Some (RCODE_OKAY, e') \<Longrightarrow> ok x \<Longrightarrow> segs_inv e \<Longrightarrow> carries e e' dec x (cost x)"
begin

lemma items:
  "encs xs e = Some (RCODE_OKAY, e') \<Longrightarrow> list_all ok xs \<Longrightarrow> segs_inv e \<Longrightarrow>
   carries e e' (decs (length xs)) xs (sum_list (map cost xs))"
proof (induction xs arbitrary: e)
  case Nil
  then show ?case by (simp add: encs_Nil decs_0 [abs_def] carries_return)
next
  case (Cons x xs)
  from Cons(2) obtain e1 where 1: "enc x e = Some (RCODE_OKAY, e1)" "encs xs e1 = Some (RCODE_OKAY, e')"
    by (auto simp: encs_Cons enc_then_OKAY)
  have a: "carries e e1 dec x (cost x)" using item [OF 1(1)] Cons(3,4) by simp
  have b: "carries e1 e' (decs (length xs)) xs (sum_list (map cost xs))" using Cons.IH [OF 1(2)] Cons(3) carriesD(1) [OF a] by simp
  have "decs (length (x # xs)) = (\<lambda>d. and_then (dec d) (\<lambda>x c. and_then (decs (length xs) c) (\<lambda>xs c'. Some (Inr (x # xs, c')))))"
    by (rule ext) (simp add: decs_Suc)
  then show ?case by (simp only: list.map sum_list.Cons) (rule carries_then [OF a], rule carries_last [OF b], simp)
qed

end

interpretation questions: item_codec encode_question encode_questions decode_question decode_questions question_ok question_cost
  by unfold_locales (simp_all add: carries_question)

interpretation records: item_codec "encode_answer fpu" "encode_answers fpu" "decode_answer fpu" "decode_answers fpu" record_ok record_cost
  for fpu
  by unfold_locales (simp_all add: carries_answer)

section \<open>Messages\<close>

subsection \<open>The header\<close>

lemma header_length [simp]: "length (header_bytes q) = 12"
  by (simp add: header_bytes_def)

lemma word_at_u16: "v < 65536 \<Longrightarrow> word_at (xs @ u16_bytes v @ ys) (length xs) = v"
  by (simp add: word_at_def u16_bytes_def nth_append)

lemma op_byte:
  assumes "p \<le> 5"
  shows "(p mod 16 * 8 + hdr_flag 128 (\<not> q) + hdr_flag 4 a + hdr_flag 2 t + hdr_flag 1 r) div 128 = 0 \<longleftrightarrow> q"
    "(p mod 16 * 8 + hdr_flag 128 (\<not> q) + hdr_flag 4 a + hdr_flag 2 t + hdr_flag 1 r) div 8 mod 16 = p"
    "odd ((p mod 16 * 8 + hdr_flag 128 (\<not> q) + hdr_flag 4 a + hdr_flag 2 t + hdr_flag 1 r) div 4) = a"
    "odd ((p mod 16 * 8 + hdr_flag 128 (\<not> q) + hdr_flag 4 a + hdr_flag 2 t + hdr_flag 1 r) div 2) = t"
    "odd (p mod 16 * 8 + hdr_flag 128 (\<not> q) + hdr_flag 4 a + hdr_flag 2 t + hdr_flag 1 r) = r"
    "p mod 16 * 8 + hdr_flag 128 (\<not> q) + hdr_flag 4 a + hdr_flag 2 t + hdr_flag 1 r < 256"
proof -
  have "p \<in> {0, 1, 2, 3, 4, 5}" using assms by auto
  then show "(p mod 16 * 8 + hdr_flag 128 (\<not> q) + hdr_flag 4 a + hdr_flag 2 t + hdr_flag 1 r) div 128 = 0 \<longleftrightarrow> q"
    "(p mod 16 * 8 + hdr_flag 128 (\<not> q) + hdr_flag 4 a + hdr_flag 2 t + hdr_flag 1 r) div 8 mod 16 = p"
    "odd ((p mod 16 * 8 + hdr_flag 128 (\<not> q) + hdr_flag 4 a + hdr_flag 2 t + hdr_flag 1 r) div 4) = a"
    "odd ((p mod 16 * 8 + hdr_flag 128 (\<not> q) + hdr_flag 4 a + hdr_flag 2 t + hdr_flag 1 r) div 2) = t"
    "odd (p mod 16 * 8 + hdr_flag 128 (\<not> q) + hdr_flag 4 a + hdr_flag 2 t + hdr_flag 1 r) = r"
    "p mod 16 * 8 + hdr_flag 128 (\<not> q) + hdr_flag 4 a + hdr_flag 2 t + hdr_flag 1 r < 256"
    by (cases q; cases a; cases t; cases r; auto simp: hdr_flag_def)+
qed

lemma rc_byte:
  assumes "p \<le> 15"
  shows "odd ((p mod 16 + hdr_flag 128 a + hdr_flag 64 z + hdr_flag 32 d + hdr_flag 16 c) div 128) = a"
    "odd ((p mod 16 + hdr_flag 128 a + hdr_flag 64 z + hdr_flag 32 d + hdr_flag 16 c) div 64) = z"
    "odd ((p mod 16 + hdr_flag 128 a + hdr_flag 64 z + hdr_flag 32 d + hdr_flag 16 c) div 32) = d"
    "odd ((p mod 16 + hdr_flag 128 a + hdr_flag 64 z + hdr_flag 32 d + hdr_flag 16 c) div 16) = c"
    "(p mod 16 + hdr_flag 128 a + hdr_flag 64 z + hdr_flag 32 d + hdr_flag 16 c) mod 16 = p"
    "p mod 16 + hdr_flag 128 a + hdr_flag 64 z + hdr_flag 32 d + hdr_flag 16 c < 256"
proof -
  define h where "h = hdr_flag 8 a + hdr_flag 4 z + hdr_flag 2 d + hdr_flag 1 c"
  have x: "p mod 16 + hdr_flag 128 a + hdr_flag 64 z + hdr_flag 32 d + hdr_flag 16 c = 16 * h + p" using assms by (simp add: h_def hdr_flag_def)
  have q: "(16 * h + p) div 16 = h" "(16 * h + p) mod 16 = p" using assms by simp_all
  have q': "(16 * h + p) div 128 = h div 8" "(16 * h + p) div 64 = h div 4" "(16 * h + p) div 32 = h div 2"
    using q(1) div_mult2_eq [of "16 * h + p" 16 8] div_mult2_eq [of "16 * h + p" 16 4] div_mult2_eq [of "16 * h + p" 16 2] by simp_all
  have o: "odd (h div 8) = a" "odd (h div 4) = z" "odd (h div 2) = d" "odd h = c" "h < 16"
    by (cases a; cases z; cases d; cases c; simp add: h_def hdr_flag_def)+
  show "odd ((p mod 16 + hdr_flag 128 a + hdr_flag 64 z + hdr_flag 32 d + hdr_flag 16 c) div 128) = a"
    "odd ((p mod 16 + hdr_flag 128 a + hdr_flag 64 z + hdr_flag 32 d + hdr_flag 16 c) div 64) = z"
    "odd ((p mod 16 + hdr_flag 128 a + hdr_flag 64 z + hdr_flag 32 d + hdr_flag 16 c) div 32) = d"
    "odd ((p mod 16 + hdr_flag 128 a + hdr_flag 64 z + hdr_flag 32 d + hdr_flag 16 c) div 16) = c"
    "(p mod 16 + hdr_flag 128 a + hdr_flag 64 z + hdr_flag 32 d + hdr_flag 16 c) mod 16 = p"
    "p mod 16 + hdr_flag 128 a + hdr_flag 64 z + hdr_flag 32 d + hdr_flag 16 c < 256"
    unfolding x q q' o using o(5) assms by simp_all
qed


text \<open>A message whose four sections survive the trip, and the result memory it needs.\<close>

definition message_ok :: "dns_query \<Rightarrow> bool" where
  "message_ok q \<longleftrightarrow> list_all question_ok (dq_questions q) \<and> list_all record_ok (dq_answers q)
     \<and> list_all record_ok (dq_nameservers q) \<and> list_all record_ok (dq_additional q)"

definition section_costs :: "dns_query \<Rightarrow> nat" where
  "section_costs q = sum_list (map question_cost (dq_questions q)) + sum_list (map record_cost (dq_answers q))
     + sum_list (map record_cost (dq_nameservers q)) + sum_list (map record_cost (dq_additional q))"

definition message_cost :: "dns_query \<Rightarrow> nat" where
  "message_cost q = SIZE_query + SIZE_question * length (dq_questions q)
     + SIZE_answer * (length (dq_answers q) + length (dq_nameservers q) + length (dq_additional q)) + section_costs q"

lemma alloc_struct_aligned: "n mod 8 = 0 \<Longrightarrow> sz mod 8 = 0 \<Longrightarrow> sz < n \<Longrightarrow> alloc_struct n sz = Some (True, n - sz) \<and> (n - sz) mod 8 = 0"
  by (auto simp: alloc_struct_def align_memory_def)

lemma alloc_arrays_aligned:
  assumes "n mod 8 = 0" and "16 * qd + 96 * (an + ns + ar) < n"
  shows "alloc_arrays qd an ns ar n = Some (True, n - (16 * qd + 96 * (an + ns + ar)))"
proof -
  note step = alloc_struct_aligned
  have 1: "alloc_struct n (qd * 16) = Some (True, n - qd * 16)" "(n - qd * 16) mod 8 = 0"
    using step [of n "qd * 16"] assms by (auto simp: mod_mult_right_eq)
  define n1 where "n1 = n - qd * 16"
  have 2: "alloc_struct n1 (an * 96) = Some (True, n1 - an * 96)" "(n1 - an * 96) mod 8 = 0"
    using step [of n1 "an * 96"] assms 1 by (auto simp: n1_def)
  define n2 where "n2 = n1 - an * 96"
  have 3: "alloc_struct n2 (ns * 96) = Some (True, n2 - ns * 96)" "(n2 - ns * 96) mod 8 = 0"
    using step [of n2 "ns * 96"] assms 2 by (auto simp: n1_def n2_def)
  define n3 where "n3 = n2 - ns * 96"
  have 4: "alloc_struct n3 (ar * 96) = Some (True, n3 - ar * 96)"
    using step [of n3 "ar * 96"] assms 3 by (auto simp: n1_def n2_def n3_def)
  have "alloc_arrays qd an ns ar n = Some (True, n3 - ar * 96)"
    using 1(1) 2(1) 3(1) 4 by (simp add: alloc_arrays_def n1_def [symmetric] n2_def [symmetric] n3_def [symmetric])
  then show ?thesis by (simp add: n1_def n2_def n3_def)
qed

lemma header_fields:
  assumes "query_okay q" and "mem = header_bytes q @ r"
  shows "word_at mem 0 = nat (dq_id q)" "word_at mem 4 = length (dq_questions q)" "word_at mem 6 = length (dq_answers q)"
    "word_at mem 8 = length (dq_nameservers q)" "word_at mem 10 = length (dq_additional q)"
    "octet (mem ! 2) = dq_opcode q mod 16 * 8 + hdr_flag 128 (\<not> dq_query q) + hdr_flag 4 (dq_aa q) + hdr_flag 2 (dq_tc q) + hdr_flag 1 (dq_rd q)"
    "octet (mem ! 3) = dq_rcode q mod 16 + hdr_flag 128 (dq_ra q) + hdr_flag 64 (dq_z q) + hdr_flag 32 (dq_ad q) + hdr_flag 16 (dq_cd q)"
proof -
  have b: "nat (dq_id q) < 65536" "length (dq_questions q) < 65536" "length (dq_answers q) < 65536"
    "length (dq_nameservers q) < 65536" "length (dq_additional q) < 65536" "dq_opcode q \<le> 5" "dq_rcode q \<le> 15"
    using assms(1) by (auto simp: query_okay_def)
  show "word_at mem 0 = nat (dq_id q)" "word_at mem 4 = length (dq_questions q)" "word_at mem 6 = length (dq_answers q)"
    "word_at mem 8 = length (dq_nameservers q)" "word_at mem 10 = length (dq_additional q)"
    using b by (simp_all add: word_at_def assms(2) header_bytes_def u16_bytes_def u8_bytes_def)
  show "octet (mem ! 2) = dq_opcode q mod 16 * 8 + hdr_flag 128 (\<not> dq_query q) + hdr_flag 4 (dq_aa q) + hdr_flag 2 (dq_tc q) + hdr_flag 1 (dq_rd q)"
    using op_byte(6) [OF b(6)] by (simp add: assms(2) header_bytes_def u16_bytes_def u8_bytes_def)
  show "octet (mem ! 3) = dq_rcode q mod 16 + hdr_flag 128 (dq_ra q) + hdr_flag 64 (dq_z q) + hdr_flag 32 (dq_ad q) + hdr_flag 16 (dq_cd q)"
    using rc_byte(6) [OF b(7)] by (simp add: assms(2) header_bytes_def u16_bytes_def u8_bytes_def)
qed

lemma sections_roundtrip:
  assumes "encode_sections fpu q e = Some (RCODE_OKAY, e')" and "message_ok q" and "segs_inv e"
    and "follows e e' d" and "\<not> d_edns d" and "section_costs q < d_dest d"
  shows "prefix (e_out e) (e_out e') \<and> (\<exists>c. decode_sections fpu (length (dq_questions q)) (length (dq_answers q))
       (length (dq_nameservers q)) (length (dq_additional q)) d
     = Some (Inr ((dq_questions q, dq_answers q, dq_nameservers q, dq_additional q), c)) \<and> d_rcode c = d_rcode d)"
proof -
  from assms(1) obtain e1 e2 e3 where e: "encode_questions (dq_questions q) e = Some (RCODE_OKAY, e1)"
    "encode_answers fpu (dq_answers q) e1 = Some (RCODE_OKAY, e2)" "encode_answers fpu (dq_nameservers q) e2 = Some (RCODE_OKAY, e3)"
    "encode_answers fpu (dq_additional q) e3 = Some (RCODE_OKAY, e')"
    by (auto simp: encode_sections_def enc_then_OKAY split: if_split_asm)
  have ok: "list_all question_ok (dq_questions q)" "list_all record_ok (dq_answers q)" "list_all record_ok (dq_nameservers q)"
    "list_all record_ok (dq_additional q)" using assms(2) by (auto simp: message_ok_def)
  note c1 = questions.items [OF e(1) ok(1) assms(3)]
  note c2 = records.items [OF e(2) ok(2) carriesD(1) [OF c1]]
  note c3 = records.items [OF e(3) ok(3) carriesD(1) [OF c2]]
  note c4 = records.items [OF e(4) ok(4) carriesD(1) [OF c3]]
  note p = carriesD(2) [OF c1] carriesD(2) [OF c2] carriesD(2) [OF c3] carriesD(2) [OF c4]
  have p2: "prefix (e_out e2) (e_out e')" "prefix (e_out e1) (e_out e')" using p by (auto intro: prefix_order.trans)
  let ?n = "\<lambda>xs. sum_list (map record_cost xs)"
  define n1 where "n1 = sum_list (map question_cost (dq_questions q))"
  have m: "n1 + ?n (dq_answers q) + ?n (dq_nameservers q) + ?n (dq_additional q) < d_dest d"
    using assms(6) by (simp add: section_costs_def n1_def)
  have f1: "follows e e1 d" by (rule follows_left [OF assms(4) p2(2)])
  have f2: "follows e1 e2 (moved (length (e_out e1)) n d)" for n by (rule follows_left [OF follows_right [OF assms(4)] p2(1)])
  have f3: "follows e2 e3 (moved (length (e_out e2)) n d)" for n by (rule follows_left [OF follows_right [OF assms(4)] p(4)])
  have f4: "follows e3 e' (moved (length (e_out e3)) n d)" for n by (rule follows_right [OF assms(4)])
  have r1: "decode_questions (length (dq_questions q)) d = Some (Inr (dq_questions q, moved (length (e_out e1)) n1 d))"
    using carriesD(5) [OF c1 f1] m by (simp add: n1_def)
  have r2: "decode_answers fpu (length (dq_answers q)) (moved (length (e_out e1)) n1 d)
      = Some (Inr (dq_answers q, moved (length (e_out e2)) (n1 + ?n (dq_answers q)) d))"
    using carriesD(5) [OF c2 f2] m by simp
  have r3: "decode_answers fpu (length (dq_nameservers q)) (moved (length (e_out e2)) (n1 + ?n (dq_answers q)) d)
      = Some (Inr (dq_nameservers q, moved (length (e_out e3)) (n1 + ?n (dq_answers q) + ?n (dq_nameservers q)) d))"
    using carriesD(5) [OF c3 f3] m by simp
  have r4: "decode_answers fpu (length (dq_additional q)) (moved (length (e_out e3)) (n1 + ?n (dq_answers q) + ?n (dq_nameservers q)) d)
      = Some (Inr (dq_additional q, moved (length (e_out e')) (n1 + ?n (dq_answers q) + ?n (dq_nameservers q) + ?n (dq_additional q)) d))"
    using carriesD(5) [OF c4 f4] m by simp
  have "prefix (e_out e) (e_out e')" using p(1) p2(2) by (rule prefix_order.trans)
  then show ?thesis using r1 r2 r3 r4 assms(5) by (auto simp: decode_sections_def and_then_def)
qed

lemma codec_inverse:
  assumes "dns_encode fpu plen q = Some (RCODE_OKAY, packet)" and "message_ok q" and "plen \<le> 16384"
    and "prsize mod 8 = 0" and "message_cost q < prsize"
  shows "dns_decode fpu prsize (packet @ behind) (length packet) = Some (Inr q)"
proof -
  let ?e = "\<lparr>e_out = header_bytes q, e_room = plen - HEADER_SIZE, e_segs = [], e_edns = False, e_rcode = dq_rcode q\<rparr>"
  from assms(1) obtain e' where ok: "query_okay q" "12 \<le> plen" and e: "encode_sections fpu q ?e = Some (RCODE_OKAY, e')"
    and p: "packet = e_out e'" by (auto simp: dns_encode_def dns_encode_written_def bind_eq_Some_conv split: if_split_asm)
  have inv: "segs_inv ?e" using assms(3) ok by (simp add: segs_inv_def)
  define n where "n = prsize - 88 - (16 * length (dq_questions q) + 96 * (length (dq_answers q) + length (dq_nameservers q) + length (dq_additional q)))"
  let ?d = "\<lparr>d_mem = packet @ behind, d_size = length packet, d_ptr = 12, d_left = length packet - 12, d_dest = n,
      d_edns = False, d_rcode = dq_rcode q\<rparr>"
  have f: "follows ?e e' ?d" by (simp add: follows_def p)
  have cost: "section_costs q < n" using assms(5) by (simp add: message_cost_def n_def)
  from sections_roundtrip [OF e assms(2) inv f] cost obtain c where pre: "prefix (header_bytes q) packet"
    and r: "decode_sections fpu (length (dq_questions q)) (length (dq_answers q)) (length (dq_nameservers q)) (length (dq_additional q)) ?d
     = Some (Inr ((dq_questions q, dq_answers q, dq_nameservers q, dq_additional q), c))" "d_rcode c = dq_rcode q" by (auto simp: p)
  from pre obtain w where w: "packet @ behind = header_bytes q @ w" by (auto simp: prefix_def)
  have len: "12 \<le> length packet" using pre prefix_length_le by fastforce
  note h = header_fields [OF ok(1) w]
  have b: "dq_opcode q \<le> 5" "dq_rcode q \<le> 15" "0 \<le> dq_id q" using ok by (auto simp: query_okay_def)
  have al: "alloc_struct prsize 88 = Some (True, prsize - 88)" "(prsize - 88) mod 8 = 0"
    using alloc_struct_aligned [of prsize 88] assms(4,5) by (simp_all add: message_cost_def)
  have ar: "alloc_arrays (length (dq_questions q)) (length (dq_answers q)) (length (dq_nameservers q)) (length (dq_additional q)) (prsize - 88) = Some (True, n)"
    unfolding n_def by (rule alloc_arrays_aligned [OF al(2)]) (use assms(5) in \<open>simp add: message_cost_def\<close>)
  have "dns_decode fpu prsize (packet @ behind) (length packet) = Some (Inr
      \<lparr>dq_id = int (nat (dq_id q)), dq_query = dq_query q, dq_opcode = dq_opcode q, dq_aa = dq_aa q, dq_tc = dq_tc q, dq_rd = dq_rd q,
       dq_ra = dq_ra q, dq_z = dq_z q, dq_ad = dq_ad q, dq_cd = dq_cd q, dq_rcode = dq_rcode q, dq_questions = dq_questions q,
       dq_answers = dq_answers q, dq_nameservers = dq_nameservers q, dq_additional = dq_additional q\<rparr>)"
    unfolding dns_decode_eq Let_def h op_byte [OF b(1)] rc_byte [OF b(2)]
    using assms(4,5) len al ar r by (simp add: message_cost_def)
  then show ?thesis using b(3) by (cases q) simp
qed

text \<open>
  (C6) The codec is its own inverse: a message of questions and resource records in all four
  sections, with any names made of non-empty labels or the root, and any data of addresses,
  names, texts, strings, start-of-authority, service, mail and naming records, written into a
  packet of at most 16384 bytes with shared suffixes replaced by pointers, is read back field
  by field from the packet, whatever lies behind it, when the result memory has the room
  computed by \<open>message_cost\<close>.
\<close>

theorem dns_roundtrip:
  assumes "dns_encode fpu plen q = Some (RCODE_OKAY, packet)" and "message_ok q" and "plen \<le> 16384"
    and "prsize mod 8 = 0" and "message_cost q < prsize"
  shows "dns_decode fpu prsize (packet @ behind) (length packet) = Some (Inr q)"
  using assms by (rule codec_inverse)

definition sample_message :: dns_query where
  "sample_message =
     \<lparr>dq_id = 1234, dq_query = False, dq_opcode = OP_QUERY, dq_aa = False, dq_tc = False, dq_rd = True, dq_ra = False,
      dq_z = False, dq_ad = False, dq_cd = False, dq_rcode = 0,
      dq_questions = [\<lparr>qu_name = Some ''bridge.hn.local.'', qu_type = RR_TXT, qu_class = CLASS_IN\<rparr>],
      dq_answers = [\<lparr>an_name = Some ''home.hn.local.'', an_type = RR_TXT, an_class = CLASS_IN, an_ttl = 0,
        an_data = RD_TXT ''PORT=80;''\<rparr>],
      dq_nameservers = [],
      dq_additional = [\<lparr>an_name = Some ''home.hn.local.'', an_type = RR_SRV, an_class = CLASS_IN, an_ttl = 120,
        an_data = RD_SRV 0 5 80 ''bridge.hn.local.''\<rparr>]\<rparr>"

definition sample_packet :: string where
  "sample_packet = snd (the (dns_encode fpu_zero 1024 sample_message))"

lemmas encode_eval =
  dns_encode_def dns_encode_written_def encode_sections_def encode_question_def encode_domain_def encode_labels.simps encode_answer_def econtext_okay_def
  emit_def emit_checked_def enc_then_def query_okay_def encode_segment_def Let_def encode_rdata_def encode_rr_txt_def encode_rr_srv_def
  encode_chunks.simps encode_string_def write_uint16_def write_uint32_def wire_class_ttl_def header_bytes_def hdr_flag_def
  pointer_bytes_def patch_rdlen_def u8_bytes_def

lemma rr_kinds [simp]: "rr_kind 16 = K_TXT" "rr_kind 33 = K_SRV"
  by (simp_all add: rr_kind_def)

lemma name_okI: "ls \<noteq> [] \<Longrightarrow> list_all label_ok ls \<Longrightarrow> name_ok (dotted ls)"
  by (auto simp: name_ok_def)

lemma sample_encodes: "dns_encode fpu_zero 1024 sample_message = Some (RCODE_OKAY, sample_packet)"
  unfolding sample_packet_def by (simp add: sample_message_def encode_eval)

lemma sample_ok: "message_ok sample_message"
proof -
  have "domain_ok ''bridge.hn.local.''" "domain_ok ''home.hn.local.''"
    using name_okI [of "[''bridge'', ''hn'', ''local'']"] name_okI [of "[''home'', ''hn'', ''local'']"]
    by (simp_all add: domain_ok_def label_ok_def dotted_def)
  then show ?thesis by (simp add: message_ok_def question_ok_def record_ok_def sample_message_def)
qed

lemma sample_cost: "message_cost sample_message < 4096"
  by (simp add: message_cost_def section_costs_def question_cost_def record_cost_def name_cost_def sample_message_def)

theorem dns_roundtrip_witness:
  "dns_encode fpu_zero 1024 sample_message = Some (RCODE_OKAY, sample_packet)
   \<and> dns_decode fpu_zero 4096 (sample_packet @ ''xyz'') (length sample_packet) = Some (Inr sample_message)"
  using sample_encodes dns_roundtrip [OF sample_encodes sample_ok _ _ sample_cost] by simp

end
