(* ===== verification/Dns_Bounds.thy ===== *)
theory Dns_Bounds
  imports Dns_Correct
begin

text \<open>
  Bounds of the codec: what the encoder writes stays inside the packet, and reading names ends
  on every packet, cyclic pointers included.
\<close>

section \<open>The encoder stays inside the packet\<close>

text \<open>
  Output and room left together stay the same, apart from \<open>k\<close> bytes that are written but not
  taken off the room.
\<close>

definition spends :: "nat \<Rightarrow> edns_context \<Rightarrow> enc_result \<Rightarrow> bool" where
  "spends k c r \<longleftrightarrow> (\<forall>rc c'. r = Some (rc, c') \<longrightarrow>
     length (e_out c) \<le> length (e_out c') \<and> length (e_out c') + e_room c' \<le> length (e_out c) + e_room c + k)"

lemma spends_triv [simp, intro]: "spends k c None" "spends k c (Some (rc, c))"
  by (simp_all add: spends_def)

lemma spends_emit [intro, simp]: "length bs \<le> e_room c \<Longrightarrow> spends k c (Some (rc, emit bs c))"
  by (simp add: spends_def emit_def)

lemma spends_emit_checked: "length bs = n \<Longrightarrow> spends k c (emit_checked n bs c)"
  by (simp add: emit_checked_def)

lemma spends_trans: "spends 0 c (Some (rc, c1)) \<Longrightarrow> spends k c1 r \<Longrightarrow> spends k c r"
  unfolding spends_def by fastforce

lemma spends_sum:
  assumes "spends j c m" and "\<And>c1. m = Some (RCODE_OKAY, c1) \<Longrightarrow> spends k c1 (f c1)"
  shows "spends (j + k) c (enc_then m f)"
proof (cases m)
  case (Some p)
  obtain rc c1 where p: "p = (rc, c1)" by force
  show ?thesis
  proof (cases "rc = RCODE_OKAY")
    case True
    with assms(2) [of c1] assms(1) show ?thesis by (fastforce simp: Some p enc_then_def spends_def)
  qed (use assms(1) in \<open>auto simp: Some p enc_then_def spends_def\<close>)
qed (simp add: enc_then_def)

lemma spends_then: "spends 0 c m \<Longrightarrow> (\<And>c1. m = Some (RCODE_OKAY, c1) \<Longrightarrow> spends k c1 (f c1)) \<Longrightarrow> spends k c (enc_then m f)"
  using spends_sum [of 0 c m k f] by simp

lemma spends_emit_then: "length bs \<le> e_room c \<Longrightarrow> spends k (emit bs c) r \<Longrightarrow> spends k c r"
  by (rule spends_trans [OF spends_emit [where rc = RCODE_OKAY and k = 0]])

lemma spends_write16: "(\<And>c1. write_uint16 v c = Some c1 \<Longrightarrow> spends k c1 (f c1)) \<Longrightarrow> spends k c (Option.bind (write_uint16 v c) f)"
  by (simp add: write_uint16_def spends_emit_then [of "u16_bytes v"])

lemma spends_write32: "(\<And>c1. write_uint32 v c = Some c1 \<Longrightarrow> spends k c1 (f c1)) \<Longrightarrow> spends k c (Option.bind (write_uint32 v c) f)"
  by (simp add: write_uint32_def spends_emit_then [of "u32_bytes v"])

lemma spends_labels: "spends k c (encode_labels nm c)"
proof (induction nm c rule: encode_labels.induct)
  case (1 nm c)
  have step: "spends k c (encode_labels rest (c'\<lparr>e_segs := s\<rparr>))"
    if "encode_segment nm c = Inr (rest, off, c')" and "spends k (c'\<lparr>e_segs := s\<rparr>) (encode_labels rest (c'\<lparr>e_segs := s\<rparr>))" for rest off c' s
  proof (rule spends_trans [OF _ that(2)])
    show "spends 0 c (Some (RCODE_OKAY, c'\<lparr>e_segs := s\<rparr>))"
      using that(1) by (auto simp: encode_segment_def Let_def spends_def emit_def split: if_split_asm)
  qed
  show ?case
    by (subst encode_labels.simps)
       (auto simp: pointer_bytes_def split: option.split sum.split intro!: spends_emit_checked step intro: 1)
qed

lemma spends_domain [simp]: "spends k c (encode_domain nm c)"
  by (simp add: encode_domain_def spends_labels)

lemma spends_string [simp]: "spends k c (encode_string s c)"
  by (simp add: encode_string_def spends_emit_checked)

lemma spends_fp [simp]: "spends k c (encode_fp fpu v c)"
  by (auto simp: encode_fp_def Let_def)

lemma spends_opts [simp]: "spends k c (encode_opts os c)"
proof (induction os arbitrary: c)
  case (Cons opt os)
  have "length (concat (map (\<lambda>x. [hex_digit (octet x div 16), hex_digit (octet x mod 16)]) d)) = 2 * length d" for d
    by (induction d) auto
  then show ?case
    by (auto intro!: spends_then Cons spends_emit_checked simp: encode_edns0rr_nsid_def encode_edns0rr_raw_def Let_def)
qed simp

lemma spends_chunks [simp]: "spends k c (encode_chunks s c)"
  by (induction s c rule: encode_chunks.induct) (subst encode_chunks.simps, auto intro!: spends_then)

text \<open>The addresses of the C unions have their fixed sizes.\<close>

fun address_ok :: "rdata \<Rightarrow> bool" where
  "address_ok (RD_A adr) = (length adr = 4)"
| "address_ok (RD_AAAA adr) = (length adr = 16)"
| "address_ok (RD_WKS adr protocol bits) = (length adr = 4)"
| "address_ok d = True"

lemma spends_wks: "length adr = 4 \<Longrightarrow> spends k c (encode_rr_wks adr protocol bits c)"
  by (auto simp: encode_rr_wks_def write_uint16_def spends_def emit_def bind_eq_Some_conv split: if_split_asm)

text \<open>A location record is the one that writes more than it takes off.\<close>

lemma spends_loc: "spends 4 c (encode_rr_loc loc c)"
  by (auto simp: encode_rr_loc_def write_uint32_def Let_def bind_eq_Some_conv spends_def emit_def split: if_split_asm)

fun untaken :: "rdata \<Rightarrow> nat" where
  "untaken (RD_LOC loc) = 4"
| "untaken d = 0"

lemma spends_opt [simp]: "spends k c (encode_rr_opt cls opt c)"
proof -
  have "spends k c (encode_opts opts (c\<lparr>e_edns := True\<rparr>))" for opts
    by (rule spends_trans [OF _ spends_opts]) (simp add: spends_def)
  then show ?thesis by (simp add: encode_rr_opt_def)
qed

lemma spends_rdata:
  assumes "address_ok d"
  shows "spends (untaken d) c (encode_rdata fpu t cls d c)"
  using assms
  by (cases d; cases "rr_kind t")
     (auto simp: encode_rdata_def encode_rr_a_def encode_rr_aaaa_def encode_rr_soa_def encode_rr_naptr_def encode_rr_srv_def
        encode_rr_gpos_def encode_rr_minfo_def encode_rr_mx_def encode_rr_hinfo_def encode_rr_txt_def encode_rr_x_def Let_def
        intro!: spends_then spends_emit_checked spends_wks spends_loc spends_write16 spends_write32)

lemma spends_question [simp]: "spends k c (encode_question q c)"
  by (auto simp: encode_question_def split: option.split intro!: spends_then spends_write16)

text \<open>The length field is written twice, first as zero and then behind the data.\<close>

lemma spends_patch:
  assumes "spends k (emit [NUL, NUL] c) r" and "2 \<le> e_room c"
  shows "spends k c (enc_then r (\<lambda>c'. Some (RCODE_OKAY, patch_rdlen (length (e_out c)) c')))"
proof (cases r)
  case (Some p)
  obtain rc c' where p: "p = (rc, c')" by force
  have s: "length (e_out c) + 2 \<le> length (e_out c')" "length (e_out c') + e_room c' \<le> length (e_out c) + e_room c + k"
    using assms unfolding Some p spends_def by (auto simp: emit_def)
  then have "length (e_out (patch_rdlen (length (e_out c)) c')) = length (e_out c')" by (simp add: patch_rdlen_def)
  moreover have "e_room (patch_rdlen (length (e_out c)) c') = e_room c'" by (simp add: patch_rdlen_def)
  ultimately show ?thesis using s by (simp add: Some p enc_then_def spends_def)
qed (simp add: enc_then_def)

lemma spends_answer:
  assumes "address_ok (an_data a)"
  shows "spends (untaken (an_data a)) c (encode_answer fpu a c)"
proof (cases "an_name a")
  case (Some nm)
  show ?thesis
    unfolding encode_answer_def Some option.case
    by (rule spends_then [OF spends_domain])
       (simp add: case_prod_beta, intro impI spends_write16 spends_write32 spends_patch spends_rdata assms,
        simp add: write_uint16_Some write_uint32_Some emit_def)
qed (simp add: encode_answer_def)

lemma spends_questions [simp]: "spends k c (encode_questions qs c)"
  by (induction qs arbitrary: c) (auto intro: spends_then)

lemma spends_answers:
  "list_all (\<lambda>a. address_ok (an_data a)) as \<Longrightarrow> spends (\<Sum>a\<leftarrow>as. untaken (an_data a)) c (encode_answers fpu as c)"
  by (induction as arbitrary: c) (auto intro!: spends_sum spends_answer)

definition addresses_ok :: "dns_query \<Rightarrow> bool" where
  "addresses_ok q \<longleftrightarrow> list_all (\<lambda>a. address_ok (an_data a)) (dq_answers q @ dq_nameservers q @ dq_additional q)"

text \<open>The location records of a message, each with its four bytes.\<close>

definition loc_excess :: "dns_query \<Rightarrow> nat" where
  "loc_excess q = (\<Sum>a\<leftarrow>dq_answers q @ dq_nameservers q @ dq_additional q. untaken (an_data a))"

lemma spends_sections:
  assumes "addresses_ok q"
  shows "spends (loc_excess q) c (encode_sections fpu q c)"
proof -
  let ?k = "\<lambda>as. \<Sum>a\<leftarrow>as. untaken (an_data a)"
  have ok: "list_all (\<lambda>a. address_ok (an_data a)) (dq_answers q)" "list_all (\<lambda>a. address_ok (an_data a)) (dq_nameservers q)"
    "list_all (\<lambda>a. address_ok (an_data a)) (dq_additional q)" using assms by (simp_all add: addresses_ok_def)
  have "spends (?k (dq_additional q)) c3 (if e_edns c3 then Some (RCODE_FORMAT_ERROR, c3) else encode_answers fpu (dq_additional q) c3)" for c3
    using spends_answers [OF ok(3)] by simp
  then have "spends (0 + (?k (dq_answers q) + (?k (dq_nameservers q) + ?k (dq_additional q)))) c (encode_sections fpu q c)"
    unfolding encode_sections_def by (intro spends_sum spends_questions spends_answers ok)
  then show ?thesis by (simp add: loc_excess_def add.assoc)
qed

lemma written_fits:
  assumes "addresses_ok q" and "dns_encode_written fpu plen q = Some (rc, bs)"
  shows "12 \<le> length bs \<and> length bs \<le> plen + loc_excess q"
proof -
  let ?e = "\<lparr>e_out = header_bytes q, e_room = plen - HEADER_SIZE, e_segs = [], e_edns = False, e_rcode = dq_rcode q\<rparr>"
  from assms(2) obtain c where "encode_sections fpu q ?e = Some (rc, c)" "12 \<le> plen" "bs = e_out c"
    by (auto simp: dns_encode_written_def bind_eq_Some_conv split: if_split_asm)
  with spends_sections [OF assms(1), of ?e fpu] show ?thesis by (fastforce simp: spends_def)
qed

lemma written_encodes:
  assumes "addresses_ok q" and "loc_excess q = 0" and "dns_encode_written fpu plen q = Some (RCODE_OKAY, bs)"
  shows "dns_encode fpu plen q = Some (RCODE_OKAY, bs)"
  using written_fits [OF assms(1,3)] assms(2,3) by (simp add: dns_encode_def)

lemma encode_fits:
  assumes "addresses_ok q" and "dns_encode fpu plen q = Some (rc, packet)"
  shows "12 \<le> length packet \<and> length packet \<le> plen \<and> (rc \<noteq> RCODE_OKAY \<longrightarrow> length packet = plen)"
proof -
  from assms(2) obtain bs where w: "dns_encode_written fpu plen q = Some (rc, bs)" "length bs \<le> plen"
    and p: "packet = (if rc = RCODE_OKAY then bs else bs @ replicate (plen - length bs) NUL)"
    by (force simp: dns_encode_def bind_eq_Some_conv split: if_split_asm)
  with written_fits [OF assms(1) w(1)] show ?thesis by auto
qed


text \<open>
  The bound is reached: a location record of the root that ends where the packet does, followed
  by a record with a name of four bytes, is written four bytes behind the packet.
\<close>

definition loc_message :: dns_query where
  "loc_message = sample_message\<lparr>dq_questions := [], dq_additional := [], dq_answers :=
     [\<lparr>an_name = Some ''.'', an_type = RR_LOC, an_class = CLASS_IN, an_ttl = 0, an_data = RD_LOC
        \<lparr>loc_version = 0, loc_size = 100, loc_horiz_pre = 100, loc_vert_pre = 100,
         loc_latitude = \<lparr>ang_deg = 1, ang_min = 0, ang_sec = 0, ang_frac = 0, ang_nw = True\<rparr>,
         loc_longitude = \<lparr>ang_deg = 1, ang_min = 0, ang_sec = 0, ang_frac = 0, ang_nw = True\<rparr>, loc_altitude = 0\<rparr>\<rparr>,
      \<lparr>an_name = Some ''ab.'', an_type = RR_A, an_class = CLASS_IN, an_ttl = 0, an_data = RD_A ''abcd''\<rparr>]\<rparr>"


lemma loc_kinds: "rr_kind 29 = K_LOC" "rr_kind (Suc 0) = K_A"
  by (simp_all add: rr_kind_def)

lemma loc_scale: "eloc_scale 100 x = Some 18"
proof -
  have "decimal_exp 100 = 2" by (simp add: decimal_exp.simps [of 100] decimal_exp.simps [of 10] decimal_exp.simps [of "Suc 0"])
  then show ?thesis by (simp add: eloc_scale_def)
qed

lemma loc_record_overruns:
  "map_option (\<lambda>(rc, bs). (rc, length bs)) (dns_encode_written fpu_zero 39 loc_message) = Some (RCODE_NO_MEMORY, 39 + loc_excess loc_message)"
  "dns_encode fpu_zero 39 loc_message = None"
proof -
  show "map_option (\<lambda>(rc, bs). (rc, length bs)) (dns_encode_written fpu_zero 39 loc_message) = Some (RCODE_NO_MEMORY, 39 + loc_excess loc_message)"
    by (simp add: loc_message_def sample_message_def loc_excess_def encode_eval encode_rr_loc_def encode_rr_a_def loc_kinds
        loc_scale angle_okay_def loc_angle_def)
  then show "dns_encode fpu_zero 39 loc_message = None"
    by (auto simp: dns_encode_def loc_excess_def loc_message_def)
qed

section \<open>Pointer cycles\<close>

definition pointer_at :: "string \<Rightarrow> nat \<Rightarrow> nat \<Rightarrow> bool" where
  "pointer_at mem p off \<longleftrightarrow> p + 1 < length mem \<and> 192 \<le> octet (mem ! p)
     \<and> off = (octet (mem ! p) * 256 + octet (mem ! (p + 1))) mod 16384"

text \<open>Where reading a name goes on: behind a label that is not empty, or at the target of a pointer.\<close>

definition goes_on :: "string \<Rightarrow> nat \<Rightarrow> nat \<Rightarrow> bool" where
  "goes_on mem p q \<longleftrightarrow> pointer_at mem p q
     \<or> p < length mem \<and> 0 < octet (mem ! p) \<and> octet (mem ! p) < 64 \<and> q = p + octet (mem ! p) + 1"

lemma goes_on_inside: "goes_on mem p q \<Longrightarrow> p < length mem \<and> mem ! p \<noteq> NUL"
  by (auto simp: goes_on_def pointer_at_def of_char_of_zero octet_def)

text \<open>
  When every part of a name leads to another one, the name does not end.  The labels cost as
  many bytes of result memory as of the packet, and it is read again at most 255 times.
\<close>

lemma read_labels_cycle:
  assumes "\<forall>p\<in>P. \<exists>q\<in>P. goes_on mem p q" and "p \<in> P" and "loop \<le> 255"
  shows "read_labels mem psize p n main loop dest = Some (Name_rc RCODE_FORMAT_ERROR)
    \<or> read_labels mem psize p n main loop dest = Some (Name_rc RCODE_NO_MEMORY) \<and> dest < n + (255 - loop) * psize"
  using assms
proof (induction mem psize p n main loop dest rule: read_labels.induct)
  case (1 mem psize p n main loop dest)
  let ?goal = "\<lambda>r n dest loop. r = Some (Name_rc RCODE_FORMAT_ERROR)
    \<or> r = Some (Name_rc RCODE_NO_MEMORY) \<and> dest < n + (255 - loop) * psize"
  obtain q where q: "q \<in> P" "goes_on mem p q" using bspec [OF "1.prems"(1,2)] by blast
  obtain r where "goes_on mem q r" using bspec [OF "1.prems"(1) q(1)] by blast
  then have inq: "q < length mem" "mem ! q \<noteq> NUL" by (simp_all add: goes_on_inside)
  show ?case
  proof (cases "octet (mem ! p) < 64")
    case True
    let ?b = "octet (mem ! p)"
    from q(2) True have b: "p < length mem" "0 < ?b" "q = p + ?b + 1" by (auto simp: goes_on_def pointer_at_def)
    then obtain l where l: "bytes_at mem (p + 1) ?b = Some l" using inq(1) by (simp add: bytes_at_def)
    show ?thesis
    proof (cases "n < ?b + 1 \<or> dest < ?b + 1")
      case True
      with \<open>?b < 64\<close> b show ?thesis by (subst (1 2) read_labels.simps) (auto simp: Let_def)
    next
      case False
      with True b l inq have "read_labels mem psize p n main loop dest
          = prepend_label l (read_labels mem psize q (n - (?b + 1)) main loop (dest - (?b + 1)))"
        by (subst read_labels.simps) (simp add: Let_def)
      moreover have "?goal (read_labels mem psize q (n - (?b + 1)) main loop (dest - (?b + 1))) (n - (?b + 1)) (dest - (?b + 1)) loop"
        using "1.IH"(1) [OF _ refl True _ _ l refl refl refl] "1.prems"(1) False b inq q(1) "1.prems"(3) by simp
      ultimately show ?thesis using False by (auto simp: prepend_label_def)
    qed
  next
    case False
    with q(2) have at: "p + 1 < length mem" "192 \<le> octet (mem ! p)" "q = (octet (mem ! p) * 256 + octet (mem ! (p + 1))) mod 16384"
      by (auto simp: goes_on_def pointer_at_def)
    show ?thesis
    proof (cases "256 \<le> loop + 1 \<or> n < 2 \<or> psize \<le> q")
      case True
      with at show ?thesis by (subst (1 2) read_labels.simps) (auto simp: Let_def)
    next
      case False
      let ?m = "case main of None \<Rightarrow> Some (p + 2, n - 2) | Some m \<Rightarrow> Some m"
      from False at inq have eq: "read_labels mem psize p n main loop dest = read_labels mem psize q (psize - q) ?m (loop + 1) dest"
        by (subst read_labels.simps) (simp add: Let_def)
      have "?goal (read_labels mem psize q (psize - q) ?m (loop + 1) dest) (psize - q) dest (loop + 1)"
        using "1.IH"(2) [OF _ refl _ at(2) _ _ _ at(3) _ _ refl] "1.prems"(1) False at inq q(1) by simp
      moreover have "psize - q + (255 - (loop + 1)) * psize \<le> n + (255 - loop) * psize"
      proof -
        from False have "255 - loop = Suc (255 - (loop + 1))" by linarith
        then show ?thesis by simp
      qed
      ultimately show ?thesis unfolding eq by auto
    qed
  qed
qed

text \<open>
  (C16) Reading a name ends: when its labels and compression pointers form a cycle, so that no
  part of it is the last, the decoder reports a format error instead of going round for ever,
  or that the result memory is used up, which it does only when that memory is smaller than
  255 times the packet and what is left of it.
\<close>

theorem pointer_cycle_rejected:
  assumes "dcontext_okay c" and "\<forall>p\<in>P. \<exists>q\<in>P. goes_on (d_mem c) p q" and "d_ptr c \<in> P"
  shows "read_domain c = Some (Inl RCODE_FORMAT_ERROR)
    \<or> read_domain c = Some (Inl RCODE_NO_MEMORY) \<and> d_dest c < d_left c + 255 * d_size c"
  using read_labels_cycle [OF assms(2,3), of 0 "d_size c" "d_left c" None "d_dest c"] assms(1) by (auto simp: read_domain_def)

text \<open>A label followed by a pointer back to it, with memory enough and with too little.\<close>

definition cyclic_name :: "nat \<Rightarrow> ddns_context" where
  "cyclic_name dest = \<lparr>d_mem = ''qqqqqqqqqqqq'' @ [char_of (1 :: nat), CHR ''a'', char_of (192 :: nat), char_of (12 :: nat)],
     d_size = 16, d_ptr = 12, d_left = 4, d_dest = dest, d_edns = False, d_rcode = 0\<rparr>"

theorem pointer_cycle_rejected_witness: "read_domain (cyclic_name 5000) = Some (Inl RCODE_FORMAT_ERROR)"
proof -
  have "\<forall>p\<in>{12, 14}. \<exists>q\<in>{12, 14}. goes_on (d_mem (cyclic_name 5000)) p q"
    by (simp add: cyclic_name_def goes_on_def pointer_at_def octet_def)
  from pointer_cycle_rejected [OF _ this] show ?thesis by (simp add: cyclic_name_def dcontext_okay_def)
qed

end
