(* ===== verification/Mdns_Correct.thy ===== *)
theory Mdns_Correct
  imports Protocol_Correct Mdns Dns_Bounds
begin

text \<open>
  Discovery of bridges over multicast DNS: packets that stop a bridge, messages the encoder
  accepts, and the exchange of query and announcement between two bridges.
\<close>

section \<open>Packets that abort the bridge\<close>

lemma word_at_append: "i + 1 < length d \<Longrightarrow> word_at (d @ z) i = word_at d i"
  by (simp add: word_at_def nth_append)

lemma udp_read_first: "udp_in st = (d, ip) # ds \<Longrightarrow> d \<noteq> [] \<Longrightarrow> length d \<le> DNS_BUFF \<Longrightarrow>
    udp_read DNS_BUFF st = (Some (d, ip), st\<lparr>udp_in := ds\<rparr>)"
  by (simp add: udp_read_def)

text \<open>
  (C40) A datagram that is only a header announcing a question stops the bridge: the decoder
  asserts that bytes are left before it looks at the first question.
\<close>

theorem mdns_header_only_aborts:
  assumes "bridge (conf st) = Some b" and "udp_in st = (d, ip) # ds" and "length d = 12"
    and "1 \<le> word_at d 4" and "word_at d 4 \<le> 250" and "word_at d 6 = 0" and "word_at d 8 = 0" and "word_at d 10 = 0"
  shows "handleMdnsRead os st = None"
proof -
  let ?m = "d @ replicate (DNS_BUFF - length d) NUL"
  have u: "udp_read DNS_BUFF st = (Some (d, ip), st\<lparr>udp_in := ds\<rparr>)"
    using assms(2,3) by (intro udp_read_first) (auto simp: DNS_BUFF_def)
  have w: "word_at ?m 4 = word_at d 4" "word_at ?m 6 = 0" "word_at ?m 8 = 0" "word_at ?m 10 = 0"
    using assms(3,6-8) by (simp_all add: word_at_append)
  obtain k where k: "word_at d 4 = Suc k" using assms(4) by (cases "word_at d 4") auto
  have ar: "alloc_arrays (Suc k) 0 0 0 (4096 - 88) = Some (True, 4096 - 88 - (16 * Suc k + 96 * (0 + 0 + 0)))"
    by (rule alloc_arrays_aligned) (use assms(5) k in auto)
  have al: "alloc_struct 4096 88 = Some (True, 4096 - 88)" using alloc_struct_aligned [of 4096 88] by simp
  have "dns_decode (os_fpu os) DNS_DECODEBUF_4K ?m (length d) = None"
    unfolding dns_decode_eq w k Let_def using assms(3) al ar
    by (simp add: decode_sections_def decode_question_def dcontext_okay_def and_then_def)
  then show ?thesis using assms(1) u by (simp add: handleMdnsRead_def)
qed

text \<open>
  A question with a class outside 1 to 4, for example one that asks for a unicast answer (class
  0x8001), stops a bridge that answers it: the question goes into the answer, and the encoder
  asserts its class.
\<close>

lemma unicast_question_aborts:
  assumes "dq_questions q = qu # qus" and "qu_class qu > 4" and "bridge (conf st) = Some b" and "qu_name qu = Some nm"
    and "qu_type qu = RR_TXT" and "strip_dot os nm = Some (ctx_name (br_context b))"
  shows "answer_questions os q (dq_questions q) st = None"
  using assms by (simp add: advertise_def dns_encode_def dns_encode_written_def encode_sections_def encode_question_def enc_then_def DNS_BUFF_def Let_def)

section \<open>Messages that can be encoded\<close>

lemma labels_succeed:
  assumes "list_all (\<lambda>l. label_ok l \<and> length l < 64) ls" and "length (e_segs c) + length ls \<le> 100"
    and "length (dotted ls) + 1 \<le> e_room c"
  shows "\<exists>c'. encode_labels (dotted ls) c = Some (RCODE_OKAY, c') \<and> e_room c \<le> e_room c' + length (dotted ls) + 1
     \<and> length (e_segs c') \<le> length (e_segs c) + length ls \<and> e_edns c' = e_edns c"
  using assms
proof (induction ls arbitrary: c)
  case Nil
  then show ?case by (simp add: encode_labels.simps emit_checked_def)
next
  case (Cons l ls)
  have l: "label_ok l" "length l < 64" "l \<noteq> []" using Cons.prems by (auto simp: label_ok_def)
  then have h: "dotted (l # ls) \<noteq> []" "hd (dotted (l # ls)) \<noteq> CHR ''.''"
    by (auto simp: dotted_Cons label_ok_def neq_Nil_conv)
  show ?case
  proof (cases "segment_find (dotted (l # ls)) (e_segs c)")
    case (Some off)
    moreover have "2 \<le> length (dotted (l # ls))" using l(3) by (cases l) (simp_all add: dotted_Cons)
    ultimately show ?thesis using h Cons.prems(3)
      by (subst encode_labels.simps) (simp add: emit_checked_def pointer_bytes_def)
  next
    case None
    define c1 where "c1 = (emit (u8_bytes (length l) @ l) c)\<lparr>e_segs := e_segs c @ [(dotted (l # ls), length (e_out c))]\<rparr>"
    have c1: "e_room c1 = e_room c - (length l + 1)" "length (e_segs c1) = length (e_segs c) + 1" "e_edns c1 = e_edns c" by (simp_all add: c1_def)
    have "encode_labels (dotted (l # ls)) c = encode_labels (dotted ls) c1"
      using None h Cons.prems l
      by (subst encode_labels.simps) (simp add: c1_def dotted_Cons encode_segment_label)
    moreover have "\<exists>c'. encode_labels (dotted ls) c1 = Some (RCODE_OKAY, c') \<and> e_room c1 \<le> e_room c' + length (dotted ls) + 1
       \<and> length (e_segs c') \<le> length (e_segs c1) + length ls \<and> e_edns c' = e_edns c1"
      by (rule Cons.IH) (use Cons.prems in \<open>auto simp: c1 dotted_Cons\<close>)
    ultimately show ?thesis using c1 by (auto simp: dotted_Cons)
  qed
qed

text \<open>Names that fit: at most so many labels and characters.\<close>

definition name_fits :: "nat \<Rightarrow> string \<Rightarrow> bool" where
  "name_fits n s \<longleftrightarrow> (\<exists>ls. ls \<noteq> [] \<and> s = dotted ls \<and> list_all (\<lambda>l. label_ok l \<and> length l < 64) ls \<and> length ls \<le> n)"

lemma name_fits_ok: "name_fits n s \<Longrightarrow> name_ok s"
  unfolding name_fits_def name_ok_def by (auto simp: list_all_iff)

lemma domain_succeeds:
  assumes "name_fits n s" and "length (e_segs c) + n \<le> 100" and "length s + 1 \<le> e_room c"
  shows "\<exists>c'. encode_domain s c = Some (RCODE_OKAY, c') \<and> e_room c \<le> e_room c' + length s + 1 \<and> length (e_segs c') \<le> length (e_segs c) + n
    \<and> e_edns c' = e_edns c"
proof -
  from assms(1) obtain ls where s: "s = dotted ls" "list_all (\<lambda>l. label_ok l \<and> length l < 64) ls" "length ls \<le> n"
    by (auto simp: name_fits_def)
  with labels_succeed [of ls c] assms(2,3) show ?thesis by (auto simp: encode_domain_def econtext_okay_def)
qed

lemma question_succeeds:
  assumes "qu_name q = Some s" and "name_fits n s" and "qu_type q \<noteq> RR_OPT" and "1 \<le> qu_class q" and "qu_class q \<le> 4"
    and "length (e_segs c) + n \<le> 100" and "length s + 5 \<le> e_room c"
  shows "\<exists>c'. encode_question q c = Some (RCODE_OKAY, c') \<and> e_room c \<le> e_room c' + length s + 5 \<and> length (e_segs c') \<le> length (e_segs c) + n
    \<and> e_edns c' = e_edns c"
proof -
  from domain_succeeds [OF assms(2,6)] assms(7) obtain c1 where "encode_domain s c = Some (RCODE_OKAY, c1)"
    "e_room c \<le> e_room c1 + length s + 1" "length (e_segs c1) \<le> length (e_segs c) + n" "e_edns c1 = e_edns c" by auto
  then show ?thesis using assms
    by (simp add: encode_question_def enc_then_def econtext_okay_def write_uint16_def)
qed

lemma text_succeeds:
  assumes "an_name a = Some s" and "an_type a = RR_TXT" and "an_data a = RD_TXT t" and "name_fits n s" and "t \<noteq> []" and "length t \<le> 255"
    and "length (e_segs c) + n \<le> 100" and "length s + length t + 12 \<le> e_room c"
  shows "\<exists>c'. encode_answer fpu a c = Some (RCODE_OKAY, c') \<and> e_edns c' = e_edns c"
proof -
  from domain_succeeds [OF assms(4,7)] assms(8) obtain c1 where "encode_domain s c = Some (RCODE_OKAY, c1)"
    "e_room c \<le> e_room c1 + length s + 1" "e_edns c1 = e_edns c" by auto
  moreover have "encode_chunks t c2 = Some (RCODE_OKAY, emit (u8_bytes (length t) @ t) c2)" if "length t + 1 \<le> e_room c2" for c2
    using assms(5,6) that
    by (simp add: encode_chunks.simps [of t] encode_chunks.simps [of "[]"] encode_string_def econtext_okay_def enc_then_def emit_checked_def)
  ultimately show ?thesis using assms
    by (cases t) (auto simp: encode_answer_def enc_then_def write_uint16_def write_uint32_def wire_class_ttl_def encode_rdata_def
        encode_rr_txt_def econtext_okay_def patch_rdlen_def)
qed

section \<open>Discovery\<close>

text \<open>The answer a bridge gives to the question of another bridge.\<close>

definition announcement :: "string \<Rightarrow> int \<Rightarrow> dns_query" where
  "announcement nm port = (txt_query ''bridge.hn.local'')\<lparr>dq_answers := [bridge_answer nm port], dq_query := False\<rparr>"

lemma bridge_query_name: "name_fits 3 ''bridge.hn.local.''"
  unfolding name_fits_def
  by (rule exI [of _ "[''bridge'', ''hn'', ''local'']"]) (simp add: dotted_def label_ok_def)

lemma port_text: "0 \<le> port \<Longrightarrow> port \<le> 65535 \<Longrightarrow> length (int_toString port) \<le> 5"
  using show_nat_short [of "nat port" 4] by (simp add: int_toString_def)

lemma announcement_encodes:
  assumes "name_fits 90 (nm @ ''.'')" and "length nm < 100" and "0 \<le> port" and "port \<le> 65535"
  shows "\<exists>packet. dns_encode fpu DNS_BUFF (announcement nm port) = Some (RCODE_OKAY, packet)"
proof -
  let ?q = "announcement nm port"
  let ?e = "\<lparr>e_out = header_bytes ?q, e_room = DNS_BUFF - HEADER_SIZE, e_segs = [], e_edns = False, e_rcode = dq_rcode ?q\<rparr>"
  let ?qu = "\<lparr>qu_name = Some ''bridge.hn.local.'', qu_type = RR_TXT, qu_class = CLASS_IN\<rparr>"
  from question_succeeds [of ?qu "''bridge.hn.local.''" 3 ?e, OF _ bridge_query_name]
  obtain c1 where c1: "encode_question ?qu ?e = Some (RCODE_OKAY, c1)" "960 \<le> e_room c1" "length (e_segs c1) \<le> 3" "\<not> e_edns c1"
    by (auto simp: DNS_BUFF_def)
  have "length (nm @ ''.'') + length (''PORT='' @ int_toString port @ '';'') + 12 \<le> e_room c1"
    using c1(2) assms(2) port_text [OF assms(3,4)] by simp
  with text_succeeds [of "bridge_answer nm port" "nm @ ''.''" "''PORT='' @ int_toString port @ '';''" 90 c1 fpu] assms(1) c1(3)
    port_text [OF assms(3,4)]
  obtain c2 where "encode_answer fpu (bridge_answer nm port) c1 = Some (RCODE_OKAY, c2)" "\<not> e_edns c2"
    using c1(4) by (auto simp: bridge_answer_def)
  then obtain bs where "dns_encode_written fpu DNS_BUFF ?q = Some (RCODE_OKAY, bs)" using c1(1)
    by (simp add: dns_encode_written_def encode_sections_def enc_then_def announcement_def txt_query_def query_okay_def DNS_BUFF_def)
  from written_encodes [OF _ _ this] show ?thesis
    by (simp add: announcement_def txt_query_def bridge_answer_def addresses_ok_def loc_excess_def)
qed

lemma query_encodes: "\<exists>packet. dns_encode fpu 512 (txt_query ''bridge.hn.local'') = Some (RCODE_OKAY, packet)"
proof -
  let ?q = "txt_query ''bridge.hn.local''"
  let ?e = "\<lparr>e_out = header_bytes ?q, e_room = 512 - HEADER_SIZE, e_segs = [], e_edns = False, e_rcode = dq_rcode ?q\<rparr>"
  let ?qu = "\<lparr>qu_name = Some ''bridge.hn.local.'', qu_type = RR_TXT, qu_class = CLASS_IN\<rparr>"
  from question_succeeds [of ?qu "''bridge.hn.local.''" 3 ?e, OF _ bridge_query_name]
  obtain c1 where "encode_question ?qu ?e = Some (RCODE_OKAY, c1)" "\<not> e_edns c1" by auto
  then obtain bs where "dns_encode_written fpu 512 ?q = Some (RCODE_OKAY, bs)"
    by (simp add: dns_encode_written_def encode_sections_def enc_then_def txt_query_def query_okay_def)
  from written_encodes [OF _ _ this] show ?thesis by (simp add: txt_query_def addresses_ok_def loc_excess_def)
qed

text \<open>
  What mDNS relies on: a packet fits the length given to the encoder, and the decoder returns
  the message when it has the memory for it.
\<close>

locale packet_codec =
  fixes enc :: "nat \<Rightarrow> dns_query \<Rightarrow> (dns_rcode \<times> string) option"
    and dec :: "nat \<Rightarrow> string \<Rightarrow> nat \<Rightarrow> (dns_rcode + dns_query) option"
    and ok :: "dns_query \<Rightarrow> bool" and cost :: "dns_query \<Rightarrow> nat"
  assumes enc_fits: "enc plen q = Some (RCODE_OKAY, packet) \<Longrightarrow> ok q \<Longrightarrow> 12 \<le> length packet \<and> length packet \<le> plen"
    and dec_enc: "enc plen q = Some (RCODE_OKAY, packet) \<Longrightarrow> ok q \<Longrightarrow> plen \<le> DNS_BUFF \<Longrightarrow> cost q < DNS_DECODEBUF_4K \<Longrightarrow>
      dec DNS_DECODEBUF_4K (packet @ behind) (length packet) = Some (Inr q)"
begin

text \<open>What a bridge makes of a packet the codec wrote.\<close>

lemma received:
  assumes "enc plen q = Some (RCODE_OKAY, packet)" and "ok q" and "plen \<le> DNS_BUFF" and "cost q < DNS_DECODEBUF_4K"
    and "udp_in st = (packet, ip) # ds"
  shows "udp_read DNS_BUFF st = (Some (packet, ip), st\<lparr>udp_in := ds\<rparr>)"
    and "dec DNS_DECODEBUF_4K (packet @ behind) (length packet) = Some (Inr q)"
proof -
  have "12 \<le> length packet" "length packet \<le> plen" using enc_fits [OF assms(1,2)] by auto
  then show "udp_read DNS_BUFF st = (Some (packet, ip), st\<lparr>udp_in := ds\<rparr>)"
    using assms(3,5) by (intro udp_read_first) auto
  show "dec DNS_DECODEBUF_4K (packet @ behind) (length packet) = Some (Inr q)"
    by (rule dec_enc) (use assms(1-4) in auto)
qed

end

definition sendable :: "dns_query \<Rightarrow> bool" where
  "sendable q \<longleftrightarrow> message_ok q \<and> addresses_ok q"

interpretation codec: packet_codec "dns_encode fpu" "dns_decode fpu" sendable message_cost
proof unfold_locales
  fix plen q packet
  assume e: "dns_encode fpu plen q = Some (RCODE_OKAY, packet)" and q: "sendable q"
  show "12 \<le> length packet \<and> length packet \<le> plen" using encode_fits [OF _ e] q by (auto simp: sendable_def)
  fix behind
  assume "plen \<le> DNS_BUFF" "message_cost q < DNS_DECODEBUF_4K"
  with codec_inverse [OF e] q show "dns_decode fpu DNS_DECODEBUF_4K (packet @ behind) (length packet) = Some (Inr q)"
    by (simp add: sendable_def DNS_BUFF_def)
qed

lemma query_ok:
  shows "sendable (txt_query ''bridge.hn.local'')" "message_cost (txt_query ''bridge.hn.local'') < DNS_DECODEBUF_4K"
  using name_fits_ok [OF bridge_query_name]
  by (simp_all add: sendable_def txt_query_def message_ok_def question_ok_def domain_ok_def addresses_ok_def message_cost_def
      section_costs_def question_cost_def name_cost_def)

lemma announcement_ok:
  assumes "name_fits 90 (nm @ ''.'')" and "length nm < 100" and "0 \<le> port" and "port \<le> 65535"
  shows "sendable (announcement nm port)" "message_cost (announcement nm port) < DNS_DECODEBUF_4K"
  using name_fits_ok [OF bridge_query_name] name_fits_ok [OF assms(1)] assms(2) port_text [OF assms(3,4)]
  by (simp_all add: sendable_def announcement_def bridge_answer_def txt_query_def message_ok_def question_ok_def domain_ok_def record_ok_def addresses_ok_def
      message_cost_def section_costs_def question_cost_def record_cost_def name_cost_def)

text \<open>The multicast address, and the states in which a datagram can be sent to it.\<close>

definition mdns_group :: sockaddr where
  "mdns_group = \<lparr>sa_family = AF_INET, sin_port = 5353, sin_addr = 3758096635\<rparr>"

lemma group_parses: "str_toIpAddr os ''224.0.0.251:5353'' = Some (True, mdns_group)"
proof -
  have "int_toString 5353 = ''5353''" "show_nat 224 = ''224''" "show_nat 0 = ''0''" "show_nat 251 = ''251''"
    by (simp_all add: int_toString_def show_nat.simps char_of_def bit_0)
  then have "ipAddr_toString os mdns_group = ''224.0.0.251:5353''"
    by (simp add: mdns_group_def ipAddr_toString_def ipAddr_isIpv4_def ipAddr_getPort_def ipAddr_getIp_def inet_ntop4_def)
  moreover have "str_toIpAddr os (ipAddr_toString os mdns_group) = Some (True, mdns_group)"
    by (rule ipv4_roundtrip) (simp_all add: mdns_group_def)
  ultimately show ?thesis by simp
qed

definition can_multicast :: "hn \<Rightarrow> bool" where
  "can_multicast st \<longleftrightarrow> udp_fails st = [] \<and> (0 \<le> mdns_fd st \<and> mdns_addr st = mdns_group
     \<or> mdns_fd st < 0 \<and> (\<exists>f ok us. udp_opens st = (f, ok) # us \<and> 0 \<le> f \<and> ok IP_ADD_MEMBERSHIP))"

lemma mdns_send_multicasts:
  assumes "can_multicast st"
  shows "\<exists>us f. mdns_send os d st = Some (int (length d), st\<lparr>udp_opens := us, mdns_fd := f, mdns_addr := mdns_group,
    udp_sent := udp_sent st @ [(mdns_group, d)]\<rparr>)"
proof -
  have f: "st\<lparr>udp_fails := []\<rparr> = st" using assms by (cases st) (simp add: can_multicast_def)
  show ?thesis
  proof (cases "0 \<le> mdns_fd st")
    case True
    with assms f show ?thesis
      by (intro exI [of _ "udp_opens st"] exI [of _ "mdns_fd st"]) (simp add: can_multicast_def mdns_send_def mdns_open_def)
  next
    case False
    with assms obtain f ok us where "udp_opens st = (f, ok) # us" "0 \<le> f" "ok IP_ADD_MEMBERSHIP" by (auto simp: can_multicast_def)
    with assms False f show ?thesis
      by (intro exI [of _ us] exI [of _ f]) (simp add: can_multicast_def mdns_send_def mdns_open_def group_parses)
  qed
qed

lemma mdns_open_sends: "mdns_open os st = Some (r, st') \<Longrightarrow> udp_sent st' = udp_sent st"
  by (auto simp: mdns_open_def bind_eq_Some_conv split: if_splits list.splits)

lemma mdns_send_sends:
  assumes "mdns_send os d st = Some (r, st')"
  shows "udp_sent st' = udp_sent st \<or> (\<exists>a. udp_sent st' = udp_sent st @ [(a, d)])"
proof -
  from assms obtain ok st1 where "mdns_open os st = Some (ok, st1)" by (auto simp: mdns_send_def bind_eq_Some_conv)
  with assms mdns_open_sends [OF this] show ?thesis
    by (auto simp: mdns_send_def split: if_splits list.splits bool.splits)
qed

lemma mdns_send_returns:
  "\<exists>r st'. mdns_send os d st = Some (r, st') \<and> outbox st' = outbox st \<and> inbox st' = inbox st \<and> conf st' = conf st"
  by (auto simp: mdns_send_def mdns_open_def group_parses split: list.split bool.split)

text \<open>
  When joining the group fails, the first call reports it, and every later call sends to the
  address that was never set.
\<close>

lemma failed_join_sends_nowhere:
  assumes "mdns_fd st < 0" and "udp_opens st = (f, ok) # us" and "0 \<le> f" and "\<not> ok IP_ADD_MEMBERSHIP" and "udp_fails st = []"
  shows "\<exists>st1. mdns_send os d st = Some (- 1, st1) \<and> mdns_send os e st1
    = Some (int (length e), st1\<lparr>udp_sent := udp_sent st @ [(mdns_addr st, e)]\<rparr>)"
  using assms by (auto simp: mdns_send_def mdns_open_def)

text \<open>A bridge that can be found: a name under \<open>.hn.local\<close> and a port, and no broadcast too shortly before.\<close>

definition bridge_ready :: "os \<Rightarrow> string \<Rightarrow> int \<Rightarrow> hn \<Rightarrow> bool" where
  "bridge_ready os nm port st \<longleftrightarrow> (\<exists>b. bridge (conf st) = Some b \<and> ctx_name (br_context b) = nm \<and> br_port b = port
     \<and> lastMdnsBroadcast (br_context b) + BROADCAST_MIN_INTERVAL_SECS \<le> clock os (ticks st))
     \<and> name_fits 90 (nm @ ''.'') \<and> length nm < 100 \<and> suffix ''.hn.local'' nm \<and> 0 \<le> port \<and> port \<le> 65535 \<and> can_multicast st"

lemma strip_bridge_dot: "strip_dot os ''bridge.hn.local.'' = Some ''bridge.hn.local''"
proof -
  have "str_endswith (below_buff os) (''bridge.hn.local.'' @ [NUL]) (''.'' @ [NUL]) = Some (endsWith ''bridge.hn.local.'' ''.'')"
    by (rule str_endswith_holds) (simp_all add: holds_def)
  then show ?thesis by (simp add: strip_dot_def endsWith_def suffix_def)
qed

text \<open>The query repeated by \<open>houseKeeping\<close> names no bridge: it is not answered.\<close>

lemma refresh_query_unanswered:
  assumes "bridge (conf st) = Some b" and "ctx_name (br_context b) \<noteq> MDNS_QUERY"
  shows "answer_questions os (txt_query MDNS_QUERY) (dq_questions (txt_query MDNS_QUERY)) st = Some st"
proof -
  have "str_endswith (below_buff os) (''hn.local.'' @ [NUL]) (''.'' @ [NUL]) = Some (endsWith ''hn.local.'' ''.'')"
    by (rule str_endswith_holds) (simp_all add: holds_def)
  then have "strip_dot os ''hn.local.'' = Some ''hn.local''" by (simp add: strip_dot_def endsWith_def suffix_def)
  then show ?thesis using assms by (simp add: txt_query_def MDNS_QUERY_def)
qed

lemma bridge_answers:
  assumes "bridge_ready os nm port st" and "dns_encode (os_fpu os) 512 (txt_query ''bridge.hn.local'') = Some (RCODE_OKAY, asked)"
    and "udp_in st = (asked, ip) # ds" and "dns_encode (os_fpu os) DNS_BUFF (announcement nm port) = Some (RCODE_OKAY, answer)"
  shows "\<exists>st'. handleMdnsRead os st = Some st' \<and> udp_sent st' = udp_sent st @ [(mdns_group, answer)]"
proof -
  note r = codec.received [OF assms(2) query_ok(1) _ query_ok(2) assms(3)]
  have u: "udp_read DNS_BUFF st = (Some (asked, ip), st\<lparr>udp_in := ds\<rparr>)" by (rule r) (simp add: DNS_BUFF_def)
  have d: "dns_decode (os_fpu os) DNS_DECODEBUF_4K (asked @ x) (length asked) = Some (Inr (txt_query ''bridge.hn.local''))" for x
    by (rule r) (simp add: DNS_BUFF_def)
  from assms(1) obtain b where b: "bridge (conf st) = Some b" "ctx_name (br_context b) = nm" "br_port b = port"
    "lastMdnsBroadcast (br_context b) + BROADCAST_MIN_INTERVAL_SECS \<le> clock os (ticks st)" "can_multicast st"
    and ok: "name_fits 90 (nm @ ''.'')" "length nm < 100" "0 \<le> port" "port \<le> 65535" by (auto simp: bridge_ready_def)
  have "answer \<noteq> []" using codec.enc_fits [OF assms(4) announcement_ok(1) [OF ok]] by auto
  moreover have "can_multicast (st\<lparr>udp_in := ds, ticks := ticks st + 1\<rparr>)" using b(5) by (simp add: can_multicast_def)
  from mdns_send_multicasts [OF this, of os answer] obtain us f where
    "mdns_send os answer (st\<lparr>udp_in := ds, ticks := ticks st + 1\<rparr>) = Some (int (length answer), st\<lparr>udp_in := ds, ticks := ticks st + 1,
       udp_opens := us, mdns_fd := f, mdns_addr := mdns_group, udp_sent := udp_sent st @ [(mdns_group, answer)]\<rparr>)" by auto
  ultimately have "\<exists>st'. answer_questions os (txt_query ''bridge.hn.local'') (dq_questions (txt_query ''bridge.hn.local''))
      (st\<lparr>udp_in := ds, ticks := ticks st + 1\<rparr>) = Some st' \<and> udp_sent st' = udp_sent st @ [(mdns_group, answer)]"
    using b assms(4) strip_bridge_dot [of os]
    by (simp add: txt_query_def advertise_def announcement_def os_time_def set_ctx_def)
  then show ?thesis using b(1,4) u d by (simp add: handleMdnsRead_def os_time_def) (simp add: txt_query_def)
qed

text \<open>The store has a record of a name and an address.\<close>

definition knows :: "string \<Rightarrow> sockaddr \<Rightarrow> hn \<Rightarrow> bool" where
  "knows nm ip st \<longleftrightarrow> (\<exists>c k r. get_ctx st = Some c \<and> map_get (mdnsStore c) k = Some r \<and> rec_name r = nm \<and> rec_ip r = ip)"

lemma select_new:
  assumes "bridge (conf st) = Some b" and "map_inv (mdnsStore (br_context b))" and "length nm < 100"
    and "getMdnsRecordForIpAddr os ip (br_context b) = None"
  shows "\<exists>k st'. select_record os nm ip st = Some (k, st') \<and> knows nm ip st'"
proof -
  obtain k st1 where g: "generateCode os 14 st = (k, st1)" by force
  have s: "length k < KEY_SIZE" "st1 = st\<lparr>ticks := ticks st + 1, mySeed := mySeed st + 1\<rparr>"
    using generateCode_shape [OF g] by (simp_all add: KEY_SIZE_def)
  define r where "r = \<lparr>rec_ip = ip, rec_name = nm, rec_data = map_init, rec_timestamp = 0\<rparr>"
  from map_set_spec [OF assms(2) s(1), of r True] obtain m where m: "map_put True (mdnsStore (br_context b)) k r = Some m"
    "map_get m k = Some r" by (auto simp: map_put_def)
  then have "map_of (map_start m) k = Some r" by (simp add: map_get_map_of)
  then have k: "map_get (m\<lparr>map_start := set_value (map_start m) k v\<rparr>) k = Some v" for v
    by (simp add: map_get_map_of map_of_set_value)
  show ?thesis using assms(1,3,4) g s(2) m k
    by (simp add: select_record_def new_record_def get_ctx_def set_ctx_def upd_record_def os_time_def fits_def MAX_URL_SIZE_def
        knows_def r_def exI [of _ k])
qed

lemma port_fields:
  assumes "0 \<le> port" and "port \<le> 65535"
  shows "strtok '';'' (''PORT='' @ int_toString port @ '';'') = (Some (''PORT='' @ int_toString port), [])"
    and "strtok ''='' (''PORT='' @ int_toString port) = (Some ''PORT'', int_toString port)"
    and "strtok ''='' (int_toString port) = (Some (int_toString port), [])"
    and "str_toInt (int_toString port) = Some port"
    and "NUL \<notin> set (int_toString port)"
proof -
  have d: "list_all is_digit (int_toString port)" "int_toString port \<noteq> []"
    using show_nat_digits [of "nat port"] assms(1) by (simp_all add: int_toString_def)
  then have n: "CHR '';'' \<notin> set (int_toString port)" "CHR ''='' \<notin> set (int_toString port)" "NUL \<notin> set (int_toString port)"
    by (auto simp: list_all_iff is_digit_def)
  show "strtok '';'' (''PORT='' @ int_toString port @ '';'') = (Some (''PORT='' @ int_toString port), [])"
    using strtok_word(1) [of "''PORT='' @ int_toString port" "'';''" "CHR '';''" "[]"] n by simp
  show "strtok ''='' (''PORT='' @ int_toString port) = (Some ''PORT'', int_toString port)"
    using strtok_word(1) [of "''PORT''" "''=''" "CHR ''=''" "int_toString port"] by simp
  show "strtok ''='' (int_toString port) = (Some (int_toString port), [])"
    by (rule strtok_word(2) [of _ _ "CHR ''=''"]) (use d n in auto)
  show "str_toInt (int_toString port) = Some port"
    by (rule str_toInt_int_toString) (use assms in \<open>simp_all add: INT_MAX_def\<close>)
qed (rule ccontr; use show_nat_digits [of "nat port"] assms(1) in \<open>auto simp: int_toString_def list_all_iff is_digit_def\<close>)

lemma learns_announced:
  assumes "bridge (conf st) = Some b" and "map_inv (mdnsStore (br_context b))" and "length nm < 100" and "suffix ''.hn.local'' nm"
    and "NUL \<notin> set nm" and "0 \<le> port" and "port \<le> 65535" and "ctx_name (br_context b) \<noteq> nm"
    and "getMdnsRecordForIpAddr os (ipAddr_setPort ip port) (br_context b) = None"
  shows "\<exists>st'. learn_answers os [bridge_answer nm port] ip st = Some st' \<and> knows nm (ipAddr_setPort ip port) st'"
proof -
  note p = port_fields [OF assms(6,7)]
  have c: "cstr (''PORT='' @ int_toString port @ '';'') = ''PORT='' @ int_toString port @ '';''"
    using p(5) by (simp add: cstr_def takeWhile_eq_all_conv) (metis)
  have e0: "text_fields os nm [] ip' key st' = Some (ip', st')" for ip' key st'
    by (simp add: text_fields.simps [of os nm "[]"] strtok_def)
  have "length ''.hn.local'' \<le> length nm" using assms(4) suffix_length_le by blast
  then have e: "str_endswith (below_buff os) (nm @ [NUL]) (''.hn.local'' @ [NUL]) = Some True"
    using str_endswith_holds [of "nm @ [NUL]" nm "''.hn.local'' @ [NUL]" "''.hn.local''" "below_buff os"] assms(4,5)
    by (simp add: holds_def endsWith_def)
  obtain k st' where s: "select_record os nm (ipAddr_setPort ip port) st = Some (k, st')" "knows nm (ipAddr_setPort ip port) st'"
    using select_new [OF assms(1-3,9)] by blast
  have "text_fields os nm (''PORT='' @ int_toString port @ '';'') ip None st = Some (ipAddr_setPort ip port, st')"
    unfolding text_fields.simps [of os nm "''PORT='' @ int_toString port @ '';''"] p(1)
    by (simp add: p(2,3,4) [simplified] s e0)
  then show ?thesis using assms(1,3,8) e s(2) c port_text [OF assms(6,7)]
    by (simp add: learn_answer_def bridge_answer_def answer_text_def get_ctx_def fits_def)
qed

text \<open>A bridge with another name that has no record of the address yet.\<close>

definition fresh_peer :: "os \<Rightarrow> string \<Rightarrow> sockaddr \<Rightarrow> hn \<Rightarrow> bool" where
  "fresh_peer os nm ip st \<longleftrightarrow> (\<exists>b. bridge (conf st) = Some b \<and> map_inv (mdnsStore (br_context b)) \<and> ctx_name (br_context b) \<noteq> nm
     \<and> getMdnsRecordForIpAddr os ip (br_context b) = None)"

lemma peer_learns:
  assumes "fresh_peer os nm (ipAddr_setPort ip port) st" and "name_fits 90 (nm @ ''.'')" and "length nm < 100"
    and "suffix ''.hn.local'' nm" and "0 \<le> port" and "port \<le> 65535"
    and "dns_encode (os_fpu os) DNS_BUFF (announcement nm port) = Some (RCODE_OKAY, answer)" and "udp_in st = (answer, ip) # ds"
  shows "\<exists>st'. handleMdnsRead os st = Some st' \<and> knows nm (ipAddr_setPort ip port) st'"
proof -
  note ok = announcement_ok [OF assms(2,3,5,6)]
  note r = codec.received [OF assms(7) ok(1) order_refl ok(2) assms(8)]
  from assms(1) obtain b where b: "bridge (conf st) = Some b" "map_inv (mdnsStore (br_context b))" "ctx_name (br_context b) \<noteq> nm"
    "getMdnsRecordForIpAddr os (ipAddr_setPort ip port) (br_context b) = None" by (auto simp: fresh_peer_def)
  have "NUL \<notin> set (nm @ ''.'')" by (rule name_okE [OF name_fits_ok [OF assms(2)]])
  with learns_announced [of "st\<lparr>udp_in := ds\<rparr>" b nm port os ip] b assms(3-6) obtain st'
    where "learn_answers os [bridge_answer nm port] ip (st\<lparr>udp_in := ds\<rparr>) = Some st'" "knows nm (ipAddr_setPort ip port) st'" by auto
  then show ?thesis using b(1) r
    by (simp add: handleMdnsRead_def) (simp add: announcement_def)
qed

text \<open>Texts are encoded without floating-point arithmetic.\<close>

lemma encode_any_fpu:
  assumes "dq_nameservers q = []" and "dq_additional q = []" and "list_all (\<lambda>a. an_type a = RR_TXT \<and> (\<exists>t. an_data a = RD_TXT t)) (dq_answers q)"
  shows "dns_encode fpu n q = dns_encode fpu' n q"
proof -
  have nil: "encode_answers f [] = (\<lambda>c. Some (RCODE_OKAY, c))" for f by (rule ext) simp
  have rd: "encode_rdata f RR_TXT cls (RD_TXT t) = encode_rr_txt t" for f cls t by (rule ext) (simp add: encode_rdata_def)
  have one: "encode_answer fpu a c = encode_answer fpu' a c" if "an_type a = RR_TXT" "an_data a = RD_TXT t" for a c t
    by (simp only: encode_answer_def that rd)
  have "encode_answers fpu as = encode_answers fpu' as"
    if "list_all (\<lambda>a. an_type a = RR_TXT \<and> (\<exists>t. an_data a = RD_TXT t)) as" for as
    using that by (induction as) (auto simp: nil one intro!: ext)
  then have "encode_answers fpu (dq_answers q) = encode_answers fpu' (dq_answers q)" using assms(3) by blast
  then have "encode_sections fpu q = encode_sections fpu' q"
    by (intro ext) (simp only: encode_sections_def assms(1,2) nil)
  then show ?thesis by (simp only: dns_encode_def dns_encode_written_def)
qed

lemma encode_discovery:
  "dns_encode fpu n (txt_query nm) = dns_encode fpu' n (txt_query nm)"
  "dns_encode fpu n (announcement nm port) = dns_encode fpu' n (announcement nm port)"
  by (rule encode_any_fpu; simp add: txt_query_def announcement_def bridge_answer_def)+

text \<open>
  (C13) Bridges find each other: the query that a bridge sends when it starts is answered by
  every bridge that receives it and has not answered too recently, and the bridge that gets
  the answer has a record with the name of the other one and its address with the announced
  port.
\<close>

theorem bridge_discovered:
  assumes "sendMdnsQuery osB ''bridge.hn.local'' st0 = Some st1" and "udp_sent st1 = udp_sent st0 @ [(mdns_group, asked)]"
    and "bridge_ready osA nm port stA" and "udp_in stA = (asked, ipB) # dsA"
    and "fresh_peer osB nm (ipAddr_setPort ipA port) stB"
  shows "\<exists>answer stA' stB'. handleMdnsRead osA stA = Some stA' \<and> udp_sent stA' = udp_sent stA @ [(mdns_group, answer)]
    \<and> handleMdnsRead osB (stB\<lparr>udp_in := (answer, ipA) # dsB\<rparr>) = Some stB' \<and> knows nm (ipAddr_setPort ipA port) stB'"
proof -
  from query_encodes obtain q where q: "dns_encode (os_fpu osB) 512 (txt_query ''bridge.hn.local'') = Some (RCODE_OKAY, q)" by blast
  with assms(1) obtain r where "mdns_send osB q st0 = Some (r, st1)" by (auto simp: sendMdnsQuery_def bind_eq_Some_conv)
  from mdns_send_sends [OF this] assms(2) have "asked = q" by auto
  with q have a: "dns_encode (os_fpu osA) 512 (txt_query ''bridge.hn.local'') = Some (RCODE_OKAY, asked)"
    using encode_discovery(1) by metis
  have nm: "name_fits 90 (nm @ ''.'')" "length nm < 100" "suffix ''.hn.local'' nm" "0 \<le> port" "port \<le> 65535"
    using assms(3) by (auto simp: bridge_ready_def)
  from announcement_encodes [OF nm(1,2,4,5)] obtain answer
    where e: "dns_encode (os_fpu osA) DNS_BUFF (announcement nm port) = Some (RCODE_OKAY, answer)" by blast
  from bridge_answers [OF assms(3) a assms(4) e] obtain stA' where "handleMdnsRead osA stA = Some stA'"
    "udp_sent stA' = udp_sent stA @ [(mdns_group, answer)]" by blast
  moreover have "dns_encode (os_fpu osB) DNS_BUFF (announcement nm port) = Some (RCODE_OKAY, answer)"
    using e encode_discovery(2) by metis
  from peer_learns [OF _ nm this, of ipA "stB\<lparr>udp_in := (answer, ipA) # dsB\<rparr>" dsB] assms(5)
  obtain stB' where "handleMdnsRead osB (stB\<lparr>udp_in := (answer, ipA) # dsB\<rparr>) = Some stB'" "knows nm (ipAddr_setPort ipA port) stB'"
    by (auto simp: fresh_peer_def)
  ultimately show ?thesis by blast
qed

definition bridge_state :: "string \<Rightarrow> hn" where
  "bridge_state nm = hn_idle\<lparr>conf := (conf hn_idle)\<lparr>cf_mode := Some HN_MODE_BRIDGE,
     bridge := Some (bridge_idle\<lparr>br_context := bridgeContextInit\<lparr>ctx_name := nm\<rparr>\<rparr>)\<rparr>, ticks := 100,
     mdns_fd := 9, mdns_addr := mdns_group\<rparr>"

theorem mdns_header_only_aborts_witness:
  "handleMdnsRead os_plain ((bridge_state ''home.bridge.hn.local'')\<lparr>udp_in := [(map char_of [4, 210, 0, 0, 0, 1, 0, 0, 0, 0, 0, 0 :: nat],
     \<lparr>sa_family = AF_INET, sin_port = 5353, sin_addr = 167772161\<rparr>)]\<rparr>) = None"
  by (rule mdns_header_only_aborts [where ds = "[]"], simp add: bridge_state_def, simp) (simp_all add: word_at_def)

theorem bridge_discovered_witness:
  "\<exists>asked answer stA' stB'.
     sendMdnsQuery os_plain ''bridge.hn.local'' (bridge_state ''b.bridge.hn.local'') = Some ((bridge_state ''b.bridge.hn.local'')\<lparr>udp_sent := [(mdns_group, asked)]\<rparr>)
     \<and> handleMdnsRead os_plain ((bridge_state ''a.bridge.hn.local'')\<lparr>udp_in := [(asked, \<lparr>sa_family = AF_INET, sin_port = 5353, sin_addr = 2\<rparr>)]\<rparr>) = Some stA'
     \<and> udp_sent stA' = [(mdns_group, answer)]
     \<and> handleMdnsRead os_plain ((bridge_state ''b.bridge.hn.local'')\<lparr>udp_in := [(answer, \<lparr>sa_family = AF_INET, sin_port = 5353, sin_addr = 1\<rparr>)]\<rparr>) = Some stB'
     \<and> knows ''a.bridge.hn.local'' \<lparr>sa_family = AF_INET, sin_port = 2000, sin_addr = 1\<rparr> stB'"
proof -
  let ?b = "bridge_state ''b.bridge.hn.local''" and ?ipB = "\<lparr>sa_family = AF_INET, sin_port = 5353, sin_addr = 2\<rparr>"
  from query_encodes obtain q where q: "dns_encode (os_fpu os_plain) 512 (txt_query ''bridge.hn.local'') = Some (RCODE_OKAY, q)" by blast
  have s: "sendMdnsQuery os_plain ''bridge.hn.local'' ?b = Some (?b\<lparr>udp_sent := [(mdns_group, q)]\<rparr>)"
    using q by (simp add: sendMdnsQuery_def mdns_send_def mdns_open_def) (simp add: bridge_state_def hn_idle_def)
  let ?a = "(bridge_state ''a.bridge.hn.local'')\<lparr>udp_in := [(q, ?ipB)]\<rparr>"
  have "name_fits 90 ''a.bridge.hn.local.''" unfolding name_fits_def
    by (rule exI [of _ "[''a'', ''bridge'', ''hn'', ''local'']"]) (simp add: dotted_def label_ok_def)
  then have r: "bridge_ready os_plain ''a.bridge.hn.local'' 2000 ?a"
    by (simp add: bridge_ready_def can_multicast_def bridge_state_def hn_idle_def bridge_idle_def bridgeContextInit_def os_plain_def
        BROADCAST_MIN_INTERVAL_SECS_def suffix_def)
  have f: "fresh_peer os_plain ''a.bridge.hn.local'' (ipAddr_setPort \<lparr>sa_family = AF_INET, sin_port = 5353, sin_addr = 1\<rparr> 2000) ?b"
    by (simp add: fresh_peer_def bridge_state_def bridge_idle_def bridgeContextInit_def getMdnsRecordForIpAddr_def map_init_def map_inv_def)
  have u: "udp_sent (?b\<lparr>udp_sent := [(mdns_group, q)]\<rparr>) = udp_sent ?b @ [(mdns_group, q)]" "udp_sent ?a = []" by (simp_all add: bridge_state_def hn_idle_def)
  from bridge_discovered [OF s u(1) r _ f, of ?ipB "[]" "[]"] u(2) s show ?thesis
    unfolding ipAddr_setPort_def by auto
qed

end
