(* ===== verification/Dns_Typed.thy ===== *)
theory Dns_Typed
  imports Dns_Correct
begin

text \<open>
  The types of what the decoder returns: section lengths, widths of the numbers, and the union
  member that goes with the type of each record.
\<close>

section \<open>What the decoder returns has the types of the protocol\<close>

text \<open>The value of a successful result.\<close>

definition yields :: "('a \<Rightarrow> bool) \<Rightarrow> 'a dec_result \<Rightarrow> bool" where
  "yields P r \<longleftrightarrow> (\<forall>a c. r = Some (Inr (a, c)) \<longrightarrow> P a)"

lemma yields_triv [simp]: "yields P None" "yields P (Some (Inl rc))" "yields P (Some (Inr (a, c))) \<longleftrightarrow> P a"
  by (simp_all add: yields_def)

lemma yields_then: "yields Q m \<Longrightarrow> (\<And>a c. Q a \<Longrightarrow> yields P (f a c)) \<Longrightarrow> yields P (and_then m f)"
  unfolding yields_def and_then_def by (auto split: option.splits sum.splits) blast

lemma yields_any: "(\<And>a c. yields P (f a c)) \<Longrightarrow> yields P (and_then m f)"
  by (rule yields_then [where Q = "\<lambda>_. True"]) (simp_all add: yields_def)

lemma yields_bind: "(\<And>x. m = Some x \<Longrightarrow> yields P (f x)) \<Longrightarrow> yields P (Option.bind m f)"
  by (cases m) auto

lemma read_uint16_less: "read_uint16 c = Some (v, c') \<Longrightarrow> v < 65536"
proof -
  have "octet a * 256 + octet b < 65536" for a b using octet_less [of a] octet_less [of b] by linarith
  then show "read_uint16 c = Some (v, c') \<Longrightarrow> v < 65536"
    by (auto simp: read_uint16_def peek_def bind_eq_Some_conv split: if_split_asm)
qed

lemma read_uint32_less: "read_uint32 c = Some (v, c') \<Longrightarrow> v < 2 ^ 32"
proof -
  have "octet a * 16777216 + octet b * 65536 + octet d * 256 + octet e < 4294967296" for a b d e
    using octet_less [of a] octet_less [of b] octet_less [of d] octet_less [of e] by linarith
  then show "read_uint32 c = Some (v, c') \<Longrightarrow> v < 2 ^ 32"
    by (auto simp: read_uint32_def peek_def bind_eq_Some_conv split: if_split_asm)
qed

lemmas read_less = read_uint16_less read_uint32_less

definition soa_typed :: "dns_soa \<Rightarrow> bool" where
  "soa_typed s \<longleftrightarrow> soa_serial s < 2 ^ 32 \<and> soa_refresh s < 2 ^ 32 \<and> soa_retry s < 2 ^ 32 \<and> soa_expire s < 2 ^ 32
     \<and> soa_minimum s < 2 ^ 32"

definition angle_typed :: "int \<Rightarrow> dnsgpos_angle \<Rightarrow> bool" where
  "angle_typed mx a \<longleftrightarrow> 0 \<le> ang_deg a \<and> ang_deg a \<le> mx \<and> 0 \<le> ang_min a \<and> ang_min a < 60 \<and> 0 \<le> ang_sec a
     \<and> ang_sec a < 60 \<and> 0 \<le> ang_frac a \<and> ang_frac a < 1000"

definition rdata_typed :: "rr_member \<Rightarrow> rdata \<Rightarrow> bool" where
  "rdata_typed k d =
     (case (k, d) of
        (K_A, RD_A adr) \<Rightarrow> length adr = 4
      | (K_AAAA, RD_AAAA adr) \<Rightarrow> length adr = 16
      | (K_SOA, RD_SOA soa) \<Rightarrow> soa_typed soa
      | (K_NAPTR, RD_NAPTR na) \<Rightarrow> na_order na < 65536 \<and> na_preference na < 65536
      | (K_SRV, RD_SRV prio weight port nm) \<Rightarrow> prio < 65536 \<and> weight < 65536 \<and> port < 65536
      | (K_WKS, RD_WKS adr protocol bits) \<Rightarrow> length adr = 4 \<and> protocol < 65536
      | (K_GPOS, RD_GPOS g) \<Rightarrow> True
      | (K_LOC, RD_LOC l) \<Rightarrow> angle_typed 90 (loc_latitude l) \<and> angle_typed 180 (loc_longitude l)
      | (K_OPT, RD_OPT opt) \<Rightarrow> op_version opt = 0 \<and> op_udp_payload opt < 65536
      | (K_MINFO, RD_MINFO a b) \<Rightarrow> True
      | (K_MX, RD_MX p x) \<Rightarrow> p < 65536
      | (K_HINFO, RD_HINFO a b) \<Rightarrow> True
      | (K_TXT, RD_TXT t) \<Rightarrow> True
      | (K_NAME, RD_NAME nm) \<Rightarrow> True
      | (K_NULL, RD_X raw) \<Rightarrow> True
      | (K_OTHER, RD_X raw) \<Rightarrow> True
      | _ \<Rightarrow> False)"

lemma bytes_at_length: "bytes_at mem p n = Some bs \<Longrightarrow> length bs = n"
  by (auto simp: bytes_at_def split: if_split_asm)

lemma loc_angle_typed:
  assumes "v \<le> k * 3600000"
  shows "angle_typed (int k) (dloc_angle nw v)"
proof -
  have "v div 1000 div 60 div 60 \<le> k" using assms by (simp add: div_mult2_eq [symmetric] div_le_mono [of v "k * 3600000" 3600000, simplified])
  then show ?thesis by (simp add: angle_typed_def dloc_angle_def)
qed

lemmas decode_rr_defs =
  decode_rr_a_def decode_rr_aaaa_def decode_rr_soa_def decode_rr_naptr_def decode_rr_srv_def decode_rr_wks_def
  decode_rr_gpos_def decode_rr_minfo_def decode_rr_mx_def decode_rr_hinfo_def decode_rr_txt_def

lemma yields_loc: "yields (rdata_typed K_LOC) (decode_rr_loc len c)"
  by (auto simp: decode_rr_loc_def Let_def rdata_typed_def split: option.split
      intro!: yields_bind loc_angle_typed [of _ 90, simplified] loc_angle_typed [of _ 180, simplified])

lemma yields_opt: "payload < 65536 \<Longrightarrow> yields (rdata_typed K_OPT) (decode_rr_opt payload fdo fug len c)"
  by (auto simp: decode_rr_opt_def Let_def rdata_typed_def split: option.split intro!: yields_bind yields_any)

lemma yields_rdata: "payload < 65536 \<Longrightarrow> yields (rdata_typed (rr_kind t)) (decode_rdata fpu t len payload fdo fug c)"
  by (cases "rr_kind t")
     (auto simp: decode_rdata_def decode_rr_defs Let_def rdata_typed_def soa_typed_def bytes_at_length dest!: read_less
        intro!: yields_loc yields_opt yields_any yields_bind)

section \<open>Questions, answers and messages\<close>

definition question_typed :: "dns_question \<Rightarrow> bool" where
  "question_typed q \<longleftrightarrow> qu_name q \<noteq> None \<and> qu_type q < 65536 \<and> qu_type q \<noteq> RR_OPT \<and> qu_class q < 65536"

definition answer_typed :: "dns_answer \<Rightarrow> bool" where
  "answer_typed a \<longleftrightarrow> an_name a \<noteq> None \<and> an_type a < 65536 \<and> an_class a < 65536 \<and> an_ttl a < 2 ^ 32
     \<and> rdata_typed (rr_kind (an_type a)) (an_data a)"

definition query_typed :: "dns_query \<Rightarrow> bool" where
  "query_typed q \<longleftrightarrow> 0 \<le> dq_id q \<and> dq_id q < 65536 \<and> dq_opcode q < 16 \<and> list_all question_typed (dq_questions q)
     \<and> list_all answer_typed (dq_answers q) \<and> list_all answer_typed (dq_nameservers q) \<and> list_all answer_typed (dq_additional q)"

lemma yields_question: "yields question_typed (decode_question c)"
  by (auto simp: decode_question_def question_typed_def dest!: read_less intro!: yields_any yields_bind)

lemma yields_fixed: "yields (\<lambda>(cls, ttl, payload, fdo, fug). cls < 65536 \<and> ttl < 2 ^ 32 \<and> payload < 65536) (decode_fixed t c)"
  by (auto simp: decode_fixed_def Let_def dest!: read_less intro!: yields_bind)

lemma yields_answer: "yields answer_typed (decode_answer fpu c)"
proof -
  have tail: "yields answer_typed (and_then (decode_rdata fpu t len payload fdo fug c4) (\<lambda>d c5.
      Some (Inr (\<lparr>an_name = Some nm, an_type = t, an_class = cls, an_ttl = ttl, an_data = d\<rparr>, c5))))"
    if "t < 65536" "cls < 65536" "ttl < 2 ^ 32" "payload < 65536" for nm t cls ttl len payload fdo fug c4
    by (rule yields_then [OF yields_rdata [OF that(4)]]) (use that in \<open>simp add: answer_typed_def\<close>)
  show ?thesis
    unfolding decode_answer_def
    by (simp, intro impI yields_any)
       (auto dest!: read_uint16_less intro!: yields_bind yields_then [OF yields_fixed] simp: tail)
qed

lemma yields_questions: "yields (\<lambda>qs. list_all question_typed qs \<and> length qs = n) (decode_questions n c)"
proof (induction n arbitrary: c)
  case (Suc n)
  show ?case unfolding decode_questions.simps
    by (rule yields_then [OF yields_question], rule yields_then [OF Suc]) simp
qed simp

lemma yields_answers: "yields (\<lambda>as. list_all answer_typed as \<and> length as = n) (decode_answers fpu n c)"
proof (induction n arbitrary: c)
  case (Suc n)
  show ?case unfolding decode_answers.simps
    by (rule yields_then [OF yields_answer], rule yields_then [OF Suc]) simp
qed simp

lemma yields_sections:
  "yields (\<lambda>(qs, as, nss, ars). list_all question_typed qs \<and> list_all answer_typed as \<and> list_all answer_typed nss \<and> list_all answer_typed ars
     \<and> length qs = qd \<and> length as = an \<and> length nss = ns \<and> length ars = ar) (decode_sections fpu qd an ns ar c)"
  by (auto simp: decode_sections_def intro!: yields_then [OF yields_questions] yields_then [OF yields_answers])

lemma word_at_less [simp]: "word_at mem i < 65536"
  using octet_less [of "mem ! i"] octet_less [of "mem ! (i + 1)"] unfolding word_at_def by linarith

text \<open>A message was returned: its sections were decoded, and the header fields are those of the packet.\<close>

lemma dns_decode_Inr:
  assumes "dns_decode fpu prsize mem len = Some (Inr q)"
  obtains c c' where "decode_sections fpu (word_at mem 4) (word_at mem 6) (word_at mem 8) (word_at mem 10) c
      = Some (Inr ((dq_questions q, dq_answers q, dq_nameservers q, dq_additional q), c'))"
    and "dq_id q = int (word_at mem 0)" and "dq_opcode q = octet (mem ! 2) div 8 mod 16"
proof -
  let ?q = "\<lambda>r. case r of Inl e \<Rightarrow> Inl e
    | Inr ((qs, as, nss, ars), c) \<Rightarrow> Inr \<lparr>dq_id = int (word_at mem 0), dq_query = (octet (mem ! 2) div 128 = 0),
        dq_opcode = octet (mem ! 2) div 8 mod 16, dq_aa = odd (octet (mem ! 2) div 4), dq_tc = odd (octet (mem ! 2) div 2),
        dq_rd = odd (octet (mem ! 2)), dq_ra = odd (octet (mem ! 3) div 128), dq_z = odd (octet (mem ! 3) div 64),
        dq_ad = odd (octet (mem ! 3) div 32), dq_cd = odd (octet (mem ! 3) div 16),
        dq_rcode = d_rcode c, dq_questions = qs, dq_answers = as, dq_nameservers = nss, dq_additional = ars\<rparr>"
  from assms obtain c r where d: "decode_sections fpu (word_at mem 4) (word_at mem 6) (word_at mem 8) (word_at mem 10) c = Some r"
    and r: "?q r = Inr q"
    by (auto simp: dns_decode_eq Let_def bind_eq_Some_conv split: if_split_asm)
  from r obtain qs as nss ars c' where i: "r = Inr ((qs, as, nss, ars), c')" by (cases r) auto
  from r [unfolded i] have q: "q = \<lparr>dq_id = int (word_at mem 0), dq_query = (octet (mem ! 2) div 128 = 0),
        dq_opcode = octet (mem ! 2) div 8 mod 16, dq_aa = odd (octet (mem ! 2) div 4), dq_tc = odd (octet (mem ! 2) div 2),
        dq_rd = odd (octet (mem ! 2)), dq_ra = odd (octet (mem ! 3) div 128), dq_z = odd (octet (mem ! 3) div 64),
        dq_ad = odd (octet (mem ! 3) div 32), dq_cd = odd (octet (mem ! 3) div 16),
        dq_rcode = d_rcode c', dq_questions = qs, dq_answers = as, dq_nameservers = nss, dq_additional = ars\<rparr>" by simp
  show thesis by (rule that [of c c']) (use d in \<open>simp_all add: i q\<close>)
qed

lemma decode_typed:
  assumes "dns_decode fpu prsize mem len = Some (Inr q)"
  shows "query_typed q \<and> length (dq_questions q) = word_at mem 4 \<and> length (dq_answers q) = word_at mem 6
    \<and> length (dq_nameservers q) = word_at mem 8 \<and> length (dq_additional q) = word_at mem 10"
proof -
  from assms obtain c c' where
    d: "decode_sections fpu (word_at mem 4) (word_at mem 6) (word_at mem 8) (word_at mem 10) c
      = Some (Inr ((dq_questions q, dq_answers q, dq_nameservers q, dq_additional q), c'))"
    and q: "dq_id q = int (word_at mem 0)" "dq_opcode q = octet (mem ! 2) div 8 mod 16" by (rule dns_decode_Inr)
  show ?thesis
    using yields_sections [of "word_at mem 4" "word_at mem 6" "word_at mem 8" "word_at mem 10" fpu c] d
    by (simp add: yields_def query_typed_def q)
qed

text \<open>
  (C15) What the decoder returns is well typed: the sections have the lengths announced in the
  header, every question and record has a name, every number is inside its width on the wire,
  and the member of the union that was filled is the one its type selects, with addresses of
  the right length and angles in range.
\<close>

theorem dns_decode_typed:
  assumes "dns_decode fpu prsize mem len = Some (Inr q)"
  shows "query_typed q \<and> length (dq_questions q) = word_at mem 4 \<and> length (dq_answers q) = word_at mem 6
    \<and> length (dq_nameservers q) = word_at mem 8 \<and> length (dq_additional q) = word_at mem 10"
  using assms by (rule decode_typed)

theorem dns_decode_typed_witness:
  "query_typed sample_message \<and> length (dq_answers sample_message) = word_at sample_packet 6"
proof -
  have "dns_decode fpu_zero 4096 sample_packet (length sample_packet) = Some (Inr sample_message)"
    using codec_inverse [OF sample_encodes sample_ok _ _ sample_cost, of "[]"] by simp
  then show ?thesis using dns_decode_typed by blast
qed

end
