(* ===== verification/Dns_Output.thy ===== *)
theory Dns_Output
  imports Dns_Typed Dns_Mappings CString
begin

text \<open>
  The printer of lib/dns/output.c.  The output is a string; a null pointer handed to an
  assertion or to \<open>printf\<close> and a union member that does not go with the record type are \<open>None\<close>.
  The printer of IPv6 addresses of the C library is a parameter.
\<close>

section \<open>Conversions of printf\<close>

definition pad_left :: "nat \<Rightarrow> string \<Rightarrow> string" where
  "pad_left n s = replicate (n - length s) CHR '' '' @ s"

definition pad_right :: "nat \<Rightarrow> string \<Rightarrow> string" where
  "pad_right n s = s @ replicate (n - length s) CHR '' ''"

definition show_bool :: "bool \<Rightarrow> string" where
  "show_bool b = (if b then ''true'' else ''false'')"

definition quoted :: "string \<Rightarrow> string" where
  "quoted s = [CHR 0x22] @ s @ [CHR 0x22]"

section \<open>Messages\<close>

definition dns_print_header :: "dns_query \<Rightarrow> string" where
  "dns_print_header q =
     ''; Questions            = '' @ show_nat (length (dq_questions q)) @ [LF]
     @ ''; Answers              = '' @ show_nat (length (dq_answers q)) @ [LF]
     @ ''; Name Servers         = '' @ show_nat (length (dq_nameservers q)) @ [LF]
     @ ''; Additional Records   = '' @ show_nat (length (dq_additional q)) @ [LF]
     @ ''; Authoritative Result = '' @ show_bool (dq_aa q) @ [LF]
     @ ''; Truncated Result     = '' @ show_bool (dq_tc q) @ [LF]
     @ ''; Recursion Desired    = '' @ show_bool (dq_rd q) @ [LF]
     @ ''; Recursion Available  = '' @ show_bool (dq_ra q) @ [LF]
     @ ''; Authentic Data       = '' @ show_bool (dq_ad q) @ [LF]
     @ ''; Checking disabled    = '' @ show_bool (dq_cd q) @ [LF]
     @ ''; Result               = '' @ dns_rcode_text (dq_rcode q) @ [LF]"

definition print_tag :: "string \<Rightarrow> string" where
  "print_tag tag = [LF] @ '';;; '' @ tag @ [LF, LF]"

definition print_question_line :: "dns_question \<Rightarrow> string option" where
  "print_question_line q = map_option (\<lambda>nm. '';'' @ nm @ '' '' @ dns_class_text (qu_class q) @ '' '' @ dns_type_text (qu_type q) @ [LF]) (qu_name q)"

text \<open>The lines one after the other, until one faults.\<close>

fun print_all :: "('a \<Rightarrow> string option) \<Rightarrow> 'a list \<Rightarrow> string option" where
  "print_all f [] = Some []"
| "print_all f (x # xs) = do { l \<leftarrow> f x; ls \<leftarrow> print_all f xs; Some (l @ ls) }"

definition dns_print_question :: "string \<Rightarrow> dns_question list option \<Rightarrow> string option" where
  "dns_print_question tag pquest = do {
     qs \<leftarrow> pquest;
     ls \<leftarrow> print_all print_question_line qs;
     Some (print_tag tag @ ls) }"

definition show_ipv4 :: "string \<Rightarrow> string" where
  "show_ipv4 adr = concat (map (\<lambda>c. show_nat (octet c) @ ''.'') (take 3 adr)) @ concat (map (\<lambda>c. show_nat (octet c)) (drop 3 adr))"

text \<open>A long text in lines of 64 bytes; a line ends at a zero byte and is padded on the left.\<close>

function print_chunks :: "string \<Rightarrow> string" where
  "print_chunks tx =
     (if tx = [] then []
      else let mx = min 64 (length tx) in
        [LF, TAB] @ quoted (pad_left mx (cstr (take mx tx))) @ print_chunks (drop mx tx))"
  by pat_completeness auto
termination
  by (relation "measure length") auto

declare print_chunks.simps [simp del]

definition print_txt :: "string \<Rightarrow> string" where
  "print_txt tx = (if length tx < 30 then quoted (cstr tx) else ''('' @ print_chunks tx @ [LF, TAB, TAB] @ '')'' @ [LF])"

definition print_soa :: "dns_soa \<Rightarrow> string" where
  "print_soa soa =
     (let num = (\<lambda>v. [TAB, TAB] @ pad_left 10 (show_nat v)) in
      soa_mname soa @ '' '' @ soa_rname soa @ '' ('' @ [LF]
      @ num (soa_serial soa) @ ''   ; Serial'' @ [LF]
      @ num (soa_refresh soa) @ ''   ; Refresh'' @ [LF]
      @ num (soa_retry soa) @ ''   ; Retry'' @ [LF]
      @ num (soa_expire soa) @ ''   ; Expire'' @ [LF]
      @ num (soa_minimum soa) @ '' ) ; Miminum'' @ [LF])"

definition print_naptr :: "dns_naptr \<Rightarrow> string" where
  "print_naptr na =
     pad_left 5 (show_nat (na_order na)) @ '' '' @ pad_left 5 (show_nat (na_preference na)) @ '' ('' @ [LF]
     @ [TAB, TAB] @ quoted (na_flags na) @ [LF]
     @ [TAB, TAB] @ quoted (na_services na) @ [LF]
     @ [TAB, TAB] @ quoted (na_regexp na) @ [LF]
     @ [TAB, TAB] @ na_replacement na @ '' )'' @ [LF]"

definition print_angle :: "string \<Rightarrow> string \<Rightarrow> dnsgpos_angle \<Rightarrow> string" where
  "print_angle yes no a =
     pad_left 3 (int_toString (ang_deg a)) @ '' '' @ pad_left 2 (int_toString (ang_min a)) @ '' ''
     @ pad_left 2 (int_toString (ang_sec a)) @ '' '' @ (if ang_nw a then yes else no)"

definition print_loc :: "dns_loc \<Rightarrow> string" where
  "print_loc loc =
     ''('' @ [LF]
     @ [TAB, TAB] @ print_angle ''N'' ''S'' (loc_latitude loc) @ '' ; Latitude'' @ [LF]
     @ [TAB, TAB] @ print_angle ''W'' ''E'' (loc_longitude loc) @ '' ; Longitude'' @ [LF]
     @ [TAB, TAB] @ pad_left 11 (int_toString (loc_altitude loc)) @ '' ; Altitude'' @ [LF]
     @ [TAB, TAB] @ pad_left 11 (show_nat (loc_size loc)) @ '' ; Size'' @ [LF]
     @ [TAB, TAB] @ pad_left 11 (show_nat (loc_horiz_pre loc)) @ '' ; Horizontal Precision'' @ [LF]
     @ [TAB, TAB] @ pad_left 11 (show_nat (loc_vert_pre loc)) @ '' ; Vertical Precision'' @ [LF]
     @ [TAB, TAB] @ '')'' @ [LF]"

definition print_opt :: "dns_edns0opt \<Rightarrow> string" where
  "print_opt opt =
     [LF]
     @ '';'' @ [TAB] @ ''payload = '' @ show_nat (op_udp_payload opt) @ [LF]
     @ '';'' @ [TAB] @ ''DO      = '' @ show_bool (op_fdo opt) @ [LF]
     @ '';'' @ [TAB] @ ''#opts   = '' @ show_nat (length (op_opts opt)) @ [LF]"

text \<open>The switch over the type; a type it does not name prints nothing.\<close>

definition print_rdata :: "(string \<Rightarrow> string) \<Rightarrow> nat \<Rightarrow> rdata \<Rightarrow> string option" where
  "print_rdata ntop6 t d =
     (if t \<in> {RR_NS, RR_CNAME, RR_PTR} then (case d of RD_NAME nm \<Rightarrow> Some nm | _ \<Rightarrow> None)
      else if t = RR_A then (case d of RD_A adr \<Rightarrow> Some (show_ipv4 adr) | _ \<Rightarrow> None)
      else if t = RR_AAAA then (case d of RD_AAAA adr \<Rightarrow> Some (ntop6 adr) | _ \<Rightarrow> None)
      else if t = RR_MX then (case d of RD_MX pref x \<Rightarrow> Some (pad_left 5 (show_nat pref) @ '' '' @ x) | _ \<Rightarrow> None)
      else if t = RR_HINFO then (case d of RD_HINFO cpu os \<Rightarrow> Some (quoted cpu @ '' '' @ quoted os) | _ \<Rightarrow> None)
      else if t = RR_MINFO then
        (case d of RD_MINFO a b \<Rightarrow> Some (''('' @ [LF, TAB, TAB] @ quoted a @ [LF, TAB, TAB] @ quoted b @ '' )'') | _ \<Rightarrow> None)
      else if t \<in> {RR_SPF, RR_TXT} then (case d of RD_TXT tx \<Rightarrow> Some (print_txt tx) | _ \<Rightarrow> None)
      else if t = RR_SOA then (case d of RD_SOA soa \<Rightarrow> Some (print_soa soa) | _ \<Rightarrow> None)
      else if t = RR_NAPTR then (case d of RD_NAPTR na \<Rightarrow> Some (print_naptr na) | _ \<Rightarrow> None)
      else if t = RR_LOC then (case d of RD_LOC loc \<Rightarrow> Some (print_loc loc) | _ \<Rightarrow> None)
      else if t = RR_SRV then
        (case d of RD_SRV prio weight port target \<Rightarrow>
           Some (pad_left 5 (show_nat prio) @ '' '' @ pad_left 5 (show_nat weight) @ '' '' @ pad_left 5 (show_nat port) @ '' '' @ target)
         | _ \<Rightarrow> None)
      else if t = RR_OPT then (case d of RD_OPT opt \<Rightarrow> Some (print_opt opt) | _ \<Rightarrow> None)
      else Some [])"

definition print_answer_line :: "(string \<Rightarrow> string) \<Rightarrow> dns_answer \<Rightarrow> string option" where
  "print_answer_line ntop6 a = do {
     pre \<leftarrow> (if an_type a \<noteq> RR_OPT then
              map_option (\<lambda>nm. pad_right 16 nm @ [TAB] @ pad_left 5 (show_nat (an_ttl a)) @ [TAB] @ dns_class_text (an_class a) @ [TAB]
                @ dns_type_text (an_type a) @ [TAB]) (an_name a)
            else Some ''; OPT RR'');
     d \<leftarrow> print_rdata ntop6 (an_type a) (an_data a);
     Some (pre @ d @ [LF]) }"

definition dns_print_answer :: "(string \<Rightarrow> string) \<Rightarrow> string \<Rightarrow> dns_answer list option \<Rightarrow> string option" where
  "dns_print_answer ntop6 tag pans = do {
     as \<leftarrow> pans;
     ls \<leftarrow> print_all (print_answer_line ntop6) as;
     Some (print_tag tag @ ls) }"

text \<open>The arrays of a decoded message are never null, even when they are empty (\<open>decoded_arrays\<close> below).\<close>

definition dns_print_result :: "(string \<Rightarrow> string) \<Rightarrow> dns_query \<Rightarrow> string option" where
  "dns_print_result ntop6 q = do {
     qs \<leftarrow> dns_print_question ''QUESTIONS'' (Some (dq_questions q));
     as \<leftarrow> dns_print_answer ntop6 ''ANSWERS'' (Some (dq_answers q));
     ns \<leftarrow> dns_print_answer ntop6 ''NAMESERVERS'' (Some (dq_nameservers q));
     ar \<leftarrow> dns_print_answer ntop6 ''ADDITIONAL'' (Some (dq_additional q));
     Some (dns_print_header q @ qs @ as @ ns @ ar) }"

section \<open>Memory dumps\<close>

definition hex_lower :: "nat \<Rightarrow> char" where
  "hex_lower n = ''0123456789abcdef'' ! n"

definition hex_upper :: "nat \<Rightarrow> char" where
  "hex_upper n = ''0123456789ABCDEF'' ! n"

fun hex_digits :: "nat \<Rightarrow> string" where
  "hex_digits n = (if n < 16 then [hex_upper n] else hex_digits (n div 16) @ [hex_upper (n mod 16)])"

declare hex_digits.simps [simp del]

text \<open>The conversions \<open>%08lX\<close> and \<open>%02x\<close>.\<close>

definition show_offset :: "nat \<Rightarrow> string" where
  "show_offset n = (let s = hex_digits n in replicate (8 - length s) CHR ''0'' @ s)"

definition show_byte :: "char \<Rightarrow> string" where
  "show_byte c = [hex_lower (octet c div 16), hex_lower (octet c mod 16)]"

definition is_print :: "char \<Rightarrow> bool" where
  "is_print c \<longleftrightarrow> 32 \<le> octet c \<and> octet c \<le> 126"

definition LINESIZE :: nat where [simp]: "LINESIZE = 16"

definition dump_row :: "nat \<Rightarrow> string \<Rightarrow> string" where
  "dump_row offset row =
     (let skip = offset mod LINESIZE; j = skip + length row in
      show_offset offset @ '': '' @ concat (replicate skip ''   '') @ concat (map (\<lambda>c. show_byte c @ '' '') row)
      @ concat (replicate (LINESIZE - j) ''   '')
      @ replicate skip CHR '' '' @ map (\<lambda>c. if is_print c then c else CHR ''.'') row @ [LF])"

function dump_rows :: "string \<Rightarrow> nat \<Rightarrow> string" where
  "dump_rows block offset =
     (if block = [] then []
      else let n = min (LINESIZE - offset mod LINESIZE) (length block) in
        dump_row offset (take n block) @ dump_rows (drop n block) ((offset + n) mod 2 ^ 64))"
  by pat_completeness auto
termination
  by (relation "measure (\<lambda>(block, offset). length block)") auto

declare dump_rows.simps [simp del]

definition dns_dump_memory :: "string \<Rightarrow> nat \<Rightarrow> string option" where
  "dns_dump_memory block offset = (if block = [] then None else Some (dump_rows block offset))"

section \<open>Every decoded message can be printed\<close>

lemma print_all_total: "(\<And>x. x \<in> set xs \<Longrightarrow> \<exists>l. f x = Some l) \<Longrightarrow> \<exists>ls. print_all f xs = Some ls"
  by (induction xs) fastforce+

lemma print_rdata_total: "rdata_typed (rr_kind t) d \<Longrightarrow> \<exists>l. print_rdata ntop6 t d = Some l"
  by (cases d) (auto simp: print_rdata_def rr_kind_def rdata_typed_def split: if_split_asm)

lemma print_answer_total: "answer_typed a \<Longrightarrow> \<exists>l. print_answer_line ntop6 a = Some l"
  using print_rdata_total [of "an_type a" "an_data a" ntop6] by (auto simp: answer_typed_def print_answer_line_def)

lemma print_question_total: "question_typed q \<Longrightarrow> \<exists>l. print_question_line q = Some l"
  by (auto simp: question_typed_def print_question_line_def)

lemma print_result_total:
  assumes "query_typed q"
  shows "\<exists>out. dns_print_result ntop6 q = Some out"
proof -
  have a: "\<exists>out. dns_print_answer ntop6 tag (Some as) = Some out" if "list_all answer_typed as" for tag as
    using print_all_total [of as "print_answer_line ntop6"] print_answer_total that by (fastforce simp: dns_print_answer_def list_all_iff)
  have b: "\<exists>out. dns_print_question tag (Some qs) = Some out" if "list_all question_typed qs" for tag qs
    using print_all_total [of qs print_question_line] print_question_total that by (fastforce simp: dns_print_question_def list_all_iff)
  from assms have t: "list_all question_typed (dq_questions q)" "list_all answer_typed (dq_answers q)"
    "list_all answer_typed (dq_nameservers q)" "list_all answer_typed (dq_additional q)" by (auto simp: query_typed_def)
  obtain o1 o2 o3 o4 where "dns_print_question ''QUESTIONS'' (Some (dq_questions q)) = Some o1"
    "dns_print_answer ntop6 ''ANSWERS'' (Some (dq_answers q)) = Some o2" "dns_print_answer ntop6 ''NAMESERVERS'' (Some (dq_nameservers q)) = Some o3"
    "dns_print_answer ntop6 ''ADDITIONAL'' (Some (dq_additional q)) = Some o4"
    using b [OF t(1)] a [OF t(2)] a [OF t(3)] a [OF t(4)] by blast
  then show ?thesis by (simp add: dns_print_result_def)
qed

text \<open>With a result memory of whole words the allocation of an array of a decoded message never fails.\<close>

lemma alloc_aligned_ok: "n mod 8 = 0 \<Longrightarrow> alloc_struct n (k * 8) = Some (ok, m) \<Longrightarrow> m mod 8 = 0 \<and> (k = 0 \<longrightarrow> ok)"
  by (auto simp: alloc_struct_def align_memory_def bind_eq_Some_conv split: if_split_asm)

lemma decoded_arrays:
  assumes "alloc_arrays qd an ns ar n = Some (True, m)" and "n mod 8 = 0"
  shows "\<exists>n1 n2 n3. alloc_struct n (qd * SIZE_question) = Some (True, n1) \<and> alloc_struct n1 (an * SIZE_answer) = Some (True, n2)
    \<and> alloc_struct n2 (ns * SIZE_answer) = Some (True, n3) \<and> alloc_struct n3 (ar * SIZE_answer) = Some (True, m)"
proof -
  from assms(1) obtain a1 n1 a2 n2 a3 n3 a4 where s: "alloc_struct n (qd * 16) = Some (a1, n1)" "alloc_struct n1 (an * 96) = Some (a2, n2)"
    "alloc_struct n2 (ns * 96) = Some (a3, n3)" "alloc_struct n3 (ar * 96) = Some (a4, m)"
    and ok: "qd = 0 \<or> a1" "an = 0 \<or> a2" "ns = 0 \<or> a3" "ar = 0 \<or> a4"
    by (auto simp: alloc_arrays_def bind_eq_Some_conv)
  have m: "qd * 16 = 2 * qd * 8" "an * 96 = 12 * an * 8" "ns * 96 = 12 * ns * 8" "ar * 96 = 12 * ar * 8" by simp_all
  note a = alloc_aligned_ok [OF assms(2) s(1) [unfolded m]]
  note b = alloc_aligned_ok [OF conjunct1 [OF a] s(2) [unfolded m]]
  note c = alloc_aligned_ok [OF conjunct1 [OF b] s(3) [unfolded m]]
  note d = alloc_aligned_ok [OF conjunct1 [OF c] s(4) [unfolded m]]
  have "a1" "a2" "a3" "a4" using ok a b c d by auto
  with s show ?thesis by auto
qed

text \<open>
  (C23) The printer takes whatever the decoder returns: for every packet that decodes, no
  assertion of the printer fails and no string it prints is missing.
\<close>

theorem decoded_prints:
  assumes "dns_decode fpu prsize mem len = Some (Inr q)"
  shows "\<exists>out. dns_print_result ntop6 q = Some out"
  using decode_typed [OF assms] print_result_total by blast

theorem decoded_prints_witness: "\<exists>out. dns_print_result (\<lambda>_. []) sample_message = Some out"
proof -
  have "dns_decode fpu_zero 4096 sample_packet (length sample_packet) = Some (Inr sample_message)"
    using codec_inverse [OF sample_encodes sample_ok _ _ sample_cost, of "[]"] by simp
  then show ?thesis by (rule decoded_prints)
qed

section \<open>A dump shows every byte\<close>

text \<open>Reading a dump back: sixteen cells of two digits and a space behind the offset of a line.\<close>

definition hex_value :: "char \<Rightarrow> nat" where
  "hex_value c = (if octet c \<le> 57 then octet c - 48 else octet c - 87)"

fun read_cells :: "nat \<Rightarrow> string \<Rightarrow> string" where
  "read_cells 0 s = []"
| "read_cells (Suc k) s = (if take 2 s = ''  '' then read_cells k (drop 3 s)
     else char_of (16 * hex_value (s ! 0) + hex_value (s ! 1)) # read_cells k (drop 3 s))"

lemma after_line_shorter: "s \<noteq> [] \<Longrightarrow> length (dropWhile P s) - Suc 0 < length s"
  using length_dropWhile_le [of P s] by (cases s) auto

function undump :: "string \<Rightarrow> string" where
  "undump s = (if s = [] then []
     else read_cells LINESIZE (drop 2 (dropWhile (\<lambda>c. c \<noteq> CHR '':'') (takeWhile (\<lambda>c. c \<noteq> LF) s)))
       @ undump (drop 1 (dropWhile (\<lambda>c. c \<noteq> LF) s)))"
  by pat_completeness auto
termination
  by (relation "measure length") (auto simp: after_line_shorter)

declare undump.simps [simp del]

lemma hex_lower_value: "n < 16 \<Longrightarrow> hex_value (hex_lower n) = n \<and> hex_lower n \<noteq> CHR '' '' \<and> hex_lower n \<noteq> LF"
proof -
  have "\<forall>n\<in>{0..<16}. hex_value (hex_lower n) = n \<and> hex_lower n \<noteq> CHR '' '' \<and> hex_lower n \<noteq> LF"
    by (simp add: atLeastLessThan_nat_numeral hex_value_def hex_lower_def octet_def)
  then show "n < 16 \<Longrightarrow> hex_value (hex_lower n) = n \<and> hex_lower n \<noteq> CHR '' '' \<and> hex_lower n \<noteq> LF" by simp
qed

lemma hex_upper_clean: "n < 16 \<Longrightarrow> hex_upper n \<noteq> CHR '':'' \<and> hex_upper n \<noteq> LF"
proof -
  have "\<forall>n\<in>{0..<16}. hex_upper n \<noteq> CHR '':'' \<and> hex_upper n \<noteq> LF"
    by (simp add: atLeastLessThan_nat_numeral hex_upper_def)
  then show "n < 16 \<Longrightarrow> hex_upper n \<noteq> CHR '':'' \<and> hex_upper n \<noteq> LF" by simp
qed

lemma show_offset_clean: "CHR '':'' \<notin> set (show_offset n) \<and> LF \<notin> set (show_offset n)"
proof -
  have "CHR '':'' \<notin> set (hex_digits n) \<and> LF \<notin> set (hex_digits n)"
  proof (induction n rule: hex_digits.induct)
    case (1 n)
    then show ?case
      using hex_upper_clean [of n, THEN conjunct1, THEN not_sym] hex_upper_clean [of n, THEN conjunct2, THEN not_sym]
        hex_upper_clean [of "n mod 16", THEN conjunct1, THEN not_sym] hex_upper_clean [of "n mod 16", THEN conjunct2, THEN not_sym]
      by (subst (1 2) hex_digits.simps) simp
  qed
  then show ?thesis by (auto simp: show_offset_def Let_def)
qed

lemma nibbles: "octet c div 16 < 16" "octet c mod 16 < 16"
  using octet_less [of c] by (simp_all add: div_less_iff_less_mult)

lemma show_byte_clean: "LF \<notin> set (show_byte c)"
  using hex_lower_value [OF nibbles(1), of c] hex_lower_value [OF nibbles(2), of c] unfolding show_byte_def set_simps insert_iff empty_iff by metis

lemma read_blank_cells: "read_cells (k + n) (concat (replicate k ''   '') @ s) = read_cells n s"
  by (induction k) (auto simp: numeral_2_eq_2 numeral_3_eq_3)

lemma read_byte_cells: "read_cells (length row + n) (concat (map (\<lambda>c. show_byte c @ '' '') row) @ s) = row @ read_cells n s"
proof (induction row)
  case (Cons c row)
  note h = hex_lower_value [OF nibbles(1)] hex_lower_value [OF nibbles(2)]
  have "16 * (octet c div 16) + octet c mod 16 = octet c" by simp
  then show ?case using Cons h by (simp add: show_byte_def numeral_2_eq_2 numeral_3_eq_3)
qed simp

lemma undump_row:
  assumes "offset mod 16 + length row \<le> 16"
  shows "undump (dump_row offset row @ s) = row @ undump s"
proof -
  let ?skip = "offset mod 16"
  define cells where "cells = concat (replicate ?skip ''   '') @ concat (map (\<lambda>c. show_byte c @ '' '') row)
      @ concat (replicate (16 - (?skip + length row)) ''   '')"
  define tail where "tail = replicate ?skip CHR '' '' @ map (\<lambda>c. if is_print c then c else CHR ''.'') row"
  define line where "line = show_offset offset @ CHR '':'' # CHR '' '' # cells @ tail"
  have row: "dump_row offset row = line @ [LF]" by (simp add: dump_row_def Let_def line_def cells_def tail_def)
  have "LF \<notin> set cells" "LF \<notin> set tail"
    using show_byte_clean by (auto simp: cells_def tail_def is_print_def octet_def)
  then have lf: "LF \<notin> set line" using show_offset_clean by (auto simp: line_def)
  have t: "takeWhile (\<lambda>c. c \<noteq> LF) (line @ LF # s) = line" "dropWhile (\<lambda>c. c \<noteq> LF) (line @ LF # s) = LF # s"
    using lf by (auto simp: takeWhile_append dropWhile_append takeWhile_eq_all_conv)
  have c: "dropWhile (\<lambda>c. c \<noteq> CHR '':'') line = CHR '':'' # CHR '' '' # cells @ tail"
    using show_offset_clean [of offset] by (auto simp: line_def dropWhile_append)
  have "read_cells (?skip + (length row + (16 - (?skip + length row) + 0))) (cells @ tail) = row"
    unfolding cells_def append_assoc read_blank_cells read_byte_cells by simp
  then have r: "read_cells 16 (cells @ tail) = row" using assms by simp
  show ?thesis
    by (subst undump.simps) (simp add: row t c r)
qed

lemma undump_rows: "undump (dump_rows block offset) = block"
proof (induction block offset rule: dump_rows.induct)
  case (1 block offset)
  show ?case
  proof (cases "block = []")
    case True
    then show ?thesis by (simp add: dump_rows.simps [of "[]"] undump.simps [of "[]"])
  next
    case False
    define n where "n = min (16 - offset mod 16) (length block)"
    have "offset mod 16 + length (take n block) \<le> 16" by (simp add: n_def)
    moreover have "undump (dump_rows (drop n block) ((offset + n) mod 2 ^ 64)) = drop n block"
      by (rule 1 [OF False]) (simp add: n_def)
    ultimately show ?thesis
      using False by (simp add: dump_rows.simps [of block offset] n_def [symmetric] undump_row Let_def)
  qed
qed

text \<open>
  (C26) A memory dump is complete: reading the cells of its lines gives back exactly the bytes
  dumped, wherever in a line the dump starts, and every block but the empty one, on which an
  assertion fails, is dumped.
\<close>

theorem dump_roundtrip:
  "map_option undump (dns_dump_memory block offset) = (if block = [] then None else Some block)"
  by (simp add: dns_dump_memory_def undump_rows)

end
