(* ===== verification/Net_Misc.thy ===== *)
theory Net_Misc
  imports Net_Socket Dns_Output
begin

text \<open>
  The printing routines of src/utils.c and src/netUtils.c, as the text they write to standard
  output, and the routines of netUtils.c that the program has but does not call: datagrams to an
  address and the address of an interface.
\<close>

section \<open>Printing\<close>

text \<open>The walk of \<open>map_forEach\<close>, whose static variable is the list from the last item on.\<close>

fun print_items :: "(string \<times> string) list \<Rightarrow> string" where
  "print_items [] = []"
| "print_items (i # is) = ''[ '' @ fst i @ '' = '' @ snd i @ '' ]'' @ [LF]
     @ (case map_forEach None (i # is) of (None, _) \<Rightarrow> [] | (Some j, it) \<Rightarrow> print_items is)"

definition map_print :: "string Map \<Rightarrow> string" where
  "map_print m = print_items (snd (map_forEach (Some m) []))"

text \<open>The data of a buffer is printed as a string, although nothing terminates it.\<close>

definition buffer_print :: "Buffer \<Rightarrow> string option" where
  "buffer_print b = do {
     n \<leftarrow> str_len (buf_data b);
     Some (''<Buffer['' @ int_toString (buf_size b) @ '']>'' @ [LF] @ '' Free space: '' @ int_toString (buffer_getFreeSpace b)
       @ '', Capacity: '' @ int_toString (buf_capacity b) @ '', Current start: '' @ int_toString (buf_startIndex b) @ '' '' @ [LF]
       @ '' ['' @ take (nat n) (buf_data b) @ '']'') }"

text \<open>A char is signed: one with the top bit set is printed as the 32-bit number it is extended to.\<close>

definition show_char_hex :: "char \<Rightarrow> string" where
  "show_char_hex c = (if octet c < 128 then show_byte c else ''ffffff'' @ show_byte c)"

fun print_hex_loop :: "nat \<Rightarrow> char block \<Rightarrow> int \<Rightarrow> string option" where
  "print_hex_loop 0 str i = Some [LF]"
| "print_hex_loop (Suc n) str i = do {
     c \<leftarrow> rd str i;
     out \<leftarrow> print_hex_loop n str (i + 1);
     Some (show_char_hex c @ '' '' @ out) }"

definition print_hex :: "char block \<Rightarrow> int \<Rightarrow> string option" where
  "print_hex str len = print_hex_loop (nat len) str 0"

fun print_buff_loop :: "nat \<Rightarrow> char block \<Rightarrow> int \<Rightarrow> string option" where
  "print_buff_loop 0 str i = Some [LF]"
| "print_buff_loop (Suc n) str i = do {
     c \<leftarrow> rd str i;
     out \<leftarrow> print_buff_loop n str (i + 1);
     Some (c # out) }"

definition print_buff :: "char block \<Rightarrow> int \<Rightarrow> string option" where
  "print_buff str len = print_buff_loop (nat len) str 0"

definition ipAddr_print :: "os \<Rightarrow> sockaddr \<Rightarrow> string" where
  "ipAddr_print os ip = ipAddr_toString os ip @ [LF]"

section \<open>Datagrams and interfaces\<close>

text \<open>
  The answers of \<open>sendto\<close> are given like those of \<open>write\<close>; when they are used up it sends all
  that is left.  A datagram is one call, so a short answer splits the data.
\<close>

fun udp_write_loop :: "sockaddr \<Rightarrow> string \<Rightarrow> int list \<Rightarrow> int \<Rightarrow> int \<times> (sockaddr \<times> string) list \<times> int list" where
  "udp_write_loop dst data [] nbytes =
     (if data = [] then (nbytes, [], []) else (nbytes + int (length data), [(dst, data)], []))"
| "udp_write_loop dst data (k # ks) nbytes =
     (if data = [] then (nbytes, [], k # ks)
      else if k < 0 then (- 1, [], ks)
      else let d = take (nat k) data;
               (r, sent, ks') = udp_write_loop dst (drop (nat k) data) ks (nbytes + int (length d))
           in (r, (dst, d) # sent, ks'))"

definition udp_write :: "sock_ptr \<Rightarrow> sockaddr \<Rightarrow> string \<Rightarrow> hn \<Rightarrow> (int \<times> hn) option" where
  "udp_write p dst data st = do {
     s \<leftarrow> the_sock st p;
     let (r, sent, ks) = udp_write_loop dst data (wscript st (fd s)) 0;
     Some (r, st\<lparr>wscript := (wscript st)(fd s := ks), udp_sent := udp_sent st @ sent\<rparr>) }"

text \<open>The result of the query is compared with the argument instead of being copied to it.\<close>

definition getLocalIpAddr :: "sockaddr \<Rightarrow> hn \<Rightarrow> int \<times> sockaddr \<times> hn" where
  "getLocalIpAddr ip st =
     (let (n, st1) = (case udp_opens st of [] \<Rightarrow> (- 1, st) | (f, ok) # us \<Rightarrow> (f, st\<lparr>udp_opens := us\<rparr>))
      in (0, ip, st1\<lparr>closedFds := closedFds st1 @ [n]\<rparr>))"

definition ipAddr_isLocal :: "sockaddr \<Rightarrow> bool" where
  "ipAddr_isLocal ip = True"

section \<open>What they do\<close>

lemma print_items_all: "print_items is = concat (map (\<lambda>i. ''[ '' @ fst i @ '' = '' @ snd i @ '' ]'' @ [LF]) is)"
proof (induction "is")
  case (Cons i "is")
  then show ?case by (cases "is") (simp_all add: map_forEach_def)
qed simp

text \<open>Every item of the map is printed, the last one set first.\<close>

lemma map_print_all: "map_print m = concat (map (\<lambda>i. ''[ '' @ fst i @ '' = '' @ snd i @ '' ]'' @ [LF]) (map_start m))"
  by (simp add: map_print_def print_items_all map_forEach_def split: list.split)

lemma buffer_print_unterminated: "NUL \<notin> set (buf_data b) \<Longrightarrow> buffer_print b = None"
  by (auto simp: buffer_print_def str_len_def)

lemma print_hex_loop_bytes:
  "k + n \<le> length str \<Longrightarrow> print_hex_loop n str (int k) = Some (concat (map (\<lambda>c. show_char_hex c @ '' '') (take n (drop k str))) @ [LF])"
proof (induction n arbitrary: k)
  case (Suc n)
  have "print_hex_loop n str (int (Suc k)) = Some (concat (map (\<lambda>c. show_char_hex c @ '' '') (take n (drop (Suc k) str))) @ [LF])"
    using Suc.prems by (intro Suc.IH) simp
  moreover have "take (Suc n) (drop k str) = str ! k # take n (drop (Suc k) str)"
    using Suc.prems by (simp add: Cons_nth_drop_Suc [symmetric])
  ultimately show ?case using Suc.prems by (simp add: add.commute)
qed simp

lemma print_buff_loop_bytes: "k + n \<le> length str \<Longrightarrow> print_buff_loop n str (int k) = Some (take n (drop k str) @ [LF])"
proof (induction n arbitrary: k)
  case (Suc n)
  have "print_buff_loop n str (int (Suc k)) = Some (take n (drop (Suc k) str) @ [LF])"
    using Suc.prems by (intro Suc.IH) simp
  moreover have "take (Suc n) (drop k str) = str ! k # take n (drop (Suc k) str)"
    using Suc.prems by (simp add: Cons_nth_drop_Suc [symmetric])
  ultimately show ?case using Suc.prems by (simp add: add.commute)
qed simp

lemma print_bytes:
  assumes "n \<le> length str"
  shows "print_buff str (int n) = Some (take n str @ [LF])"
    and "print_hex str (int n) = Some (concat (map (\<lambda>c. show_char_hex c @ '' '') (take n str)) @ [LF])"
  using print_buff_loop_bytes [of 0 n str] print_hex_loop_bytes [of 0 n str] assms by (simp_all add: print_buff_def print_hex_def)

lemma udp_write_loop_sends:
  "udp_write_loop dst data ks n = (r, sent, ks') \<Longrightarrow> 0 \<le> n \<Longrightarrow> 0 \<le> r \<Longrightarrow>
     r = n + int (length data) \<and> concat (map snd sent) = data \<and> (\<forall>d\<in>set sent. fst d = dst)"
proof (induction dst data ks n arbitrary: r sent ks' rule: udp_write_loop.induct)
  case (2 dst data k ks nbytes)
  show ?case
  proof (cases "data = [] \<or> k < 0")
    case True
    with 2 show ?thesis by (auto split: if_splits)
  next
    case False
    let ?d = "take (nat k) data"
    obtain r1 s1 k1 where u: "udp_write_loop dst (drop (nat k) data) ks (nbytes + int (length ?d)) = (r1, s1, k1)"
      by (cases "udp_write_loop dst (drop (nat k) data) ks (nbytes + int (length ?d))")
    with False 2(2) have e: "r = r1" "sent = (dst, ?d) # s1" by auto
    have "r1 = nbytes + int (length ?d) + int (length (drop (nat k) data)) \<and> concat (map snd s1) = drop (nat k) data \<and> (\<forall>d\<in>set s1. fst d = dst)"
      using False 2(3,4) e by (intro 2(1) [OF _ _ refl u]) auto
    then show ?thesis by (auto simp: e of_nat_diff)
  qed
qed (auto split: if_splits)

text \<open>When \<open>udp_write\<close> does not fail, the datagrams together are the data, all to the address given.\<close>

lemma udp_write_sends:
  assumes "udp_write p dst data st = Some (r, st')" and "0 \<le> r"
  shows "\<exists>ds. udp_sent st' = udp_sent st @ map (Pair dst) ds \<and> concat ds = data \<and> r = int (length data)"
proof -
  from assms(1) obtain s where s: "socks st p = Some s" by (auto simp: udp_write_def the_sock_def bind_eq_Some_conv)
  obtain r1 sent ks where u: "udp_write_loop dst data (wscript st (fd s)) 0 = (r1, sent, ks)"
    by (cases "udp_write_loop dst data (wscript st (fd s)) 0")
  with assms s have "r1 = r" and sent: "udp_sent st' = udp_sent st @ sent" by (auto simp: udp_write_def the_sock_def)
  with udp_write_loop_sends [OF u] assms(2) have f: "r = int (length data)" "concat (map snd sent) = data" "\<forall>d\<in>set sent. fst d = dst" by auto
  from f(3) have "map (Pair dst) (map snd sent) = sent" by (induction sent) auto
  with f sent show ?thesis by (intro exI [of _ "map snd sent"]) simp
qed

text \<open>The address of the interface never reaches the caller.\<close>

lemma getLocalIpAddr_nothing: "fst (snd (getLocalIpAddr ip st)) = ip"
  by (simp add: getLocalIpAddr_def Let_def split: prod.split)

end
