(* ===== verification/Handshake.thy ===== *)
theory Handshake
  imports Protocol
begin

text \<open>
  Outgoing connections of src/homeNet.c: following an hn URL hop by hop, registering as a
  remote listener, answering a one-time password, querying, the retry policy, and the
  construction of a relay.  Integer results are the return codes of the source.
\<close>

section \<open>Following an hn URL\<close>

text \<open>\<open>charIndex\<close> over the whole string.\<close>

definition charIndex :: "string \<Rightarrow> char \<Rightarrow> int" where
  "charIndex str c = (if c \<in> set str then int (length (takeWhile (\<lambda>x. x \<noteq> c) str)) else - 1)"

text \<open>A URL part: the connection id (50 cells) and the password after a \<open>#\<close> (10 cells).\<close>

definition url_part :: "string \<Rightarrow> (string \<times> string) option" where
  "url_part first =
     (let i = charIndex first CHR ''#'' in
      if i > 0 then do {
        pw \<leftarrow> fits 10 (drop (nat i + 1) first);
        connId \<leftarrow> fits 50 (take (nat i) first);
        Some (connId, pw) }
      else do { connId \<leftarrow> fits 50 first; Some (connId, []) })"

definition strip_protocol :: "string \<Rightarrow> string" where
  "strip_protocol url = (if startsWith url ''hn://'' then drop 5 url else url)"

text \<open>
  Address of a connection id: literal address, then name service, then the mDNS store of the
  bridge.
\<close>

definition resolve_connId :: "os \<Rightarrow> string \<Rightarrow> bool \<Rightarrow> hn \<Rightarrow> sockaddr option option" where
  "resolve_connId os connId ctx st = do {
     (r, ip) \<leftarrow> str_toIpAddr os connId;
     let ip1 = (if r then Some ip else if isDomainName connId then dns_getIpAddr os connId else None);
     if ip1 = None \<and> ctx then getIpAddrForId connId st else Some ip1 }"

text \<open>
  Asking a registered listener for a reverse connection: the one-time password is sent to the
  listener and the caller's socket is entered as waiting.
\<close>

definition request_reverse :: "os \<Rightarrow> string \<Rightarrow> hn_ptr \<Rightarrow> hn \<Rightarrow> (bool \<times> hn) option" where
  "request_reverse os connId w st =
     (let (otp, st1) = generateCode os 8 st in do {
        l \<leftarrow> getListeningSock connId st1;
        case l of
          None \<Rightarrow> Some (False, st1)
        | Some h \<Rightarrow> do {
            hs \<leftarrow> the_hn st1 h;
            (r, b, st2) \<leftarrow> hn_sendMsg (hn_sock hs) (''LISTEN_OTP '' @ otp) st1;
            li \<leftarrow> fits ID_SIZE connId;
            st3 \<leftarrow> upd_hn w (\<lambda>hs. hs\<lparr>relay_listenId := li, relay_otp := otp, relay_isWaiting := True\<rparr>) st2;
            (a, st4) \<leftarrow> addWaitingSock connId otp w st3;
            Some (True, st4) } })"

text \<open>The loop over the remaining parts of the URL, on an open connection.\<close>

function connect_loop :: "os \<Rightarrow> sock_ptr \<Rightarrow> string \<Rightarrow> string \<Rightarrow> hn \<Rightarrow> (int \<times> hn) option" where
  "connect_loop os p rest passwordNext st =
     (case strtok ''/'' rest of
        (None, _) \<Rightarrow> Some (1, st)
      | (Some first, rest') \<Rightarrow> do {
          (connId, pwNext) \<leftarrow> url_part first;
          msg \<leftarrow> fits BUFF_SIZE (''HN1.0/CONNECT '' @ connId);
          (w, b, st1) \<leftarrow> hn_sendMsg p msg st;
          (r, b', st2) \<leftarrow> authSolve os [] p None None (Some passwordNext) st1;
          if \<not> r then Some (0, st2)
          else if startsWith b' ''CONNECTED'' then connect_loop os p rest' pwNext st2
          else Some (0, st2) })"
  by pat_completeness auto
termination
  by (relation "measure (\<lambda>(os, p, rest, pw, st). length rest)") (auto dest!: strtok_shorter [OF sym])

declare connect_loop.simps [simp del]

definition initializeConnect ::
  "os \<Rightarrow> string \<Rightarrow> sock_ptr \<Rightarrow> hn_ptr option \<Rightarrow> bool \<Rightarrow> hn \<Rightarrow> (int \<times> hn) option" where
  "initializeConnect os constUrl p waiting ctx st = do {
     s \<leftarrow> the_sock st p;
     let url = strip_protocol (removeChars constUrl '' '');
     (case strtok ''/'' url of
        (None, _) \<Rightarrow> Some (0, st)
      | (Some first, rest) \<Rightarrow> do {
          (connId, passwordNext) \<leftarrow> url_part first;
          ip \<leftarrow> resolve_connId os connId ctx st;
          (rev, st1) \<leftarrow>
            (case (waiting, ip) of
               (Some w, None) \<Rightarrow> if ctx then request_reverse os connId w st else Some (False, st)
             | _ \<Rightarrow> Some (False, st));
          if rev then Some (2, st1)
          else (case ip of
                  None \<Rightarrow> Some (0, st1)
                | Some a \<Rightarrow> do {
                    (ok, st2) \<leftarrow> createTcpConnection p a st1;
                    if \<not> ok then Some (0, st2)
                    else do {
                      st3 \<leftarrow> (case ptr s of
                                None \<Rightarrow> Some st2
                              | Some h \<Rightarrow> do {
                                  hst \<leftarrow> fits HOST_SIZE connId;
                                  upd_hn h (\<lambda>hs. hs\<lparr>host := hst\<rparr>) st2 });
                      connect_loop os p rest passwordNext st3 } }) }) }"

section \<open>Registering as a listener and answering an OTP\<close>

definition initializeListenNotify :: "os \<Rightarrow> string \<Rightarrow> string \<Rightarrow> string \<Rightarrow> sock_ptr \<Rightarrow> hn \<Rightarrow> (bool \<times> hn) option" where
  "initializeListenNotify os listenId salt url p st =
     (if listenId = [] then Some (False, st)
      else do {
        (r, st1) \<leftarrow> initializeConnect os url p None False st;
        if r \<noteq> 1 then Some (False, st1)
        else do {
          msg \<leftarrow> fits BUFF_SIZE (''HN1.0/LISTEN_NOTIFY '' @ listenId);
          (w, b, st2) \<leftarrow> hn_sendMsg p msg st1;
          (ok, b', st3) \<leftarrow> authSolve os [] p (Some listenId) (Some salt) None st2;
          if \<not> ok then Some (False, st3)
          else if startsWith b' ''LISTENING'' then
            (let id' = fst (strtok '' '' (snd (strtok '' '' b'))) in
             if id' \<noteq> None \<and> id' \<noteq> Some listenId then Some (False, st3)
             else do {
               s \<leftarrow> the_sock st3 p;
               st4 \<leftarrow> (case ptr s of
                         None \<Rightarrow> Some st3
                       | Some h \<Rightarrow> do {
                           i \<leftarrow> id';
                           i' \<leftarrow> fits ID_SIZE i;
                           sl \<leftarrow> fits ID_SIZE salt;
                           upd_hn h (\<lambda>hs. hs\<lparr>listen_listenId := i', listen_salt := sl, hn_mode := SOCK_MODE_LISTEN_OUT\<rparr>) st3 });
               Some (True, st4) })
          else Some (False, st3) } })"

definition initializeListenConn :: "os \<Rightarrow> string \<Rightarrow> string \<Rightarrow> string \<Rightarrow> sock_ptr \<Rightarrow> hn \<Rightarrow> (bool \<times> hn) option" where
  "initializeListenConn os listenId otp url p st = do {
     (r, st1) \<leftarrow> initializeConnect os url p None False st;
     if r \<noteq> 1 then Some (False, st1)
     else do {
       msg \<leftarrow> fits BUFF_SIZE (''HN1.0/LISTEN_CONNECT '' @ listenId @ '' '' @ otp);
       (w, b, st2) \<leftarrow> hn_sendMsg p msg st1;
       (n, b', st3) \<leftarrow> hn_receiveMsg os p st2;
       Some (n > 0 \<and> startsWith b' ''CONNECTED'', st3) } }"

section \<open>Querying\<close>

text \<open>One response line; \<open>None\<close> inside when key or name is missing.\<close>

definition query_record :: "string \<Rightarrow> string Map option option" where
  "query_record buff =
     (let (_, r1) = strtok '' '' buff; (key, r2) = strtok '' '' r1; (nm, _) = strtok [LF] r2;
          (_, s1) = strtok [LF] buff; (dat, _) = strtok [LF] s1
      in case (key, nm) of
           (Some k, Some n) \<Rightarrow> do {
             m1 \<leftarrow> map_put True map_init ''name'' n;
             m2 \<leftarrow> map_put True m1 ''key'' k;
             m3 \<leftarrow> (case dat of None \<Rightarrow> Some m2 | Some d \<Rightarrow> map_put True m2 ''data'' d);
             Some (Some m3) }
         | _ \<Rightarrow> Some None)"

text \<open>
  The response loop.  When a record lacks key or name the buffer has been cut after its first
  word, so the next test fails and the routine returns 0.
\<close>

fun query_loop :: "os \<Rightarrow> nat \<Rightarrow> int \<Rightarrow> string \<Rightarrow> sock_ptr \<Rightarrow> string Map list \<Rightarrow> hn \<Rightarrow> (string Map list \<times> hn) option" where
  "query_loop os 0 r buff p recs st = Some (recs, st)"
| "query_loop os (Suc n) r buff p recs st =
     (if r \<le> 0 then Some (recs, st)
      else if startsWith buff ''QUERY_RESPONSE '' then do {
        q \<leftarrow> query_record buff;
        case q of
          None \<Rightarrow> Some ([], st)
        | Some rec \<Rightarrow> do {
            (r', b, st') \<leftarrow> hn_receiveMsg os p st;
            query_loop os n r' b p (recs @ [rec]) st' } }
      else Some ([], st))"

definition initializeQuery :: "os \<Rightarrow> nat \<Rightarrow> string \<Rightarrow> string \<Rightarrow> string \<Rightarrow> sock_ptr \<Rightarrow> hn \<Rightarrow> (string Map list \<times> hn) option" where
  "initializeQuery os mx nm url pass p st = do {
     (r, st1) \<leftarrow> initializeConnect os url p None False st;
     if r \<noteq> 1 then Some ([], st1)
     else do {
       msg \<leftarrow> fits BUFF_SIZE (''HN1.0/QUERY '' @ nm);
       (w, b, st2) \<leftarrow> hn_sendMsg p msg st1;
       (ok, b', st3) \<leftarrow> authSolve os [] p None None (Some pass) st2;
       if \<not> ok then Some ([], st3) else query_loop os mx 1 b' p [] st3 } }"

section \<open>The retry policy\<close>

definition getNextRetry :: "int \<Rightarrow> int \<Rightarrow> int" where
  "getNextRetry retryCount lastRetry =
     (if retryCount < 2 then lastRetry
      else if retryCount < 5 then lastRetry + 60
      else if retryCount < 10 then lastRetry + 60 * 5
      else lastRetry + 60 * 30)"

text \<open>The clock is read up to three times; the second reading only feeds a log line.\<close>

definition tryRLStart :: "os \<Rightarrow> hn \<Rightarrow> (sock_ptr option \<times> hn) option" where
  "tryRLStart os st = do {
     b \<leftarrow> bridge (conf st);
     let c = br_context b;
     (if rlSock c \<noteq> None then Some (rlSock c, st)
      else if br_rlUrl b = [] then Some (None, st)
      else
        (let (t, st1) = os_time os st in
         if t < getNextRetry (rlRetries c) (rlLastRetry c) then Some (None, snd (os_time os st1))
         else
           (let (t', st2) = os_time os st1 in do {
              st3 \<leftarrow> set_ctx (c\<lparr>rlLastRetry := t'\<rparr>) st2;
              let (p, st4) = createTcpSocket st3;
              (h, st5) \<leftarrow> hn_sockInit p SOCK_MODE_LISTEN_OUT False st4;
              (ok, st6) \<leftarrow> initializeListenNotify os (br_rlId b) (br_rlPass b) (br_rlUrl b) p st5;
              c' \<leftarrow> get_ctx st6;
              if \<not> ok then do { st7 \<leftarrow> set_ctx (c'\<lparr>rlRetries := rlRetries c' + 1\<rparr>) st6; Some (None, st7) }
              else do { st7 \<leftarrow> set_ctx (c'\<lparr>rlRetries := 0, rlSock := Some p\<rparr>) st6; Some (Some p, st7) } }))) }"

section \<open>Relays\<close>

text \<open>The result is the return code and the new peer socket.\<close>

definition createRelay :: "os \<Rightarrow> sock_ptr \<Rightarrow> string \<Rightarrow> bool \<Rightarrow> hn \<Rightarrow> (int \<times> sock_ptr option \<times> hn) option" where
  "createRelay os p connUrl ctx st = do {
     (h, st1) \<leftarrow> hn_sockInit p SOCK_MODE_RELAY True st;
     let (n, st2) = createTcpSocket st1;
     (hn, st3) \<leftarrow> hn_sockInit n SOCK_MODE_RELAY False st2;
     (r, st4) \<leftarrow> initializeConnect os connUrl n (Some h) ctx st3;
     if r = 1 then do {
       st5 \<leftarrow> upd_hn h (\<lambda>hs. hs\<lparr>relay_next := Some n, relay_isWaiting := False\<rparr>) st4;
       st6 \<leftarrow> upd_hn hn (\<lambda>hs. hs\<lparr>relay_next := Some p, relay_isWaiting := False\<rparr>) st5;
       Some (1, Some n, st6) }
     else if r = 2 then do { st5 \<leftarrow> sock_destroy n False st4; Some (2, None, st5) }
     else do { st5 \<leftarrow> sock_destroy n False st4; Some (0, None, st5) } }"

text \<open>The first part of the URL decides; a URL with no part makes the address parser read a null string.\<close>

definition connect_authRequired :: "os \<Rightarrow> string \<Rightarrow> hn \<Rightarrow> bool option" where
  "connect_authRequired os connUrl st =
     (if cf_mode (conf st) \<noteq> Some HN_MODE_BRIDGE then Some False
      else do {
        b \<leftarrow> bridge (conf st);
        if connectAuthLevel b = AUTH_LEVEL_NONE then Some False
        else if connectAuthLevel b = AUTH_LEVEL_ALL then Some True
        else do {
          first \<leftarrow> fst (strtok ''/'' (strip_protocol connUrl));
          connId \<leftarrow> fst (strtok ''#'' first);
          (r, ip) \<leftarrow> str_toIpAddr os connId;
          Some r } })"

end
