(* ===== verification/Bridge.thy ===== *)
theory Bridge
  imports Handshake Mdns
begin

text \<open>
  The event handlers of src/homeNet.c: a new connection, readable data, a closed socket, the
  periodic housekeeping and the dispatcher of the event loop.  Every handler is a function
  from state to state; \<open>None\<close> is a fault.
\<close>

section \<open>New connections\<close>

definition HTTP_TEXT :: string where
  "HTTP_TEXT =
     ''HTTP/1.1 200 OK'' @ CRLF @ ''Content-Type: text/html'' @ CRLF @ CRLF
     @ ''<html><body><h1>Welcome to HomeNet!</h1>You have reached a HomeNet bridge.</body></html>''"

definition add_sock :: "sock_ptr \<Rightarrow> hn \<Rightarrow> hn" where
  "add_sock p st = st\<lparr>sockList := list_add (sockList st) p\<rparr>"

text \<open>Make a socket non-blocking and put it on the watch list.\<close>

definition watch_sock :: "sock_ptr \<Rightarrow> hn \<Rightarrow> hn option" where
  "watch_sock p st = do { (r, st') \<leftarrow> sock_setNonBlocking p st; Some (add_sock p st') }"

definition reject :: "sock_ptr \<Rightarrow> hn \<Rightarrow> (bool \<times> hn) option" where
  "reject p st = do { st' \<leftarrow> sock_destroy p False st; Some (False, st') }"

definition accept_sock :: "sock_ptr \<Rightarrow> hn \<Rightarrow> (bool \<times> hn) option" where
  "accept_sock p st = do { st' \<leftarrow> watch_sock p st; Some (True, st') }"

definition second_word :: "string \<Rightarrow> string option" where
  "second_word buff = fst (strtok '' '' (snd (strtok '' '' buff)))"

definition third_word :: "string \<Rightarrow> string option" where
  "third_word buff = fst (strtok '' '' (snd (strtok '' '' (snd (strtok '' '' buff)))))"

definition new_listen_mode :: "os \<Rightarrow> sock_ptr \<Rightarrow> hn \<Rightarrow> (bool \<times> hn) option" where
  "new_listen_mode os p st = do {
     lm \<leftarrow> listen (conf st);
     (r, n, st1) \<leftarrow> createRelay os p (ls_connectUrl lm) False (st\<lparr>isRecall := False\<rparr>);
     case n of
       Some n' \<Rightarrow> if r \<noteq> 1 then reject p st1
                  else do { st2 \<leftarrow> watch_sock n' st1; accept_sock p st2 }
     | None \<Rightarrow> reject p st1 }"

definition new_connect :: "os \<Rightarrow> sock_ptr \<Rightarrow> string \<Rightarrow> hn \<Rightarrow> (bool \<times> hn) option" where
  "new_connect os p buff st =
     (case second_word buff of
        None \<Rightarrow> reject p st
      | Some connUrl \<Rightarrow> do {
          req \<leftarrow> connect_authRequired os connUrl st;
          (ok, st1) \<leftarrow>
            (if req then do {
               c \<leftarrow> get_ctx st;
               (v, b, st') \<leftarrow> authThrowChallenge os p (queryKeys c) st;
               Some (v, st') }
             else Some (True, st));
          if \<not> ok then reject p st1
          else do {
            (r, n, st2) \<leftarrow> createRelay os p connUrl True st1;
            if r = 0 then reject p st2
            else do {
              st3 \<leftarrow> (if r = 1 then do { (w, b, s) \<leftarrow> hn_sendMsg p ''CONNECTED'' st2; Some s } else Some st2);
              st4 \<leftarrow> (case n of None \<Rightarrow> Some st3 | Some n' \<Rightarrow> watch_sock n' st3);
              accept_sock p st4 } } })"

definition register_listener :: "sock_ptr \<Rightarrow> string \<Rightarrow> hn \<Rightarrow> (bool \<times> hn) option" where
  "register_listener p listenId st = do {
     (h, st1) \<leftarrow> hn_sockInit p SOCK_MODE_LISTEN True st;
     st2 \<leftarrow> upd_hn h (\<lambda>hs. hs\<lparr>listen_listenId := listenId\<rparr>) st1;
     c \<leftarrow> get_ctx st2;
     m \<leftarrow> map_put False (listeningSocks c) listenId h;
     st3 \<leftarrow> set_ctx (c\<lparr>listeningSocks := m\<rparr>) st2;
     (w, b, st4) \<leftarrow> hn_sendMsg p (''LISTENING '' @ listenId) st3;
     accept_sock p st4 }"

definition new_listen_notify :: "os \<Rightarrow> sock_ptr \<Rightarrow> string \<Rightarrow> hn \<Rightarrow> (bool \<times> hn) option" where
  "new_listen_notify os p buff st = do {
     id' \<leftarrow> second_word buff;
     listenId \<leftarrow> fits ID_SIZE id';
     b \<leftarrow> bridge (conf st);
     salt \<leftarrow> (if length listenId > 1 then getSaltForListenId os listenId st else Some None);
     case salt of
       Some s \<Rightarrow> do {
         subMap \<leftarrow> map_put False map_init listenId s;
         (v, bf, st1) \<leftarrow> authThrowChallenge os p subMap st;
         if \<not> v then reject p st1 else register_listener p listenId st1 }
     | None \<Rightarrow>
         if requireRLAuth b = 0 then (let (code, st1) = generateCode os 10 st in register_listener p code st1)
         else reject p st }"

text \<open>
  Completing a reverse connection.  The buffer of the first acknowledgement, with its
  terminator, is sent again to the waiting socket.
\<close>

definition new_listen_connect :: "os \<Rightarrow> sock_ptr \<Rightarrow> string \<Rightarrow> hn \<Rightarrow> (bool \<times> hn) option" where
  "new_listen_connect os p buff st =
     (case (second_word buff, third_word buff) of
        (Some listenId, Some otp) \<Rightarrow> do {
          w \<leftarrow> getWaitingSocket listenId otp st;
          case w of
            None \<Rightarrow> reject p st
          | Some wh \<Rightarrow> do {
              (r, st1) \<leftarrow> removeWaitingSocket listenId otp st;
              (h, st2) \<leftarrow> hn_sockInit p SOCK_MODE_RELAY True st1;
              ws \<leftarrow> the_hn st2 wh;
              st3 \<leftarrow> upd_hn h (\<lambda>hs. hs\<lparr>relay_next := Some (hn_sock ws), relay_isWaiting := False\<rparr>) st2;
              st4 \<leftarrow> upd_hn wh (\<lambda>hs. hs\<lparr>relay_next := Some p, relay_isWaiting := False\<rparr>) st3;
              (n1, b1, st5) \<leftarrow> hn_sendMsg p ''CONNECTED'' st4;
              (n2, b2, st6) \<leftarrow> hn_sendMsg (hn_sock ws) b1 st5;
              accept_sock p st6 } }
      | _ \<Rightarrow> reject p st)"

definition query_response :: "string \<times> MdnsRecord \<Rightarrow> string" where
  "query_response kr =
     ''QUERY_RESPONSE '' @ fst kr @ '' '' @ rec_name (snd kr) @ [LF]
     @ concat (map (\<lambda>(k, v). k @ ''='' @ v @ '';'') (map_start (rec_data (snd kr))))"

fun send_records :: "sock_ptr \<Rightarrow> (string \<times> MdnsRecord) list \<Rightarrow> hn \<Rightarrow> hn option" where
  "send_records p [] st = Some st"
| "send_records p (kr # krs) st = do {
     msg \<leftarrow> fits BUFF_SIZE (query_response kr);
     (w, b, st') \<leftarrow> hn_sendMsg p msg st;
     send_records p krs st' }"

definition new_query :: "os \<Rightarrow> sock_ptr \<Rightarrow> string \<Rightarrow> hn \<Rightarrow> (bool \<times> hn) option" where
  "new_query os p buff st = do {
     nm \<leftarrow> second_word buff;
     b \<leftarrow> bridge (conf st);
     (ok, st1) \<leftarrow>
       (if requireQueryAuth b \<noteq> 0 then do {
          (v, bf, st') \<leftarrow> authThrowChallenge os p (queryKeys (br_context b)) st;
          Some (v, st') }
        else Some (True, st));
     if \<not> ok then reject p st1
     else do {
       c \<leftarrow> get_ctx st1;
       recs \<leftarrow> getMdnsRecordsForName 10 nm (map_start (mdnsStore c));
       st2 \<leftarrow> send_records p recs st1;
       st3 \<leftarrow> sock_destroy p False st2;
       Some (True, st3) } }"

text \<open>
  The dispatcher.  An HTTP upgrade is answered once and the next message handled by a
  recursive call, which the static flag \<open>isRecall\<close> keeps from recurring.
\<close>

function handleNew :: "os \<Rightarrow> sock_ptr \<Rightarrow> hn \<Rightarrow> (bool \<times> hn) option" where
  "handleNew os p st =
     (if cf_mode (conf st) = Some HN_MODE_LISTEN then new_listen_mode os p st
      else do {
        (sb, st1) \<leftarrow> sock_setBlocking p st;
        sockTm \<leftarrow> sock_setTimeout p st1;
        (n, buff, st2) \<leftarrow> hn_receiveMsg os p st1;
        let st3 = st2\<lparr>isRecall := False\<rparr>;
        if startsWith buff ''HN1.0/CONNECT '' then new_connect os p buff st3
        else if startsWith buff ''HN1.0/LISTEN_NOTIFY'' then new_listen_notify os p buff st3
        else if startsWith buff ''HN1.0/LISTEN_CONNECT '' then new_listen_connect os p buff st3
        else if startsWith buff ''HN1.0/QUERY '' \<and> cf_mode (conf st2) = Some HN_MODE_BRIDGE then new_query os p buff st3
        else do {
          (isHttp, req) \<leftarrow> parseHttpRequest buff;
          if isHttp \<and> map_get (req_headers req) ''Upgrade'' = Some ''websocket'' \<and> \<not> isRecall st then do {
            (w, st4) \<leftarrow> sock_write p writeUpgradeResponse st2;
            handleNew os p (st4\<lparr>isRecall := True\<rparr>) }
          else if isHttp then do {
            (w, st4) \<leftarrow> sock_write p HTTP_TEXT st2;
            reject p (st4\<lparr>isRecall := False\<rparr>) }
          else do {
            (w, b, st4) \<leftarrow> hn_sendMsg p ''BAD_REQUEST'' st2;
            reject p (st4\<lparr>isRecall := False\<rparr>) } } })"
  by pat_completeness auto
termination
  by (relation "measure (\<lambda>(os, p, st). if isRecall st then 0 else 1)") auto

declare handleNew.simps [simp del]

section \<open>Bytes that are still to come\<close>

fun answer_size :: "recv_answer \<Rightarrow> nat" where
  "answer_size (Recv d) = length d"
| "answer_size _ = 0"

definition inbox_size :: "hn \<Rightarrow> int \<Rightarrow> nat" where
  "inbox_size st f = sum_list (map answer_size (inbox st f))"

text \<open>Two states in which every socket of the first is still there with its descriptor.\<close>

definition same_fds :: "hn \<Rightarrow> hn \<Rightarrow> bool" where
  "same_fds st st' \<longleftrightarrow> (\<forall>p s. socks st p = Some s \<longrightarrow> (\<exists>s'. socks st' p = Some s' \<and> fd s' = fd s))"

lemma same_fds_refl [simp]: "same_fds st st"
  by (simp add: same_fds_def)

lemma same_fds_trans: "same_fds a b \<Longrightarrow> same_fds b c \<Longrightarrow> same_fds a c"
  unfolding same_fds_def by metis

lemma upd_sock_same_fds:
  assumes "upd_sock p f st = Some st'" and "\<And>s. fd (f s) = fd s"
  shows "same_fds st st' \<and> inbox st' = inbox st"
  using assms by (auto simp: upd_sock_def same_fds_def split: option.splits)

lemma sock_close_frame: "sock_close p st = Some (r, st') \<Longrightarrow> same_fds st st' \<and> inbox st' = inbox st"
proof -
  assume "sock_close p st = Some (r, st')"
  then consider "st' = st" | st1 f where "upd_sock p (\<lambda>s. s\<lparr>isAlive := SOCKET_DEAD\<rparr>) st = Some st1"
    "st' = st1\<lparr>closedFds := closedFds st1 @ [f]\<rparr>"
    by (auto simp: sock_close_def bind_eq_Some_conv split: if_splits)
  then show ?thesis
  proof cases
    case 2
    with upd_sock_same_fds [OF 2(1)] show ?thesis by (simp add: same_fds_def)
  qed simp
qed

lemma os_write_frame: "os_write f d st = (w, st') \<Longrightarrow> socks st' = socks st \<and> inbox st' = inbox st"
  by (auto simp: os_write_def Let_def split: list.splits if_splits)

lemma write_loop_frame: "write_loop f d st = (n, l, st') \<Longrightarrow> socks st' = socks st \<and> inbox st' = inbox st"
proof (induction f d st arbitrary: n l st' rule: write_loop.induct)
  case (1 f d st)
  obtain w st1 where w: "os_write f d st = (w, st1)" by (cases "os_write f d st")
  from os_write_frame [OF w] 1 w show ?case
    by (auto simp: write_loop.simps [of f d st] Let_def split: if_splits prod.splits)
qed

lemma drain_frame: "drain p s st = Some st' \<Longrightarrow> same_fds st st' \<and> inbox st' = inbox st"
  by (auto simp: drain_def bind_eq_Some_conv Let_def same_fds_def upd_sock_def split: option.splits if_splits)

lemma sock_write_frame:
  assumes "sock_write p d st = Some (n, st')"
  shows "same_fds st st' \<and> inbox st' = inbox st"
proof -
  from assms obtain s where s: "socks st p = Some s" by (auto simp: sock_write_def the_sock_def bind_eq_Some_conv)
  consider "isAlive s = SOCKET_DEAD" | "isAlive s \<noteq> SOCKET_DEAD" "isBlocking s"
    | "isAlive s \<noteq> SOCKET_DEAD" "\<not> isBlocking s" "\<not> buffer_isEmpty (writeBuffer s)"
    | "isAlive s \<noteq> SOCKET_DEAD" "\<not> isBlocking s" "buffer_isEmpty (writeBuffer s)" by blast
  then show ?thesis
  proof cases
    case 1
    then show ?thesis using assms s by (simp add: sock_write_def the_sock_def)
  next
    case 2
    then show ?thesis using assms s write_loop_frame
      by (auto simp: sock_write_def the_sock_def same_fds_def split: prod.splits dest!: write_loop_frame)
  next
    case 3
    then show ?thesis using assms s drain_frame
      by (auto simp: sock_write_def the_sock_def bind_eq_Some_conv)
  next
    case 4
    obtain st1 where u: "upd_sock p (\<lambda>s. s\<lparr>listenForWritable := False\<rparr>) st = Some st1"
      using s by (simp add: upd_sock_def)
    obtain k l st2 where w: "write_loop (fd s) d st1 = (k, l, st2)" by (cases "write_loop (fd s) d st1")
    have r: "(if l \<noteq> [] then do {
          (stored, b) \<leftarrow> buffer_write (writeBuffer s) l (int (length l));
          st3 \<leftarrow> upd_sock p (\<lambda>s. s\<lparr>writeBuffer := b, listenForWritable := True\<rparr>) st2;
          Some (stored + k, st3) }
        else if isAlive s = SOCKET_WILLDIE then do { (r, st3) \<leftarrow> sock_close p st2; Some (k, st3) }
        else Some (k, st2)) = Some (n, st')"
      using assms s 4 u w by (simp add: sock_write_def the_sock_def)
    have f1: "same_fds st st2" "inbox st2 = inbox st"
      using upd_sock_same_fds [OF u] write_loop_frame [OF w] by (simp_all add: same_fds_def)
    have "same_fds st2 st' \<and> inbox st' = inbox st2"
      using r by (auto simp: bind_eq_Some_conv split: if_splits
          dest!: sock_close_frame upd_sock_same_fds)
    with f1 same_fds_trans show ?thesis by metis
  qed
qed

lemma os_recv_consumes:
  assumes "os_recv f mx st = (rc, d, ag, st')"
  shows "socks st' = socks st \<and> inbox_size st' f + length d = inbox_size st f \<and> (0 < rc \<longrightarrow> rc = int (length d))"
proof (cases "inbox st f")
  case Nil
  then show ?thesis using assms by (auto simp: os_recv_def)
next
  case (Cons a as)
  then show ?thesis using assms
    by (cases a) (auto simp: os_recv_def Let_def inbox_size_def split: if_splits)
qed

lemma sock_close_inbox_size: "sock_close p st = Some (r, st') \<Longrightarrow> inbox_size st' f = inbox_size st f"
  using sock_close_frame by (simp add: inbox_size_def)

lemma read_loop_consumes:
  "read_loop p f mx st = Some (d, st') \<Longrightarrow> same_fds st st' \<and> inbox_size st' f + length d = inbox_size st f"
proof (induction p f mx st arbitrary: d st' rule: read_loop.induct)
  case (1 p f mx st)
  show ?case
  proof (cases "mx = 0")
    case True
    with 1(2) show ?thesis by (simp add: read_loop.simps [of p f 0 st])
  next
    case False
    obtain rc d1 ag st1 where o: "os_recv f mx st = (rc, d1, ag, st1)" by (cases "os_recv f mx st")
    note c = os_recv_consumes [OF o]
    have s1: "same_fds st st1" using c by (simp add: same_fds_def)
    show ?thesis
    proof (cases "rc \<le> 0")
      case True
      then have "d1 = []" using o by (auto simp: os_recv_def Let_def split: list.splits recv_answer.splits if_splits)
      from True 1(2) False o have "d = [] \<and> (st' = st1 \<or> (\<exists>r. sock_close p st1 = Some (r, st')))"
        by (auto simp: read_loop.simps [of p f mx st] bind_eq_Some_conv split: if_splits)
      with c s1 \<open>d1 = []\<close> show ?thesis
        using sock_close_frame sock_close_inbox_size same_fds_trans by fastforce
    next
      case rc: False
      with 1(2) False o obtain ds where l: "read_loop p f (mx - nat rc) st1 = Some (ds, st')" and d: "d = d1 @ ds"
        by (auto simp: read_loop.simps [of p f mx st] bind_eq_Some_conv)
      have "same_fds st1 st' \<and> inbox_size st' f + length ds = inbox_size st1 f"
        by (rule 1(1) [OF False o [symmetric] refl refl refl]) (use rc l in auto)
      with c s1 d show ?thesis using same_fds_trans by fastforce
    qed
  qed
qed

lemma sock_read_consumes:
  assumes "sock_read mx p st = Some (rc, d, st')" and "socks st p = Some s"
  shows "same_fds st st' \<and> inbox_size st' (fd s) + length d = inbox_size st (fd s) \<and> (0 < rc \<longrightarrow> d \<noteq> [])"
proof -
  consider "isAlive s = SOCKET_DEAD" | "isAlive s \<noteq> SOCKET_DEAD" "isBlocking s"
    | "isAlive s \<noteq> SOCKET_DEAD" "\<not> isBlocking s" by blast
  then show ?thesis
  proof cases
    case 1
    then show ?thesis using assms by (simp add: sock_read_def the_sock_def)
  next
    case 2
    then obtain ag where "os_recv (fd s) mx st = (rc, d, ag, st')"
      using assms by (auto simp: sock_read_def the_sock_def split: prod.splits)
    from os_recv_consumes [OF this] show ?thesis by (auto simp: same_fds_def)
  next
    case 3
    then have "read_loop p (fd s) mx st = Some (d, st')" "rc = int (length d)"
      using assms by (auto simp: sock_read_def the_sock_def bind_eq_Some_conv)
    with read_loop_consumes show ?thesis by auto
  qed
qed

section \<open>Readable sockets\<close>

definition sock_inbox :: "sock_ptr \<Rightarrow> hn \<Rightarrow> nat" where
  "sock_inbox p st = (case socks st p of None \<Rightarrow> 0 | Some s \<Rightarrow> inbox_size st (fd s))"

definition both_alive :: "sock_ptr \<Rightarrow> sock_ptr \<Rightarrow> hn \<Rightarrow> bool option" where
  "both_alive p n st = do {
     s \<leftarrow> the_sock st p;
     if isAlive s \<noteq> SOCKET_ALIVE then Some False
     else do { t \<leftarrow> the_sock st n; Some (isAlive t = SOCKET_ALIVE) } }"

lemma relay_step_decreases:
  assumes "sock_write n d st = Some (w, st1)" and "sock_read mx p st1 = Some (rc, d', st')"
    and "both_alive p n st = Some True"
  shows "sock_inbox p st' + length d' = sock_inbox p st"
proof -
  from assms(3) obtain s where s: "socks st p = Some s"
    by (auto simp: both_alive_def the_sock_def bind_eq_Some_conv)
  from sock_write_frame [OF assms(1)] s obtain s1 where s1: "socks st1 p = Some s1" "fd s1 = fd s"
    and i: "inbox st1 = inbox st" unfolding same_fds_def by blast
  note c = sock_read_consumes [OF assms(2) s1(1)]
  from c s1 obtain s2 where "socks st' p = Some s2" "fd s2 = fd s1" unfolding same_fds_def by blast
  with c s s1 i show ?thesis by (simp add: sock_inbox_def inbox_size_def)
qed

text \<open>The relay loop: write what was read, read again, as long as both ends are alive.\<close>

function relay_loop :: "sock_ptr \<Rightarrow> sock_ptr \<Rightarrow> int \<Rightarrow> string \<Rightarrow> hn \<Rightarrow> hn option" where
  "relay_loop p n bytesRead d st =
     (if \<not> (bytesRead > 0 \<and> d \<noteq> []) then Some st
      else case both_alive p n st of
             None \<Rightarrow> None
           | Some False \<Rightarrow> Some st
           | Some True \<Rightarrow> do {
               (w, st1) \<leftarrow> sock_write n d st;
               (rc, d', st2) \<leftarrow> sock_read BUFF_SIZE p st1;
               relay_loop p n rc d' st2 })"
  by pat_completeness auto
termination
  by (relation "measure (\<lambda>(p, n, r, d, st). sock_inbox p st + length d)") (auto dest: relay_step_decreases)

declare relay_loop.simps [simp del]

definition read_relay :: "sock_ptr \<Rightarrow> hn_Socket \<Rightarrow> hn \<Rightarrow> (bool \<times> hn) option" where
  "read_relay p hs st =
     (case relay_next hs of
        None \<Rightarrow> do { (r, st') \<leftarrow> sock_done p st; Some (False, st') }
      | Some n \<Rightarrow>
          if relay_isWaiting hs then do { (r, st') \<leftarrow> sock_done p st; Some (False, st') }
          else do {
            (rc, d, st1) \<leftarrow> sock_read BUFF_SIZE p st;
            st2 \<leftarrow> relay_loop p n rc d st1;
            Some (True, st2) })"

text \<open>
  A remote listener is told a one-time password: it connects back and hands the connection
  on.  The temporary hn socket is freed while the link from the socket to it stays.
\<close>

definition read_listen_out :: "os \<Rightarrow> sock_ptr \<Rightarrow> hn_Socket \<Rightarrow> hn \<Rightarrow> (bool \<times> hn) option" where
  "read_listen_out os p hs st = do {
     rlUrl \<leftarrow> (case cf_mode (conf st) of
                 Some HN_MODE_BRIDGE \<Rightarrow> map_option (\<lambda>b. Some (br_rlUrl b)) (bridge (conf st))
               | Some HN_MODE_REVERSE_LISTEN \<Rightarrow> map_option (\<lambda>r. Some (rl_rlUrl r)) (rl (conf st))
               | _ \<Rightarrow> Some None);
     (r, buff, st1) \<leftarrow> hn_receiveMsg os p st;
     if r \<le> 0 then Some (False, st1)
     else if startsWith buff ''PONG'' then Some (True, st1)
     else if \<not> startsWith buff ''LISTEN_OTP '' then Some (False, st1)
     else case second_word buff of
            None \<Rightarrow> Some (False, st1)
          | Some otp \<Rightarrow> do {
              let (c, st2) = createTcpSocket st1;
              (t, st3) \<leftarrow> hn_sockInit c SOCK_MODE_TEMP False st2;
              url \<leftarrow> rlUrl;
              (ok, st4) \<leftarrow> initializeListenConn os (listen_listenId hs) otp url c st3;
              if \<not> ok then do { st5 \<leftarrow> sock_destroy c False st4; Some (False, st5) }
              else do {
                st5 \<leftarrow> hn_sockCleanup t False st4;
                case cf_mode (conf st5) of
                  Some HN_MODE_BRIDGE \<Rightarrow> handleNew os c st5
                | Some HN_MODE_REVERSE_LISTEN \<Rightarrow> do {
                    rm \<leftarrow> rl (conf st5);
                    (q, n, st6) \<leftarrow> createRelay os c (rl_localIp rm) False st5;
                    case n of
                      Some n' \<Rightarrow> if q \<noteq> 1 then do { st7 \<leftarrow> sock_destroy c False st6; Some (False, st7) }
                                 else do { st7 \<leftarrow> watch_sock n' st6; st8 \<leftarrow> watch_sock c st7; Some (True, st8) }
                    | None \<Rightarrow> do { st7 \<leftarrow> sock_destroy c False st6; Some (False, st7) } }
                | _ \<Rightarrow> Some (False, st5) } } }"

definition read_listen :: "os \<Rightarrow> sock_ptr \<Rightarrow> hn \<Rightarrow> (bool \<times> hn) option" where
  "read_listen os p st = do {
     (r, buff, st1) \<leftarrow> hn_receiveMsg os p st;
     if r \<le> 0 then Some (False, st1)
     else if startsWith buff ''PING'' then do { (w, b, st2) \<leftarrow> hn_sendMsg p ''PONG'' st1; Some (True, st2) }
     else Some (False, st1) }"

definition handleRead :: "os \<Rightarrow> sock_ptr \<Rightarrow> hn \<Rightarrow> (bool \<times> hn) option" where
  "handleRead os p st = do {
     s \<leftarrow> the_sock st p;
     case ptr s of
       None \<Rightarrow> do { st' \<leftarrow> sock_readDump p st; Some (False, st') }
     | Some h \<Rightarrow> do {
         hs \<leftarrow> the_hn st h;
         case hn_mode hs of
           SOCK_MODE_RELAY \<Rightarrow> read_relay p hs st
         | SOCK_MODE_LISTEN_OUT \<Rightarrow> read_listen_out os p hs st
         | SOCK_MODE_LISTEN \<Rightarrow> read_listen os p st
         | SOCK_MODE_MDNS \<Rightarrow> do {
             b \<leftarrow> bridge (conf st);
             st' \<leftarrow> (if useMdns b \<noteq> 0 then handleMdnsRead os st else Some st);
             Some (False, st') }
         | SOCK_MODE_TEMP \<Rightarrow> do { st' \<leftarrow> sock_readDump p st; Some (False, st') } } }"

section \<open>Closed sockets, housekeeping, dispatch\<close>

datatype outcome = Running bool | Returned | Exited

text \<open>\<open>exit(1)\<close> ends the program; the loop frees the socket after this handler.\<close>

definition handleClose :: "sock_ptr \<Rightarrow> hn \<Rightarrow> (outcome \<times> hn) option" where
  "handleClose p st = do {
     s \<leftarrow> the_sock st p;
     let ctx = (cf_mode (conf st) = Some HN_MODE_BRIDGE);
     case ptr s of
       None \<Rightarrow> Some (Running False, st)
     | Some h \<Rightarrow> do {
         hs \<leftarrow> the_hn st h;
         case hn_mode hs of
           SOCK_MODE_RELAY \<Rightarrow> do { st' \<leftarrow> hn_sockCleanup h ctx st; Some (Running True, st') }
         | SOCK_MODE_LISTEN \<Rightarrow> do { st' \<leftarrow> hn_sockCleanup h ctx st; Some (Running True, st') }
         | SOCK_MODE_LISTEN_OUT \<Rightarrow>
             (if ctx then do {
                c \<leftarrow> get_ctx st;
                st' \<leftarrow> set_ctx (c\<lparr>rlSock := None, rlRetries := 0\<rparr>) st;
                Some (Running True, st') }
              else Some (Exited, st))
         | SOCK_MODE_MDNS \<Rightarrow> Some (Exited, st)
         | SOCK_MODE_TEMP \<Rightarrow> Some (Running True, st) } }"

definition refresh_mdns :: "os \<Rightarrow> hn \<Rightarrow> hn option" where
  "refresh_mdns os st = do {
     b \<leftarrow> bridge (conf st);
     if useMdns b = 0 then Some st
     else
       (let (t, st1) = os_time os st in
        if t - mdnsLastRefresh (br_context b) \<ge> REFRESH_INTERVAL_SECS then
          (let (t', st2) = os_time os st1 in do {
             c \<leftarrow> get_ctx st2;
             st3 \<leftarrow> set_ctx (c\<lparr>mdnsLastRefresh := t'\<rparr>) st2;
             sendMdnsQuery os MDNS_QUERY st3 })
        else Some st1) }"

definition retry_rl :: "os \<Rightarrow> hn \<Rightarrow> hn option" where
  "retry_rl os st = do {
     b \<leftarrow> bridge (conf st);
     if rlSock (br_context b) = None \<and> length (br_rlUrl b) > 1 then do {
       (r, st1) \<leftarrow> tryRLStart os st;
       case r of None \<Rightarrow> Some st1 | Some p \<Rightarrow> watch_sock p st1 }
     else Some st }"

definition ping_rl :: "os \<Rightarrow> hn \<Rightarrow> hn option" where
  "ping_rl os st = do {
     c \<leftarrow> get_ctx st;
     case rlSock c of
       None \<Rightarrow> Some st
     | Some p \<Rightarrow>
         (let (t, st1) = os_time os st in
          if t - rlLastPing c \<ge> PING_INTERVAL_SECS then do {
            (w, b, st2) \<leftarrow> hn_sendMsg p ''PING'' st1;
            let (t', st3) = os_time os st2;
            c' \<leftarrow> get_ctx st3;
            set_ctx (c'\<lparr>rlLastPing := t'\<rparr>) st3 }
          else Some st1) }"

definition houseKeeping :: "os \<Rightarrow> hn \<Rightarrow> hn option" where
  "houseKeeping os st =
     (if cf_mode (conf st) = Some HN_MODE_BRIDGE
      then do { st1 \<leftarrow> refresh_mdns os st; st2 \<leftarrow> retry_rl os st1; ping_rl os st2 }
      else Some st)"

datatype event = SOCK_EVENT_READ | SOCK_EVENT_NEW | SOCK_EVENT_CLOSE | SOCK_EVENT_TIMEOUT | SOCK_EVENT_ERROR

definition processEvent ::
  "os \<Rightarrow> sock_ptr \<Rightarrow> event \<Rightarrow> hn \<Rightarrow> (outcome \<times> hn) option" where
  "processEvent os p ev st =
     (case ev of
        SOCK_EVENT_READ \<Rightarrow> do { (r, st') \<leftarrow> handleRead os p st; Some (Running True, st') }
      | SOCK_EVENT_NEW \<Rightarrow> do { (r, st') \<leftarrow> handleNew os p st; Some (Running True, st') }
      | SOCK_EVENT_CLOSE \<Rightarrow> do {
          (r, st') \<leftarrow> handleClose p st;
          Some (case r of Running _ \<Rightarrow> Running True | _ \<Rightarrow> r, st') }
      | _ \<Rightarrow> Some (Running False, st))"

text \<open>
  One round of \<open>hn_loop\<close>, given the event the wait returned.  A timeout goes straight back to
  waiting, an error ends the loop.
\<close>

definition loop_round ::
  "os \<Rightarrow> sock_ptr \<Rightarrow> event \<Rightarrow> hn \<Rightarrow> (outcome \<times> hn) option" where
  "loop_round os p ev st =
     (case ev of
        SOCK_EVENT_ERROR \<Rightarrow> Some (Returned, st)
      | SOCK_EVENT_TIMEOUT \<Rightarrow> Some (Running True, st)
      | _ \<Rightarrow> do {
          (r, st1) \<leftarrow> processEvent os p ev st;
          case r of
            Running _ \<Rightarrow> do { st2 \<leftarrow> houseKeeping os st1; Some (Running True, st2) }
          | _ \<Rightarrow> Some (r, st1) })"

end
