(* ===== verification/Program_Tests.thy ===== *)
theory Program_Tests
  imports Utils_Tests Config_File Auth Mdns_Correct Net_Misc Bridge
begin

text \<open>
  The other test programs, test/hash.c, test/conf.c, test/netUtils.test.c, test/mdns.c and
  test/server.c, over the model of the routines they call.  A test is what it prints and the
  state it leaves.
\<close>

section \<open>test/hash.c\<close>

text \<open>The copy of \<open>generateAuthResp\<close> in the test measures the key as well, and treats an empty key as none.\<close>

definition test_authResp :: "string \<Rightarrow> string \<Rightarrow> string \<Rightarrow> string option" where
  "test_authResp nonce key salt = do {
     let key' = (if key = [] then None else Some key);
     buff \<leftarrow> fits 700 (case key' of None \<Rightarrow> [] | Some k \<Rightarrow> k @ '' '');
     raw \<leftarrow> fits 513 (nonce @ ''|'' @ (case key' of None \<Rightarrow> [] | Some k \<Rightarrow> k) @ ''|'' @ salt);
     fits 700 (buff @ sha512_hex raw) }"

definition test_hash :: "string option" where
  "test_hash = do {
     let nonce = ''Hello world'';
     buff \<leftarrow> test_authResp nonce ''key'' ''salt'';
     Some (''Nonce: '' @ nonce @ [LF] @ buff @ [LF]) }"

section \<open>test/conf.c\<close>

function test_conf_loop :: "files \<Rightarrow> (string \<times> string) option \<times> stream option \<Rightarrow> string option" where
  "test_conf_loop files r =
     (case r of
        (None, _) \<Rightarrow> Some []
      | (Some (key, val), fp) \<Rightarrow> do {
          r' \<leftarrow> readConfigFile files 50 200 None None fp;
          out \<leftarrow> test_conf_loop files r';
          Some (key @ '': '' @ val @ [LF] @ out) })"
  by pat_completeness auto
termination
  by (relation "measure (\<lambda>(files, r). entry_measure r)") (auto dest: readConfigFile_continue_shorter)

declare test_conf_loop.simps [simp del]

definition test_conf :: "files \<Rightarrow> string option" where
  "test_conf files = do {
     r \<leftarrow> readConfigFile files 50 200 (Some ''test/conf.ini'') (Some ''bad'') None;
     test_conf_loop files r }"

section \<open>test/netUtils.test.c\<close>

fun test_ip_loop :: "os \<Rightarrow> nat \<Rightarrow> string list \<Rightarrow> string option" where
  "test_ip_loop os i [] = Some []"
| "test_ip_loop os i (str # strs) = do {
     (s, addr) \<leftarrow> str_toIpAddr os str;
     out \<leftarrow> test_ip_loop os (i + 1) strs;
     Some (''[Test] IP ADDR['' @ show_nat i @ '']: '' @ (if s then [] else ''[Failed] '') @ ipAddr_print os addr @ out) }"

definition testStrToIp :: "os \<Rightarrow> string option" where
  "testStrToIp os = test_ip_loop os 0
     [''192.168.29.5'', ''192.168.29.90:80'', ''192.168.dfl;p.50'', ''[2001:db8::]:80'', ''2001:db8:3333:4444:5555:6666:7777:8888'']"

section \<open>test/mdns.c\<close>

text \<open>
  The address of the A record is turned round with \<open>ntohl\<close>, but the encoder copies its bytes as
  they are.
\<close>

definition test_query :: "nat \<Rightarrow> dns_query" where
  "test_query count = (txt_query ''bridge.hn.local'')\<lparr>dq_answers :=
     [\<lparr>an_name = Some ''bridge.hn.local.'', an_type = RR_TXT, an_class = CLASS_IN, an_ttl = 0,
       an_data = RD_TXT (''PORT=2000;meow=count-'' @ show_nat count)\<rparr>,
      \<lparr>an_name = Some ''bridge.hn.local.'', an_type = RR_A, an_class = CLASS_IN, an_ttl = 0,
       an_data = RD_A (rev (map char_of [192, 169, 29, 90 :: nat]))\<rparr>]\<rparr>"

text \<open>The counter of the queries is a static variable.\<close>

definition test_sendQuery :: "os \<Rightarrow> nat \<Rightarrow> hn \<Rightarrow> (string \<times> nat \<times> hn) option" where
  "test_sendQuery os count st = do {
     (rc, request) \<leftarrow> dns_encode (os_fpu os) DNS_BUFFER_UDP (test_query count);
     (r, st1) \<leftarrow> mdns_send os request st;
     Some (''size of encoded packet: '' @ show_nat (length request) @ [LF]
       @ (if r \<le> 0 then ''Failed to send packet'' @ [LF] else ''Sent packet of size '' @ int_toString r @ [LF]),
       count + 1, st1) }"

text \<open>
  One round of the main loop: a datagram of up to 256 bytes is decoded into 40000 bytes and
  printed, and the query is sent.  The result of the decoder is not looked at, so after an error
  the printing reads memory that was never set.
\<close>

definition test_mdns_round :: "os \<Rightarrow> (string \<Rightarrow> string) \<Rightarrow> nat \<Rightarrow> hn \<Rightarrow> (string \<times> nat \<times> hn) option" where
  "test_mdns_round os ntop6 count st = do {
     let (d, st1) = udp_read 256 st;
     seen \<leftarrow> (case d of
        None \<Rightarrow> Some []
      | Some (buff, ip) \<Rightarrow> do {
          r \<leftarrow> dns_decode (os_fpu os) 40000 (buff @ replicate (256 - length buff) NUL) (length buff);
          out \<leftarrow> (case r of Inl rc \<Rightarrow> None | Inr q \<Rightarrow> dns_print_result ntop6 q);
          Some (''From: '' @ ipAddr_print os ip @ ''-----------------------'' @ [LF] @ out @ ''-----------------------'' @ [LF]) });
     (said, count', st2) \<leftarrow> test_sendQuery os count st1;
     Some (seen @ said @ ''sleeping..'' @ [LF], count', st2) }"

section \<open>test/server.c\<close>

definition test_page :: string where
  "test_page = ''HTTP/1.1 200 OK'' @ [CR, LF] @ ''Content-Type: text/html'' @ [CR, LF] @ [CR, LF]
     @ ''<html><body><h1>Welcome to HomeNet!</h1>You have reached a HomeNet bridge.</body></html>''"

text \<open>
  What was read is printed as a string from an array of 1024 bytes whose rest is \<open>junk\<close>.
\<close>

definition test_processEvent :: "os \<Rightarrow> string \<Rightarrow> sock_ptr \<Rightarrow> event \<Rightarrow> hn \<Rightarrow> (string \<times> bool \<times> hn) option" where
  "test_processEvent os junk p ev st =
     (case ev of
        SOCK_EVENT_READ \<Rightarrow> do {
          (n, d, st1) \<leftarrow> sock_read 1024 p st;
          s \<leftarrow> the_sock st1 p;
          let buffer = d @ take (1024 - length d) junk;
          shown \<leftarrow> (if n > 0 then do { k \<leftarrow> str_len buffer; Some (''Socket read: '' @ [LF] @ '' '' @ take (nat k) buffer @ '' '' @ [LF]) }
                   else Some []);
          (wr, st2) \<leftarrow> sock_write p (test_page @ [NUL]) st1;
          (a, st3) \<leftarrow> sock_done p st2;
          Some (''Read from ip: '' @ ipAddr_print os (ipAddr s) @ shown
            @ (if wr > 0 then ''Socket wrote bytes: '' else ''Socket write failed: '') @ int_toString wr @ '' '' @ [LF], True, st3) }
      | SOCK_EVENT_NEW \<Rightarrow> do {
          s \<leftarrow> the_sock st p;
          Some (''New connection from ip: '' @ ipAddr_print os (ipAddr s), True, add_sock p st) }
      | SOCK_EVENT_CLOSE \<Rightarrow> do {
          s \<leftarrow> the_sock st p;
          Some (''Closed connection from ip: '' @ ipAddr_print os (ipAddr s), True, st) }
      | SOCK_EVENT_TIMEOUT \<Rightarrow> Some (''Unknown event: 0 '' @ [LF], False, st)
      | SOCK_EVENT_ERROR \<Rightarrow> Some (''Unknown event: -1 '' @ [LF], False, st))"

section \<open>What they show\<close>

text \<open>The copy in the test computes what the program computes, whenever the program returns.\<close>

lemma test_authResp_same:
  assumes "generateAuthResp nonce (Some k) (Some s) = Some r"
  shows "test_authResp nonce k s = Some r"
  using assms by (auto simp: generateAuthResp_def test_authResp_def BUFF_SIZE_def Let_def bind_eq_Some_conv)

lemma test_hash_prints:
  "test_hash = Some (''Nonce: Hello world'' @ [LF] @ ''key '' @ sha512_hex ''Hello world|key|salt'' @ [LF])"
  using sha.H_length [of "''Hello world|key|salt''"] by (simp add: test_hash_def test_authResp_def fits_def)

text \<open>The file test/conf.ini, whose section \<open>bad\<close> has one entry.\<close>

definition conf_ini :: files where
  "conf_ini path = (if path = ''test/conf.ini'' then Some
     (''meow = 69'' @ [LF] @ ''[good]'' @ [LF] @ ''dog = cat'' @ [LF] @ ''# comment'' @ [LF] @ ''hi = hello #inline comments not supported'' @ [LF]
      @ ''[bad]'' @ [LF] @ ''go=jo'' @ [LF]) else None)"

lemma test_conf_prints: "test_conf conf_ini = Some (''go: jo'' @ [LF])"
proof -
  have s: "skip_to_section ''bad'' (the (conf_ini ''test/conf.ini'')) = ''go=jo'' @ [LF]"
    by (simp add: conf_ini_def skip_to_section.simps getline_def removeChars_def)
  have e: "read_entry 50 200 (''go=jo'' @ [LF]) = Some (Some (''go'', ''jo''), [])" "read_entry 50 200 [] = Some (None, [])"
    by (simp_all add: read_entry.simps getline_def parse_line_def startsWith_def removeChars_def containsStr_def str_split_def strtok_def
        strip_def unquote_def c_isspace_def)
  show ?thesis
    using s e by (simp add: test_conf_def readConfigFile_def conf_ini_def test_conf_loop.simps)
qed

text \<open>
  On a system that knows IPv6 the address test does not get past its fourth string: the address
  is stored beyond the struct that is to hold it.
\<close>

lemma testStrToIp_overflows:
  assumes "inet_pton6 os ''2001:db8::'' = Some a"
  shows "testStrToIp os = None"
proof -
  have "str_toIpAddr os ''[2001:db8::]:80'' = None"
    using assms by (auto simp: str_toIpAddr_def bind_eq_None_conv fits_def ipv6_init_overflows)
  then show ?thesis by (simp add: testStrToIp_def bind_eq_None_conv)
qed

text \<open>A read that fills the array leaves no terminator for the print.\<close>

lemma test_read_full_faults:
  assumes "sock_read 1024 p st = Some (1024, d, st1)" and "length d = 1024" and "NUL \<notin> set d"
  shows "test_processEvent os junk p SOCK_EVENT_READ st = None"
proof -
  have "str_len d = None" using assms(3) by (simp add: str_len_def)
  then show ?thesis using assms(1,2) by (simp add: test_processEvent_def bind_eq_None_conv)
qed

end
