(* ===== verification/Event_Loop.thy ===== *)
theory Event_Loop
  imports Bridge
begin

text \<open>
  \<open>waitForEvent\<close> of src/netUtils.c, the event loop and the start functions of src/homeNet.c.
  The wait keeps its static variables in a record of their own; the answers of \<open>select\<close> are
  a script.  Loops that may run forever are partial functions, for which not returning is
  \<open>None\<close>.
\<close>

section \<open>Waiting for events\<close>

datatype select_answer = Sel_error | Sel "int list" "int list"

record waiter =
  readSet :: "int list"
  writeSet :: "int list"
  fdsToProcess :: int
  sockToRemove :: "sock_ptr option"
  selects :: "select_answer list"

text \<open>The first call passes the list and resets the static variables.\<close>

definition wait_init :: "waiter \<Rightarrow> waiter" where
  "wait_init wt = wt\<lparr>sockToRemove := None, fdsToProcess := 0\<rparr>"

definition remove_sock :: "waiter \<Rightarrow> hn \<Rightarrow> (waiter \<times> hn) option" where
  "remove_sock wt st =
     (case sockToRemove wt of
        None \<Rightarrow> Some (wt, st)
      | Some p \<Rightarrow> do {
          st1 \<leftarrow> sock_cleanup p st;
          (r, l) \<leftarrow> list_remove (sockList st1) p;
          st2 \<leftarrow> free_sock p (st1\<lparr>sockList := l\<rparr>);
          Some (wt\<lparr>sockToRemove := None\<rparr>, st2) })"

text \<open>Handling what the last \<open>select\<close> reported: an event, or all sockets of the list visited.\<close>

datatype visit = Event event sock_ptr | Visited

definition fd_clear :: "int \<Rightarrow> int list \<Rightarrow> int list" where
  "fd_clear f fs = filter (\<lambda>x. x \<noteq> f) fs"

definition flush_ready :: "sock_ptr \<Rightarrow> waiter \<Rightarrow> hn \<Rightarrow> (waiter \<times> hn) option" where
  "flush_ready p wt st = do {
     s \<leftarrow> the_sock st p;
     if fd s \<in> set (writeSet wt) then do {
       (w, st') \<leftarrow> sock_write p [] st;
       Some (wt\<lparr>fdsToProcess := fdsToProcess wt - 1, writeSet := fd_clear (fd s) (writeSet wt)\<rparr>, st') }
     else Some (wt, st) }"

fun visit_ready :: "sock_ptr list \<Rightarrow> waiter \<Rightarrow> hn \<Rightarrow> (visit \<times> waiter \<times> hn) option" where
  "visit_ready [] wt st = Some (Visited, wt, st)"
| "visit_ready (p # ps) wt st =
     (if fdsToProcess wt \<le> 0 then Some (Visited, wt, st)
      else do {
        s \<leftarrow> the_sock st p;
        let wt' = wt\<lparr>readSet := fd_clear (fd s) (readSet wt), fdsToProcess := fdsToProcess wt - 1\<rparr>;
        if fd s \<in> set (readSet wt) then
          (if isServer s \<and> sock_kind s = TCPSOCKET then do {
             (n, st1) \<leftarrow> sock_acceptNew p st;
             case n of
               Some ns \<Rightarrow> do {
                 let (q, st2) = alloc_sock ns st1;
                 (r, st3) \<leftarrow> sock_setNonBlocking q st2;
                 Some (Event SOCK_EVENT_NEW q, wt, st3) }
             | None \<Rightarrow> do {
                 (wt2, st2) \<leftarrow> flush_ready p wt' st1;
                 visit_ready ps wt2 st2 } }
           else Some (Event SOCK_EVENT_READ p, wt', st))
        else do {
          (wt2, st2) \<leftarrow> flush_ready p wt st;
          visit_ready ps wt2 st2 } })"

text \<open>Building the descriptor sets; a dead socket is reported, a dying one closed first.\<close>

datatype scan = Dead sock_ptr | Restart | Ready "int list" "int list"

fun scan_socks :: "sock_ptr list \<Rightarrow> int list \<Rightarrow> int list \<Rightarrow> hn \<Rightarrow> (scan \<times> hn) option" where
  "scan_socks [] rs ws st = Some (Ready rs ws, st)"
| "scan_socks (p # ps) rs ws st = do {
     s0 \<leftarrow> the_sock st p;
     if isAlive s0 = SOCKET_DEAD then Some (Dead p, st)
     else if isAlive s0 = SOCKET_WILLDIE \<and> \<not> (sock_kind s0 = TCPSOCKET \<and> \<not> buffer_isEmpty (writeBuffer s0))
     then do { (r, st1) \<leftarrow> sock_close p st; Some (Restart, st1) }
     else do {
       st1 \<leftarrow> (if isAlive s0 = SOCKET_WILLDIE then upd_sock p (\<lambda>s. s\<lparr>listenForWritable := True\<rparr>) st else Some st);
       s \<leftarrow> the_sock st1 p;
       scan_socks ps (if listenForReadable s then rs @ [fd s] else rs)
         (if sock_kind s = TCPSOCKET \<and> listenForWritable s then ws @ [fd s] else ws) st1 } }"

text \<open>
  \<open>select\<close> reports a subset of what was asked, or an error, which stores -1 and leaves the sets
  as they were; an exhausted script is a timeout.  Restarting the iterator on an empty list is a
  fault.
\<close>

definition do_select :: "int list \<Rightarrow> int list \<Rightarrow> waiter \<Rightarrow> (event option \<times> waiter)" where
  "do_select rs ws wt =
     (case selects wt of
        [] \<Rightarrow> (Some SOCK_EVENT_TIMEOUT, wt\<lparr>readSet := [], writeSet := [], fdsToProcess := 0\<rparr>)
      | Sel_error # as \<Rightarrow> (Some SOCK_EVENT_ERROR, wt\<lparr>selects := as, readSet := rs, writeSet := ws, fdsToProcess := - 1\<rparr>)
      | Sel r w # as \<Rightarrow>
          (let r' = remdups (filter (\<lambda>f. f \<in> set rs) r); w' = remdups (filter (\<lambda>f. f \<in> set ws) w);
               n = int (length r' + length w');
               wt' = wt\<lparr>selects := as, readSet := r', writeSet := w', fdsToProcess := n\<rparr>
           in (if n = 0 then Some SOCK_EVENT_TIMEOUT else None, wt')))"

partial_function (option) waitForEvent :: "waiter \<Rightarrow> hn \<Rightarrow> (event \<times> sock_ptr option \<times> waiter \<times> hn) option" where
  "waitForEvent wt0 st0 = do {
     (wt, st) \<leftarrow> remove_sock wt0 st0;
     if list_start (sockList st) = [] then None
     else if fdsToProcess wt \<noteq> 0 then do {
       (v, wt1, st1) \<leftarrow> visit_ready (list_start (sockList st)) wt st;
       case v of
         Event ev p \<Rightarrow> Some (ev, Some p, wt1, st1)
       | Visited \<Rightarrow>
           if fdsToProcess wt1 = 0 then waitForEvent wt1 st1
           else Some (SOCK_EVENT_ERROR, None, wt1, st1) }
     else do {
       (sc, st1) \<leftarrow> scan_socks (list_start (sockList st)) [] [] st;
       case sc of
         Dead p \<Rightarrow> Some (SOCK_EVENT_CLOSE, Some p, wt\<lparr>sockToRemove := Some p\<rparr>, st1)
       | Restart \<Rightarrow> waitForEvent wt st1
       | Ready rs ws \<Rightarrow>
           (let (ev, wt1) = do_select rs ws wt in
            case ev of
              Some e \<Rightarrow> Some (e, None, wt1, st1)
            | None \<Rightarrow> waitForEvent wt1 st1) } }"

section \<open>The loop\<close>

text \<open>
  The result tells whether the loop returned; otherwise a handler ended the program with
  \<open>exit(1)\<close>, which the start functions below pass on as failure: both give exit status 1.
\<close>

partial_function (option) hn_loop :: "os \<Rightarrow> waiter \<Rightarrow> hn \<Rightarrow> (bool \<times> hn) option" where
  "hn_loop os wt st = do {
     (ev, sel, wt1, st1) \<leftarrow> waitForEvent wt st;
     (r, st2) \<leftarrow> loop_round os (case sel of Some p \<Rightarrow> p | None \<Rightarrow> 0) ev st1;
     case r of
       Returned \<Rightarrow> Some (True, st2)
     | Exited \<Rightarrow> Some (False, st2)
     | Running b \<Rightarrow> hn_loop os wt1 st2 }"

text \<open>The loop as a transition system over the wait state and the program state.\<close>

inductive loop_step :: "os \<Rightarrow> waiter \<times> hn \<Rightarrow> waiter \<times> hn \<Rightarrow> bool"
  for os where
  round: "waitForEvent wt st = Some (ev, sel, wt1, st1) \<Longrightarrow>
    loop_round os (case sel of Some p \<Rightarrow> p | None \<Rightarrow> 0) ev st1 = Some (Running b, st2) \<Longrightarrow>
    loop_step os (wt, st) (wt1, st2)"

inductive_cases loop_stepE: "loop_step os s s'"

section \<open>Starting\<close>

text \<open>The multicast socket; the flag of the answer stands for all option calls and \<open>bind\<close>.\<close>

definition mdns_start :: "os \<Rightarrow> hn \<Rightarrow> (Socket option \<times> hn) option" where
  "mdns_start os st =
     (case udp_opens st of
        [] \<Rightarrow> Some (None, st)
      | (f, ok) # us \<Rightarrow>
          if f < 0 then Some (None, st\<lparr>udp_opens := us\<rparr>)
          else do {
            (r, ip) \<leftarrow> str_toIpAddr os ''224.0.0.251:5353'';
            if \<not> r \<or> (\<not> ok SO_REUSEADDR \<and> \<not> ok SO_REUSEPORT) \<or> \<not> ok IP_ADD_MEMBERSHIP \<or> \<not> ok UDP_BIND
            then Some (None, st\<lparr>udp_opens := us\<rparr>)
            else Some (Some ((sock_init UDPSOCKET f)\<lparr>ipAddr := ip, isServer := True\<rparr>), st\<lparr>udp_opens := us\<rparr>) })"

definition BRIDGE_SUFFIX :: string where "BRIDGE_SUFFIX = ''.bridge.hn.local''"

text \<open>
  The name lies behind the 20 bytes of the master key, which a short name's suffix test reads.
  The suffix is appended by a \<open>sprintf\<close> of the name into itself (\<open>homeNet.c\<close> line 786).  The C
  standard leaves such an overlap undefined; it is read here as a library that writes from left
  to right behaves, which copies the name onto itself and then adds the suffix.
\<close>

definition bridge_name :: "os \<Rightarrow> hn \<Rightarrow> hn option" where
  "bridge_name os st = do {
     c \<leftarrow> get_ctx st;
     if ctx_name c = [] then
       (let (code, st1) = generateCode os 8 st in do {
          nm \<leftarrow> fits 100 (code @ BRIDGE_SUFFIX);
          set_ctx (c\<lparr>ctx_name := nm\<rparr>) st1 })
     else do {
       e \<leftarrow> str_endswith (take 20 (masterKey c @ replicate 20 NUL)) (ctx_name c @ [NUL]) (BRIDGE_SUFFIX @ [NUL]);
       if e then Some st
       else do { nm \<leftarrow> fits 100 (ctx_name c @ BRIDGE_SUFFIX); set_ctx (c\<lparr>ctx_name := nm\<rparr>) st } } }"

definition bridge_server :: "os \<Rightarrow> hn \<Rightarrow> (bool \<times> hn) option" where
  "bridge_server os st = do {
     b \<leftarrow> bridge (conf st);
     if br_port b < 0 then Some (True, st)
     else do {
       (s, st1) \<leftarrow> createTcpServer os (br_port b) st;
       case s of
         None \<Rightarrow> Some (False, st1)
       | Some sv \<Rightarrow> do {
           let (p, st2) = alloc_sock sv st1;
           (r, st3) \<leftarrow> sock_setNonBlocking p st2;
           let port = ipAddr_getPort (snd (sock_getMyIpAddr os sv));
           Some (True, add_sock p (st3\<lparr>conf := (conf st3)\<lparr>bridge := Some (b\<lparr>br_port := port\<rparr>)\<rparr>\<rparr>)) } } }"

definition bridge_mdns :: "os \<Rightarrow> hn \<Rightarrow> (bool \<times> hn) option" where
  "bridge_mdns os st = do {
     b \<leftarrow> bridge (conf st);
     if useMdns b = 0 then Some (True, st)
     else do {
       (s, st1) \<leftarrow> mdns_start os st;
       case s of
         None \<Rightarrow> Some (False, st1)
       | Some ms \<Rightarrow> do {
           st1' \<leftarrow> sendMdnsQuery os ''bridge.hn.local'' st1;
           let (p, st2) = alloc_sock ms st1';
           (h, st3) \<leftarrow> hn_sockInit p SOCK_MODE_MDNS True st2;
           st4 \<leftarrow> watch_sock p st3;
           Some (True, st4) } } }"

text \<open>Everything \<open>start_bridge\<close> does before it enters the loop.\<close>

definition bridge_setup :: "os \<Rightarrow> hn \<Rightarrow> (bool \<times> hn) option" where
  "bridge_setup os st = do {
     st1 \<leftarrow> bridge_name os (st\<lparr>sockList := list_init\<rparr>);
     (ok, st2) \<leftarrow> bridge_server os st1;
     if \<not> ok then Some (False, st2)
     else do {
       (r, st3) \<leftarrow> tryRLStart os st2;
       b \<leftarrow> bridge (conf st3);
       case r of
         Some p \<Rightarrow> do { st4 \<leftarrow> watch_sock p st3; bridge_mdns os st4 }
       | None \<Rightarrow> if br_rlUrl b \<noteq> [] then Some (False, st3) else bridge_mdns os st3 } }"

definition start_bridge :: "os \<Rightarrow> waiter \<Rightarrow> hn \<Rightarrow> (bool \<times> hn) option" where
  "start_bridge os wt st = do {
     (ok, st1) \<leftarrow> bridge_setup os st;
     if ok then hn_loop os (wait_init wt) st1 else Some (False, st1) }"

definition listen_setup :: "os \<Rightarrow> hn \<Rightarrow> (bool \<times> hn) option" where
  "listen_setup os st = do {
     lm \<leftarrow> listen (conf st);
     if ls_connectUrl lm = [] then Some (False, st)
     else do {
       let port = (if ls_port lm < 0 then 0 else ls_port lm);
       let st1 = st\<lparr>conf := (conf st)\<lparr>listen := Some (lm\<lparr>ls_port := port\<rparr>)\<rparr>, sockList := list_init\<rparr>;
       (s, st2) \<leftarrow> createTcpServer os port st1;
       case s of
         None \<Rightarrow> Some (False, st2)
       | Some sv \<Rightarrow> do {
           let (p, st3) = alloc_sock sv st2;
           st4 \<leftarrow> watch_sock p st3;
           Some (True, st4) } } }"

definition start_listen :: "os \<Rightarrow> waiter \<Rightarrow> hn \<Rightarrow> (bool \<times> hn) option" where
  "start_listen os wt st = do {
     (ok, st1) \<leftarrow> listen_setup os st;
     if ok then hn_loop os (wait_init wt) st1 else Some (False, st1) }"

definition rl_setup :: "os \<Rightarrow> hn \<Rightarrow> (bool \<times> hn) option" where
  "rl_setup os st = do {
     rm \<leftarrow> rl (conf st);
     if rl_rlUrl rm = [] \<and> rl_localIp rm = [] then Some (False, st)
     else do {
       let (p, st1) = createTcpSocket (st\<lparr>sockList := list_init\<rparr>);
       (h, st2) \<leftarrow> hn_sockInit p SOCK_MODE_LISTEN_OUT False st1;
       (ok, st3) \<leftarrow> initializeListenNotify os (rl_rlId rm) (rl_rlPass rm) (rl_rlUrl rm) p st2;
       if \<not> ok then Some (False, st3)
       else do { st4 \<leftarrow> watch_sock p st3; Some (True, st4) } } }"

definition start_reverseListen :: "os \<Rightarrow> waiter \<Rightarrow> hn \<Rightarrow> (bool \<times> hn) option" where
  "start_reverseListen os wt st = do {
     (ok, st1) \<leftarrow> rl_setup os st;
     if ok then hn_loop os (wait_init wt) st1 else Some (False, st1) }"

text \<open>Console input until Ctrl-X or escape; at the end of input the value EOF is stored as a character.\<close>

fun textInput :: "nat \<Rightarrow> string \<Rightarrow> string option" where
  "textInput room [] = (if room = 0 then None else Some [CHR 0xFF])"
| "textInput room (c # cs) =
     (case room of
        0 \<Rightarrow> None
      | Suc k \<Rightarrow> if c = CHR 0xFF then Some [c]
                  else if c = CHR 0x18 \<or> c = CHR 0x1B then Some [] else map_option (\<lambda>r. c # r) (textInput k cs))"

text \<open>Printing the reply; a read that fills the buffer leaves it unterminated.\<close>

function print_reply :: "sock_ptr \<Rightarrow> hn \<Rightarrow> (string \<times> hn) option" where
  "print_reply p st =
     (case sock_read BUFF_SIZE p st of
        None \<Rightarrow> None
      | Some (rc, d, st') \<Rightarrow>
          if \<not> (rc > 0 \<and> sock_inbox p st' < sock_inbox p st) then Some ([], st')
          else if length d \<ge> BUFF_SIZE \<and> NUL \<notin> set d then None
          else map_option (\<lambda>(out, st''). (cstr d @ out, st'')) (print_reply p st'))"
  by pat_completeness auto
termination
  by (relation "measure (\<lambda>(p, st). sock_inbox p st)") auto

declare print_reply.simps [simp del]

definition start_connect :: "os \<Rightarrow> string \<Rightarrow> hn \<Rightarrow> (bool \<times> string \<times> hn) option" where
  "start_connect os input st = do {
     cm \<leftarrow> connect (conf st);
     if length (cn_connectUrl cm) > 1 then do {
       let (p, st1) = createTcpSocket st;
       (h, st2) \<leftarrow> hn_sockInit p SOCK_MODE_RELAY False st1;
       (r, st3) \<leftarrow> initializeConnect os (cn_connectUrl cm) p None False st2;
       if r \<noteq> 1 then do { st4 \<leftarrow> free_sock p st3; Some (False, [], st4) }
       else do {
         payload \<leftarrow> (if cn_payload cm = [] then Option.bind (textInput BUFF_SIZE input) (fits BUFF_SIZE) else Some (cn_payload cm));
         (w, st4) \<leftarrow> sock_write p (unEscape payload) st3;
         (out, st5) \<leftarrow> print_reply p st4;
         st6 \<leftarrow> sock_destroy p False st5;
         Some (True, out, st6) } }
     else Some (False, [], st) }"

definition start_query :: "os \<Rightarrow> hn \<Rightarrow> (bool \<times> string Map list \<times> hn) option" where
  "start_query os st = do {
     qm \<leftarrow> query (conf st);
     if q_name qm = [] \<or> q_bridgeUrl qm = [] then Some (False, [], st)
     else do {
       let (p, st1) = createTcpSocket st;
       pass \<leftarrow> fits 60 (if length (q_key qm) > 1 \<and> length (q_salt qm) > 1 then q_key qm @ '':'' @ q_salt qm else []);
       (recs, st2) \<leftarrow> initializeQuery os 10 (q_name qm) (q_bridgeUrl qm) pass p st1;
       st3 \<leftarrow> sock_destroy p False st2;
       Some (True, recs, st3) } }"

text \<open>The result is whether the return code is positive.\<close>

definition hn_start :: "os \<Rightarrow> waiter \<Rightarrow> string \<Rightarrow> hn \<Rightarrow> (bool \<times> hn) option" where
  "hn_start os wt input st =
     (case cf_mode (conf st) of
        Some HN_MODE_CONNECT \<Rightarrow> do { (r, out, st') \<leftarrow> start_connect os input st; Some (r, st') }
      | Some HN_MODE_BRIDGE \<Rightarrow> start_bridge os wt st
      | Some HN_MODE_LISTEN \<Rightarrow> start_listen os wt st
      | Some HN_MODE_REVERSE_LISTEN \<Rightarrow> start_reverseListen os wt st
      | Some HN_MODE_QUERY \<Rightarrow> do { (r, recs, st') \<leftarrow> start_query os st; Some (r, st') }
      | None \<Rightarrow> Some (False, st))"

text \<open>\<open>main\<close>: the exit status.\<close>

definition hn_main ::
  "os \<Rightarrow> files \<Rightarrow> waiter \<Rightarrow> string \<Rightarrow> string list \<Rightarrow> hn \<Rightarrow> (int \<times> hn) option" where
  "hn_main os files wt input argv st = do {
     cf \<leftarrow> confInit files (getenv os) argv;
     (r, st') \<leftarrow> hn_start os wt input (st\<lparr>conf := cf\<rparr>);
     Some (if r then 0 else 1, st') }"

end
