(* ===== verification/Relay_Correct.thy ===== *)
theory Relay_Correct
  imports Event_Loop Protocol_Correct
begin

text \<open>
  What the event handlers of Bridge do to connections: a relay forwards a stream in order,
  loses bytes that arrive together with the end of the stream, and leaves a dangling link when
  it is closed; a connection request is relayed only after authentication when the bridge asks
  for it; a reverse connection links the two sockets and uses up its password.
\<close>

section \<open>Relaying\<close>

lemma sock_write_all:
  assumes "socks st n = Some t" and "isAlive t = SOCKET_ALIVE" and "\<not> isBlocking t" and "buf_size (writeBuffer t) = 0"
    and "\<forall>w\<in>set (wscript st (fd t)). 0 < w"
  shows "\<exists>ws. sock_write n d st = Some (int (length d), st\<lparr>socks := (socks st)(n \<mapsto> t\<lparr>listenForWritable := False\<rparr>),
      wscript := (wscript st)(fd t := ws), outbox := (outbox st)(fd t := outbox st (fd t) @ d)\<rparr>) \<and> (\<forall>w\<in>set ws. 0 < w)"
proof -
  define st1 where "st1 = st\<lparr>socks := (socks st)(n \<mapsto> t\<lparr>listenForWritable := False\<rparr>)\<rparr>"
  obtain k l st2 where w: "write_loop (fd t) d st1 = (k, l, st2)" by (cases "write_loop (fd t) d st1")
  have "\<forall>w\<in>set (wscript st1 (fd t)). 0 < w" using assms(5) by (simp add: st1_def)
  with write_loop_spec [OF w] obtain ws where "k = int (length d)" "l = []" and p: "\<forall>w\<in>set ws. 0 < w"
    and "st2 = st1\<lparr>wscript := (wscript st1)(fd t := ws), outbox := (outbox st1)(fd t := outbox st1 (fd t) @ d)\<rparr>"
    by (metis drop_all order_refl take_all)
  moreover have "upd_sock n (\<lambda>s. s\<lparr>listenForWritable := False\<rparr>) st = Some st1"
    using assms(1) by (simp add: upd_sock_def st1_def)
  ultimately have "sock_write n d st = Some (int (length d), st1\<lparr>wscript := (wscript st1)(fd t := ws),
      outbox := (outbox st1)(fd t := outbox st1 (fd t) @ d)\<rparr>)"
    using assms(1-4) w by (simp add: sock_write_def the_sock_def buffer_isEmpty_def)
  with p show ?thesis by (intro exI [of _ ws]) (simp add: st1_def)
qed

text \<open>Reading a non-blocking socket takes what has arrived, at most the size of the buffer.\<close>

lemma read_loop_take:
  "inbox st f = map Recv cs \<Longrightarrow> [] \<notin> set cs \<Longrightarrow>
   \<exists>cs'. read_loop p f mx st = Some (take mx (concat cs), st\<lparr>inbox := (inbox st)(f := map Recv cs')\<rparr>)
     \<and> concat cs' = drop mx (concat cs) \<and> [] \<notin> set cs'"
proof (induction cs arbitrary: st mx)
  case Nil
  have i: "inbox st f = []" using Nil by simp
  have same: "st\<lparr>inbox := (inbox st)(f := [])\<rparr> = st" unfolding i [symmetric] by simp
  have "read_loop p f mx st = Some ([], st)" using i by (simp add: read_loop.simps [of p f mx st] os_recv_def)
  then show ?case by (intro exI [of _ "[]"]) (simp only: same list.map, simp)
next
  case (Cons c cs)
  show ?case
  proof (cases "mx = 0")
    case True
    have same: "st\<lparr>inbox := (inbox st)(f := map Recv (c # cs))\<rparr> = st" unfolding Cons.prems(1) [symmetric] by simp
    have "read_loop p f mx st = Some ([], st)" using True by (simp add: read_loop.simps [of p f 0 st])
    then show ?thesis using True Cons.prems(2) by (intro exI [of _ "c # cs"]) (simp only: same, simp)
  next
    case mx: False
    have c: "c \<noteq> []" using Cons.prems by auto
    show ?thesis
    proof (cases "length c \<le> mx")
      case True
      define st1 where "st1 = st\<lparr>inbox := (inbox st)(f := map Recv cs)\<rparr>"
      have o: "os_recv f mx st = (int (length c), c, False, st1)"
        using Cons.prems True by (simp add: os_recv_def st1_def)
      have "inbox st1 f = map Recv cs" "[] \<notin> set cs" using Cons.prems by (simp_all add: st1_def)
      from Cons.IH [OF this] obtain cs' where r: "read_loop p f (mx - length c) st1
          = Some (take (mx - length c) (concat cs), st1\<lparr>inbox := (inbox st1)(f := map Recv cs')\<rparr>)"
        and k: "concat cs' = drop (mx - length c) (concat cs)" "[] \<notin> set cs'" by blast
      have "read_loop p f mx st = Some (c @ take (mx - length c) (concat cs), st1\<lparr>inbox := (inbox st1)(f := map Recv cs')\<rparr>)"
        by (subst read_loop.simps) (use mx c o r in simp)
      moreover have "st1\<lparr>inbox := (inbox st1)(f := map Recv cs')\<rparr> = st\<lparr>inbox := (inbox st)(f := map Recv cs')\<rparr>"
        by (simp add: st1_def)
      moreover have "take mx (concat (c # cs)) = c @ take (mx - length c) (concat cs)"
        "drop mx (concat (c # cs)) = drop (mx - length c) (concat cs)" using True by simp_all
      ultimately show ?thesis using k by (intro exI [of _ cs']) (simp only: simp_thms)
    next
      case False
      define st1 where "st1 = st\<lparr>inbox := (inbox st)(f := map Recv (drop mx c # cs))\<rparr>"
      have o: "os_recv f mx st = (int mx, take mx c, False, st1)"
        using Cons.prems False by (simp add: os_recv_def st1_def)
      have "read_loop p f mx st = Some (take mx c, st1)"
        by (subst read_loop.simps) (use mx o in \<open>simp add: read_loop.simps [of p f 0 st1]\<close>)
      moreover have "take mx (concat (c # cs)) = take mx c" "concat (drop mx c # cs) = drop mx (concat (c # cs))"
        "[] \<notin> set (drop mx c # cs)" using False Cons.prems by auto
      ultimately show ?thesis by (intro exI [of _ "drop mx c # cs"]) (simp only: st1_def simp_thms)
    qed
  qed
qed

lemma drained:
  assumes "concat cs = drop b xs" and "[] \<notin> set cs" and "0 < b" and "take b xs = []"
  shows "cs = []"
proof -
  have "concat cs = []" using assms by simp
  with assms(2) show ?thesis by (cases cs) auto
qed

text \<open>Both ends of a relay are alive and non-blocking, and the outgoing end takes bytes.\<close>

definition relay_ok :: "hn \<Rightarrow> sock_ptr \<Rightarrow> Socket \<Rightarrow> sock_ptr \<Rightarrow> Socket \<Rightarrow> bool" where
  "relay_ok st p s n t \<longleftrightarrow> p \<noteq> n \<and> socks st p = Some s \<and> isAlive s = SOCKET_ALIVE \<and> \<not> isBlocking s
     \<and> socks st n = Some t \<and> isAlive t = SOCKET_ALIVE \<and> \<not> isBlocking t \<and> buf_size (writeBuffer t) = 0
     \<and> (\<forall>w\<in>set (wscript st (fd t)). 0 < w)"

lemma relay_read:
  assumes "relay_ok st p s n t" and "inbox st (fd s) = map Recv cs" and "[] \<notin> set cs"
  shows "\<exists>cs' st'. sock_read mx p st = Some (int (length (take mx (concat cs))), take mx (concat cs), st')
    \<and> st' = st\<lparr>inbox := (inbox st)(fd s := map Recv cs')\<rparr> \<and> relay_ok st' p s n t \<and> inbox st' (fd s) = map Recv cs'
    \<and> concat cs' = drop mx (concat cs) \<and> [] \<notin> set cs'"
proof -
  from read_loop_take [OF assms(2,3), of p mx] obtain cs' where
    "read_loop p (fd s) mx st = Some (take mx (concat cs), st\<lparr>inbox := (inbox st)(fd s := map Recv cs')\<rparr>)"
    "concat cs' = drop mx (concat cs)" "[] \<notin> set cs'" by blast
  with assms(1) show ?thesis
    by (intro exI [of _ cs'] exI [of _ "st\<lparr>inbox := (inbox st)(fd s := map Recv cs')\<rparr>"])
       (simp add: sock_read_def the_sock_def relay_ok_def)
qed

lemma relay_loop_forwards:
  "relay_ok st p s n t \<Longrightarrow> inbox st (fd s) = map Recv cs \<Longrightarrow> [] \<notin> set cs \<Longrightarrow> length d \<le> BUFF_SIZE \<Longrightarrow>
   (d = [] \<longrightarrow> cs = []) \<Longrightarrow>
   \<exists>st'. relay_loop p n (int (length d)) d st = Some st'
     \<and> outbox st' = (outbox st)(fd t := outbox st (fd t) @ d @ concat cs) \<and> inbox st' (fd s) = []
     \<and> closedFds st' = closedFds st \<and> conf st' = conf st"
proof (induction "length (d @ concat cs)" arbitrary: d cs st t rule: less_induct)
  case less
  show ?case
  proof (cases "d = []")
    case True
    with less.prems have "cs = []" by simp
    with True less.prems show ?thesis by (auto simp: relay_loop.simps [of p n 0 "[]" st])
  next
    case d: False
    have B: "0 < BUFF_SIZE" by (simp add: BUFF_SIZE_def)
    note ok = less.prems(1) [unfolded relay_ok_def]
    obtain ws where w: "sock_write n d st = Some (int (length d), st\<lparr>socks := (socks st)(n \<mapsto> t\<lparr>listenForWritable := False\<rparr>),
      wscript := (wscript st)(fd t := ws), outbox := (outbox st)(fd t := outbox st (fd t) @ d)\<rparr>)"
      and ws: "\<forall>w\<in>set ws. 0 < w" using sock_write_all [of st n t d] ok by blast
    define t1 where "t1 = t\<lparr>listenForWritable := False\<rparr>"
    define st1 where "st1 = st\<lparr>socks := (socks st)(n \<mapsto> t1),
      wscript := (wscript st)(fd t := ws), outbox := (outbox st)(fd t := outbox st (fd t) @ d)\<rparr>"
    have ok1: "relay_ok st1 p s n t1" and i1: "inbox st1 (fd s) = map Recv cs"
      using ok ws less.prems(2) by (auto simp: relay_ok_def st1_def t1_def)
    from relay_read [OF ok1 i1 less.prems(3), of BUFF_SIZE] obtain cs' st2 where
      r: "sock_read BUFF_SIZE p st1 = Some (int (length (take BUFF_SIZE (concat cs))), take BUFF_SIZE (concat cs), st2)"
      and st2: "st2 = st1\<lparr>inbox := (inbox st1)(fd s := map Recv cs')\<rparr>" "relay_ok st2 p s n t1" "inbox st2 (fd s) = map Recv cs'"
      and cs': "concat cs' = drop BUFF_SIZE (concat cs)" "[] \<notin> set cs'" by blast
    let ?d = "take BUFF_SIZE (concat cs)"
    have split: "?d @ concat cs' = concat cs" by (simp add: cs')
    have nil: "?d = [] \<longrightarrow> cs' = []" using drained [OF cs' B] by blast
    have "length (?d @ concat cs') < length (d @ concat cs)" using split d by simp
    from less.hyps [OF this st2(2,3) cs'(2) _ nil] obtain st' where
      l: "relay_loop p n (int (length ?d)) ?d st2 = Some st'"
      and out: "outbox st' = (outbox st2)(fd t1 := outbox st2 (fd t1) @ ?d @ concat cs')"
        "inbox st' (fd s) = []" "closedFds st' = closedFds st2" "conf st' = conf st2" by auto
    have a: "both_alive p n st = Some True" using ok by (simp add: both_alive_def the_sock_def)
    have "relay_loop p n (int (length d)) d st = Some st'"
      by (subst relay_loop.simps) (use d a w [folded t1_def, folded st1_def] r l in simp)
    then show ?thesis using out unfolding split by (intro exI [of _ st']) (simp add: st2 st1_def t1_def)
  qed
qed

lemma read_relay_forwards:
  assumes "relay_ok st p s n t" and "relay_next hs = Some n" and "\<not> relay_isWaiting hs"
    and "inbox st (fd s) = map Recv cs" and "[] \<notin> set cs"
  shows "\<exists>st'. read_relay p hs st = Some (True, st')
    \<and> outbox st' = (outbox st)(fd t := outbox st (fd t) @ concat cs)
    \<and> inbox st' (fd s) = [] \<and> closedFds st' = closedFds st \<and> conf st' = conf st"
proof -
  from relay_read [OF assms(1,4,5), of BUFF_SIZE] obtain cs' st1 where
    r: "sock_read BUFF_SIZE p st = Some (int (length (take BUFF_SIZE (concat cs))), take BUFF_SIZE (concat cs), st1)"
    and st1: "st1 = st\<lparr>inbox := (inbox st)(fd s := map Recv cs')\<rparr>" "relay_ok st1 p s n t" "inbox st1 (fd s) = map Recv cs'"
    and cs': "concat cs' = drop BUFF_SIZE (concat cs)" "[] \<notin> set cs'" by blast
  have nil: "take BUFF_SIZE (concat cs) = [] \<longrightarrow> cs' = []" using drained [OF cs'] by (simp add: BUFF_SIZE_def)
  from relay_loop_forwards [OF st1(2,3) cs'(2) _ nil] obtain st' where
    "relay_loop p n (int (length (take BUFF_SIZE (concat cs)))) (take BUFF_SIZE (concat cs)) st1 = Some st'"
    "outbox st' = (outbox st1)(fd t := outbox st1 (fd t) @ take BUFF_SIZE (concat cs) @ concat cs')"
    "inbox st' (fd s) = []" "closedFds st' = closedFds st1" "conf st' = conf st1" by auto
  with assms(2,3) r st1(1) cs' show ?thesis
    by (intro exI [of _ st']) (simp add: read_relay_def)
qed

text \<open>
  (C9) A relay forwards the stream: when both ends are alive and the outgoing end takes
  bytes, one read event moves everything that has arrived on one socket, in order and however
  it was cut into segments, to the other, and closes nothing.
\<close>

theorem relay_forwards:
  assumes "relay_ok st p s n t" and "relay_next hs = Some n" and "\<not> relay_isWaiting hs"
    and "inbox st (fd s) = map Recv cs" and "[] \<notin> set cs"
  shows "\<exists>st'. read_relay p hs st = Some (True, st')
    \<and> outbox st' = (outbox st)(fd t := outbox st (fd t) @ concat cs)
    \<and> inbox st' (fd s) = [] \<and> closedFds st' = closedFds st"
  using read_relay_forwards [OF assms] by blast

theorem relay_forwards_witness:
  "let st = hn_idle\<lparr>socks := Map.empty(1 \<mapsto> (sock_init TCPSOCKET 5)\<lparr>isBlocking := False\<rparr>, 2 \<mapsto> (sock_init TCPSOCKET 6)\<lparr>isBlocking := False\<rparr>),
        inbox := (\<lambda>_. [])(5 := [Recv ''ab'', Recv ''c''])\<rparr>
   in \<exists>st'. read_relay 1 ((fresh_hn 1 SOCK_MODE_RELAY True)\<lparr>relay_next := Some 2\<rparr>) st = Some (True, st') \<and> outbox st' 6 = ''abc''"
proof -
  let ?s = "(sock_init TCPSOCKET 5)\<lparr>isBlocking := False\<rparr>" and ?t = "(sock_init TCPSOCKET 6)\<lparr>isBlocking := False\<rparr>"
  let ?hs = "(fresh_hn 1 SOCK_MODE_RELAY True)\<lparr>relay_next := Some 2\<rparr>"
  define st where "st = hn_idle\<lparr>socks := Map.empty(1 \<mapsto> ?s, 2 \<mapsto> ?t), inbox := (\<lambda>_. [])(5 := [Recv ''ab'', Recv ''c''])\<rparr>"
  have ok: "relay_ok st 1 ?s 2 ?t" by (simp add: relay_ok_def st_def) (simp add: sock_init_def hn_idle_def)
  from relay_forwards [OF ok, of ?hs "[''ab'', ''c'']"] obtain st' where "read_relay 1 ?hs st = Some (True, st')"
    and "outbox st' = (outbox st)(fd ?t := outbox st (fd ?t) @ ''abc'')"
    by (auto simp: fresh_hn_def st_def sock_init_def)
  then show ?thesis unfolding Let_def st_def [symmetric]
    by (intro exI [of _ st']) (simp add: st_def hn_idle_def sock_init_def)
qed

lemma read_loop_closed:
  "inbox st f = map Recv cs @ [Recv_closed] \<Longrightarrow> [] \<notin> set cs \<Longrightarrow> length (concat cs) < mx \<Longrightarrow> socks st p = Some s \<Longrightarrow>
   isAlive s \<noteq> SOCKET_DEAD \<Longrightarrow>
   read_loop p f mx st = Some (concat cs, st\<lparr>inbox := (inbox st)(f := [Recv_closed]),
     socks := (socks st)(p \<mapsto> s\<lparr>isAlive := SOCKET_DEAD\<rparr>), closedFds := closedFds st @ [fd s]\<rparr>)"
proof (induction cs arbitrary: st mx)
  case Nil
  have i: "inbox st f = [Recv_closed]" and mx: "mx \<noteq> 0" using Nil by simp_all
  have c: "sock_close p st = Some (True, st\<lparr>socks := (socks st)(p \<mapsto> s\<lparr>isAlive := SOCKET_DEAD\<rparr>), closedFds := closedFds st @ [fd s]\<rparr>)"
    using Nil by (simp add: sock_close_def the_sock_def upd_sock_def)
  have same: "st\<lparr>inbox := (inbox st)(f := [Recv_closed])\<rparr> = st" unfolding i [symmetric] by simp
  have "read_loop p f mx st = Some ([], st\<lparr>socks := (socks st)(p \<mapsto> s\<lparr>isAlive := SOCKET_DEAD\<rparr>), closedFds := closedFds st @ [fd s]\<rparr>)"
    using i mx c by (simp add: read_loop.simps [of p f mx st] os_recv_def)
  then show ?case unfolding same concat.simps .
next
  case (Cons c cs)
  define st1 where "st1 = st\<lparr>inbox := (inbox st)(f := map Recv cs @ [Recv_closed])\<rparr>"
  have c: "c \<noteq> []" "length c \<le> mx" using Cons.prems by auto
  have o: "os_recv f mx st = (int (length c), c, False, st1)"
    using Cons.prems c by (simp add: os_recv_def st1_def)
  have r: "read_loop p f (mx - length c) st1 = Some (concat cs, st1\<lparr>inbox := (inbox st1)(f := [Recv_closed]),
     socks := (socks st1)(p \<mapsto> s\<lparr>isAlive := SOCKET_DEAD\<rparr>), closedFds := closedFds st1 @ [fd s]\<rparr>)"
    by (rule Cons.IH) (use Cons.prems in \<open>auto simp: st1_def\<close>)
  have "read_loop p f mx st = Some (c @ concat cs, st1\<lparr>inbox := (inbox st1)(f := [Recv_closed]),
     socks := (socks st1)(p \<mapsto> s\<lparr>isAlive := SOCKET_DEAD\<rparr>), closedFds := closedFds st1 @ [fd s]\<rparr>)"
    by (subst read_loop.simps) (use c o r in \<open>cases mx; auto\<close>)
  moreover have "st1\<lparr>inbox := (inbox st1)(f := [Recv_closed]),
      socks := (socks st1)(p \<mapsto> s\<lparr>isAlive := SOCKET_DEAD\<rparr>), closedFds := closedFds st1 @ [fd s]\<rparr>
    = st\<lparr>inbox := (inbox st)(f := [Recv_closed]),
      socks := (socks st)(p \<mapsto> s\<lparr>isAlive := SOCKET_DEAD\<rparr>), closedFds := closedFds st @ [fd s]\<rparr>"
    by (simp add: st1_def)
  ultimately show ?case by (simp only: concat.simps)
qed

text \<open>
  A relay loses the end of a stream: when the last bytes of a connection (fewer than
  600) are pending together with its end, one read event takes the bytes, notices the end,
  closes the socket and forwards nothing.
\<close>

theorem relay_drops_tail:
  assumes "relay_ok st p s n t" and "relay_next hs = Some n" and "\<not> relay_isWaiting hs"
    and "inbox st (fd s) = map Recv cs @ [Recv_closed]" and "[] \<notin> set cs" and "length (concat cs) < 600"
  shows "\<exists>st'. read_relay p hs st = Some (True, st') \<and> outbox st' = outbox st
    \<and> inbox st' (fd s) = [Recv_closed] \<and> closedFds st' = closedFds st @ [fd s]"
proof -
  note ok = assms(1) [unfolded relay_ok_def]
  define st1 where "st1 = st\<lparr>inbox := (inbox st)(fd s := [Recv_closed]),
     socks := (socks st)(p \<mapsto> s\<lparr>isAlive := SOCKET_DEAD\<rparr>), closedFds := closedFds st @ [fd s]\<rparr>"
  have "read_loop p (fd s) BUFF_SIZE st = Some (concat cs, st1)"
    unfolding st1_def by (rule read_loop_closed) (use assms ok in \<open>auto simp: BUFF_SIZE_def\<close>)
  then have r: "sock_read BUFF_SIZE p st = Some (int (length (concat cs)), concat cs, st1)"
    using ok by (simp add: sock_read_def the_sock_def)
  have "both_alive p n st1 = Some False" by (simp add: both_alive_def the_sock_def st1_def)
  then have "relay_loop p n (int (length (concat cs))) (concat cs) st1 = Some st1"
    by (subst relay_loop.simps) simp
  with r assms(2,3) have "read_relay p hs st = Some (True, st1)" by (simp add: read_relay_def)
  then show ?thesis by (intro exI [of _ st1]) (simp add: st1_def)
qed

theorem relay_drops_tail_witness:
  "let st = hn_idle\<lparr>socks := Map.empty(1 \<mapsto> (sock_init TCPSOCKET 5)\<lparr>isBlocking := False\<rparr>, 2 \<mapsto> (sock_init TCPSOCKET 6)\<lparr>isBlocking := False\<rparr>),
        inbox := (\<lambda>_. [])(5 := [Recv ''bye'', Recv_closed])\<rparr>
   in \<exists>st'. read_relay 1 ((fresh_hn 1 SOCK_MODE_RELAY True)\<lparr>relay_next := Some 2\<rparr>) st = Some (True, st') \<and> outbox st' 6 = []"
proof -
  let ?s = "(sock_init TCPSOCKET 5)\<lparr>isBlocking := False\<rparr>" and ?t = "(sock_init TCPSOCKET 6)\<lparr>isBlocking := False\<rparr>"
  let ?hs = "(fresh_hn 1 SOCK_MODE_RELAY True)\<lparr>relay_next := Some 2\<rparr>"
  define st where "st = hn_idle\<lparr>socks := Map.empty(1 \<mapsto> ?s, 2 \<mapsto> ?t), inbox := (\<lambda>_. [])(5 := [Recv ''bye'', Recv_closed])\<rparr>"
  have ok: "relay_ok st 1 ?s 2 ?t" by (simp add: relay_ok_def st_def) (simp add: sock_init_def hn_idle_def)
  from relay_drops_tail [OF ok, of ?hs "[''bye'']"] obtain st' where "read_relay 1 ?hs st = Some (True, st')"
    and "outbox st' = outbox st"
    by (auto simp: fresh_hn_def st_def sock_init_def)
  then show ?thesis unfolding Let_def st_def [symmetric]
    by (intro exI [of _ st']) (simp add: st_def hn_idle_def)
qed

section \<open>Closing a relay\<close>

text \<open>
  (C39) Closing one end of a relay leaves a dangling pointer behind: the close handler of the
  first end marks the second as closed too, the next wait takes the first out of the list of
  sockets and frees it, and the close handler of the second, which is still allocated, then
  reads the freed socket through its link, which is a fault.
\<close>

theorem relay_close_dangles:
  assumes "p \<noteq> n" and "hp \<noteq> hq" and "p \<in> set (list_start (sockList st))"
    and "socks st p = Some s" and "ptr s = Some hp" and "hnSocks st hp = Some a"
    and "hn_mode a = SOCK_MODE_RELAY" and "relay_next a = Some n" and "\<not> relay_isWaiting a"
    and "socks st n = Some t" and "ptr t = Some hq" and "hnSocks st hq = Some b"
    and "hn_mode b = SOCK_MODE_RELAY" and "relay_next b = Some p"
    and "isAlive t = SOCKET_ALIVE" and "buf_size (writeBuffer t) = 0" and "sockToRemove wt = Some p"
  shows "\<exists>st1 wt' st2 t1. handleClose p st = Some (Running True, st1) \<and> remove_sock wt st1 = Some (wt', st2)
    \<and> socks st2 p = None \<and> socks st2 n = Some t1 \<and> isAlive t1 = SOCKET_DEAD \<and> handleClose n st2 = None"
proof -
  define t1 where "t1 = t\<lparr>isAlive := SOCKET_DEAD\<rparr>"
  define st0 where "st0 = st\<lparr>socks := (socks st)(n \<mapsto> t1), closedFds := closedFds st @ [fd t]\<rparr>"
  define st1 where "st1 = st0\<lparr>hnSocks := (hnSocks st0)(hp := None)\<rparr>"
  have d: "sock_done n st = Some (SOCKET_DEAD, st0)"
    using assms(10,15,16)
    by (simp add: sock_done_def sock_close_def the_sock_def upd_sock_def buffer_isEmpty_def st0_def t1_def)
  have c: "hn_sockCleanup hp ctx st = Some st1" for ctx
    using assms(6-9) d by (simp add: hn_sockCleanup_def the_hn_def free_hn_def st1_def st0_def)
  have h: "handleClose p st = Some (Running True, st1)"
    using assms(4-7) c by (simp add: handleClose_def the_sock_def the_hn_def)
  have at: "list_start (sockList st1) \<noteq> []" "socks st1 p = Some s" "socks st1 n = Some t1" "hnSocks st1 hq = Some b"
    using assms(1-4,12) by (auto simp: st1_def st0_def)
  obtain xs z where "list_start (sockList st1) = xs @ [z]" using at(1) by (metis append_butlast_last_id)
  then obtain r l where "list_remove (sockList st1) p = Some (r, l)" by (simp add: list_remove_def list_remove_loop_butlast)
  then obtain st2 where r: "remove_sock wt st1 = Some (wt\<lparr>sockToRemove := None\<rparr>, st2)"
    and m: "socks st2 p = None" "socks st2 n = Some t1" "hnSocks st2 hq = Some b"
    using at(2-4) assms(1,17) by (auto simp: remove_sock_def sock_cleanup_def upd_sock_def free_sock_def)
  from m assms(11,13,14) have "handleClose n st2 = None"
    by (simp add: handleClose_def the_sock_def the_hn_def hn_sockCleanup_def sock_done_def t1_def)
  with h r m show ?thesis by (intro exI [of _ st1] exI [of _ "wt\<lparr>sockToRemove := None\<rparr>"] exI [of _ st2] exI [of _ t1]) (simp add: t1_def)
qed

text \<open>Two linked ends and the listening socket of the bridge behind them in the list.\<close>

definition linked_end :: "int \<Rightarrow> nat \<Rightarrow> Socket" where
  "linked_end f h = (sock_init TCPSOCKET f)\<lparr>ptr := Some h\<rparr>"

definition linked_relay :: "sock_ptr \<Rightarrow> sock_ptr \<Rightarrow> hn_Socket" where
  "linked_relay p n = (fresh_hn p SOCK_MODE_RELAY True)\<lparr>relay_next := Some n\<rparr>"

definition linked_state :: hn where
  "linked_state = hn_idle\<lparr>socks := Map.empty(1 \<mapsto> linked_end 5 11, 2 \<mapsto> linked_end 6 12, 3 \<mapsto> sock_init TCPSOCKET 7),
     hnSocks := Map.empty(11 \<mapsto> linked_relay 1 2, 12 \<mapsto> linked_relay 2 1), sockList := list_init\<lparr>list_start := [1, 2, 3]\<rparr>\<rparr>"

definition removing_wait :: "sock_ptr \<Rightarrow> waiter" where
  "removing_wait p = \<lparr>readSet = [], writeSet = [], fdsToProcess = 0, sockToRemove = Some p, selects = []\<rparr>"

theorem relay_close_dangles_witness:
  "\<exists>st1 wt' st2. handleClose 1 linked_state = Some (Running True, st1) \<and> remove_sock (removing_wait 1) st1 = Some (wt', st2)
     \<and> handleClose 2 st2 = None"
proof -
  have "\<exists>st1 wt' st2 t1. handleClose 1 linked_state = Some (Running True, st1) \<and> remove_sock (removing_wait 1) st1 = Some (wt', st2)
    \<and> socks st2 1 = None \<and> socks st2 2 = Some t1 \<and> isAlive t1 = SOCKET_DEAD \<and> handleClose 2 st2 = None"
    by (rule relay_close_dangles [of 1 2 11 12 _ "linked_end 5 11" "linked_relay 1 2" "linked_end 6 12" "linked_relay 2 1"])
       (simp_all add: linked_state_def linked_end_def linked_relay_def removing_wait_def fresh_hn_def sock_init_def buffer_init_def Let_def)
  then show ?thesis by blast
qed

section \<open>Authentication of connections\<close>

lemma reject_refuses: "reject q s \<noteq> Some (True, s')"
  by (auto simp: reject_def bind_eq_Some_conv)

lemma challenge_passed:
  assumes "authThrowChallenge os p ks st = Some (True, resp, st1)" and "generateCode os 15 st = (nonce, st0)"
  shows "\<exists>key salt. map_get ks key = Some salt \<and> resp = key @ '' '' @ sha512_hex (nonce @ ''|'' @ key @ ''|'' @ salt)"
proof -
  have "verifyAuthRespFromMap resp nonce ks = Some True"
    using assms by (auto simp: authThrowChallenge_def generateAuthChallenge_def bind_eq_Some_conv split: if_splits prod.splits)
  from verify_iff [OF this] show ?thesis unfolding auth_raw_def by blast
qed

lemma accepted_was_challenged:
  assumes "connect_authRequired os url st = Some True" and "second_word buff = Some url" and "get_ctx st = Some c"
    and "new_connect os p buff st = Some (True, st')" and "generateCode os 15 st = (nonce, st0)"
  shows "\<exists>key salt st1. map_get (queryKeys c) key = Some salt
    \<and> authThrowChallenge os p (queryKeys c) st = Some (True, key @ '' '' @ sha512_hex (nonce @ ''|'' @ key @ ''|'' @ salt), st1)"
proof -
  from assms(1-4) obtain resp st1 where a: "authThrowChallenge os p (queryKeys c) st = Some (True, resp, st1)"
    by (auto simp: new_connect_def bind_eq_Some_conv reject_refuses split: if_splits prod.splits)
  with challenge_passed [OF this assms(5)] show ?thesis by blast
qed

text \<open>
  (C8) With the authentication level set to all, a bridge relays a connection only for a
  client that knows a key: a request faults, is refused, or the client answered the nonce of
  this request with a key of the store and the digest of nonce, key and the stored salt.
\<close>

theorem connect_requires_auth:
  assumes "cf_mode (conf st) = Some HN_MODE_BRIDGE" and "bridge (conf st) = Some b"
    and "connectAuthLevel b = 2" and "generateCode os 15 st = (nonce, st0)"
  shows "new_connect os p buff st = None \<or> (\<exists>st'. new_connect os p buff st = Some (False, st'))
    \<or> (\<exists>key salt st1. map_get (queryKeys (br_context b)) key = Some salt
        \<and> authThrowChallenge os p (queryKeys (br_context b)) st
            = Some (True, key @ '' '' @ sha512_hex (nonce @ ''|'' @ key @ ''|'' @ salt), st1))"
proof (cases "new_connect os p buff st")
  case (Some r)
  obtain ok st' where r: "r = (ok, st')" by (cases r)
  show ?thesis
  proof (cases ok)
    case True
    with Some r have n: "new_connect os p buff st = Some (True, st')" by simp
    from n obtain url where u: "second_word buff = Some url"
      by (auto simp: new_connect_def reject_refuses split: option.splits)
    have "connect_authRequired os url st = Some True"
      using assms(1-3) by (simp add: connect_authRequired_def AUTH_LEVEL_ALL_def AUTH_LEVEL_NONE_def)
    moreover have "get_ctx st = Some (br_context b)" using assms(2) by (simp add: get_ctx_def)
    ultimately show ?thesis using accepted_was_challenged u n assms(4) by blast
  qed (use Some r in simp)
qed simp

theorem connect_requires_auth_witness:
  "let st = hn_idle\<lparr>conf := (conf hn_idle)\<lparr>cf_mode := Some HN_MODE_BRIDGE, bridge := Some (bridge_idle\<lparr>connectAuthLevel := 2\<rparr>)\<rparr>,
         socks := Map.empty(1 \<mapsto> sock_init TCPSOCKET 5)\<rparr>
   in new_connect os_plain 1 ''HN1.0/CONNECT 10.0.0.7'' st = None
     \<or> (\<exists>st'. new_connect os_plain 1 ''HN1.0/CONNECT 10.0.0.7'' st = Some (False, st'))"
proof -
  let ?st = "hn_idle\<lparr>conf := (conf hn_idle)\<lparr>cf_mode := Some HN_MODE_BRIDGE, bridge := Some (bridge_idle\<lparr>connectAuthLevel := 2\<rparr>)\<rparr>,
         socks := Map.empty(1 \<mapsto> sock_init TCPSOCKET 5)\<rparr>"
  obtain nonce st0 where g: "generateCode os_plain 15 ?st = (nonce, st0)" by (cases "generateCode os_plain 15 ?st")
  have "map_get (queryKeys (br_context (bridge_idle\<lparr>connectAuthLevel := 2\<rparr>))) key = None" for key
    by (simp add: bridge_idle_def bridgeContextInit_def)
  with connect_requires_auth [OF _ _ _ g, of "bridge_idle\<lparr>connectAuthLevel := 2\<rparr>" 1 "''HN1.0/CONNECT 10.0.0.7''"]
  show ?thesis unfolding Let_def by simp
qed

section \<open>Completing a reverse connection\<close>

lemma hn_sendMsg_watched:
  assumes "socks st q = Some t" and "isAlive t = SOCKET_ALIVE" and "\<not> isBlocking t" and "buf_size (writeBuffer t) = 0"
    and "\<forall>w\<in>set (wscript st (fd t)). 0 < w" and "ptr t = Some h" and "hnSocks st h = Some hs" and "isUpgraded hs"
    and "length m + 2 < BUFF_SIZE"
  shows "\<exists>ws. hn_sendMsg q m st = Some (int (length m) + 2, m @ HN_MSG_END,
      st\<lparr>socks := (socks st)(q \<mapsto> t\<lparr>listenForWritable := False\<rparr>),
         wscript := (wscript st)(fd t := ws), outbox := (outbox st)(fd t := outbox st (fd t) @ m @ HN_MSG_END)\<rparr>)
    \<and> (\<forall>k\<in>set ws. 0 < k)"
proof -
  from sock_write_all [OF assms(1-5), of "m @ HN_MSG_END"] obtain ws where
    "sock_write q (m @ HN_MSG_END) st = Some (int (length m) + 2, st\<lparr>socks := (socks st)(q \<mapsto> t\<lparr>listenForWritable := False\<rparr>),
      wscript := (wscript st)(fd t := ws), outbox := (outbox st)(fd t := outbox st (fd t) @ m @ HN_MSG_END)\<rparr>)" "\<forall>k\<in>set ws. 0 < k"
    by (auto simp: HN_MSG_END_def)
  moreover have "length (m @ HN_MSG_END) < BUFF_SIZE" using assms(9) by (simp add: HN_MSG_END_def)
  ultimately show ?thesis using assms(1,6-8)
    by (intro exI [of _ ws]) (simp add: hn_sendMsg_def the_sock_def the_hn_def fits_def)
qed

text \<open>The two sockets of a reverse connection: the one that just connected and the one that waits.\<close>

definition reverse_ready :: "hn \<Rightarrow> sock_ptr \<Rightarrow> Socket \<Rightarrow> hn_ptr \<Rightarrow> hn_Socket \<Rightarrow> Socket \<Rightarrow> bool" where
  "reverse_ready st p s wh w t \<longleftrightarrow>
     socks st p = Some s \<and> isAlive s \<noteq> SOCKET_DEAD \<and> isBlocking s \<and> 0 \<le> fd s \<and> (\<forall>k\<in>set (wscript st (fd s)). 0 < k)
     \<and> hnSocks st wh = Some w \<and> isUpgraded w \<and> hn_sock w \<noteq> p
     \<and> socks st (hn_sock w) = Some t \<and> ptr t = Some wh \<and> isAlive t = SOCKET_ALIVE \<and> \<not> isBlocking t
     \<and> buf_size (writeBuffer t) = 0 \<and> (\<forall>k\<in>set (wscript st (fd t)). 0 < k) \<and> fd s \<noteq> fd t
     \<and> wh < nextPtr st"

lemma reverse_ready_send:
  assumes "reverse_ready st p s wh w t" and "hnSocks st h = Some a" and "isUpgraded a" and "ptr s = Some h"
    and "length m + 4 < BUFF_SIZE"
  shows "\<exists>n st1 n' b st2. hn_sendMsg p m st = Some (n, m @ HN_MSG_END, st1)
    \<and> hn_sendMsg (hn_sock w) (m @ HN_MSG_END) st1 = Some (n', b, st2)
    \<and> outbox st2 = (outbox st)(fd s := outbox st (fd s) @ m @ HN_MSG_END, fd t := outbox st (fd t) @ m @ HN_MSG_END @ HN_MSG_END)
    \<and> hnSocks st2 = hnSocks st \<and> socks st2 = (socks st)(hn_sock w \<mapsto> t\<lparr>listenForWritable := False\<rparr>)
    \<and> conf st2 = conf st \<and> sockList st2 = sockList st \<and> inbox st2 = inbox st
    \<and> (\<forall>k\<in>set (wscript st2 (fd s)). 0 < k) \<and> (\<forall>k\<in>set (wscript st2 (fd t)). 0 < k)"
proof -
  note r = assms(1) [unfolded reverse_ready_def]
  have "msg_ready st p s" using r assms(2-4) by (simp add: msg_ready_def)
  from hn_sendMsg_ready [OF this, of m] assms(5) obtain ws where
    a: "hn_sendMsg p m st = Some (int (length m) + 2, m @ HN_MSG_END,
      st\<lparr>wscript := (wscript st)(fd s := ws), outbox := (outbox st)(fd s := outbox st (fd s) @ m @ HN_MSG_END)\<rparr>)"
    and wp: "\<forall>k\<in>set ws. 0 < k" by auto
  define st1 where "st1 = st\<lparr>wscript := (wscript st)(fd s := ws), outbox := (outbox st)(fd s := outbox st (fd s) @ m @ HN_MSG_END)\<rparr>"
  have s1: "socks st1 (hn_sock w) = Some t" "\<forall>k\<in>set (wscript st1 (fd t)). 0 < k" "hnSocks st1 wh = Some w"
    using r by (simp_all add: st1_def)
  have l: "length (m @ HN_MSG_END) + 2 < BUFF_SIZE" using assms(5) by (simp add: HN_MSG_END_def)
  obtain ws' where b: "hn_sendMsg (hn_sock w) (m @ HN_MSG_END) st1
    = Some (int (length (m @ HN_MSG_END)) + 2, (m @ HN_MSG_END) @ HN_MSG_END,
      st1\<lparr>socks := (socks st1)(hn_sock w \<mapsto> t\<lparr>listenForWritable := False\<rparr>), wscript := (wscript st1)(fd t := ws'),
          outbox := (outbox st1)(fd t := outbox st1 (fd t) @ (m @ HN_MSG_END) @ HN_MSG_END)\<rparr>)"
    and wp': "\<forall>k\<in>set ws'. 0 < k"
    using hn_sendMsg_watched [OF s1(1) _ _ _ s1(2) _ s1(3) _ l] r by blast
  show ?thesis
    by (intro exI conjI, rule a [folded st1_def], rule b) (use r wp wp' in \<open>auto simp: st1_def\<close>)
qed

text \<open>Both ends point to each other, and both get the acknowledgement.\<close>

lemma reverse_links:
  fixes st p s w
  defines "a \<equiv> (fresh_hn p SOCK_MODE_RELAY True)\<lparr>relay_next := Some (hn_sock w), relay_isWaiting := False\<rparr>"
    and "w' \<equiv> w\<lparr>relay_next := Some p, relay_isWaiting := False\<rparr>" and "s' \<equiv> s\<lparr>ptr := Some (nextPtr st)\<rparr>"
  assumes r: "reverse_ready st p s wh w t"
  shows "\<exists>st2 st4 n st5 n' b st6. hn_sockInit p SOCK_MODE_RELAY True st = Some (nextPtr st, st2) \<and> the_hn st2 wh = Some w
    \<and> upd_hn (nextPtr st) (\<lambda>hs. hs\<lparr>relay_next := Some (hn_sock w), relay_isWaiting := False\<rparr>) st2
        \<bind> upd_hn wh (\<lambda>hs. hs\<lparr>relay_next := Some p, relay_isWaiting := False\<rparr>) = Some st4
    \<and> hn_sendMsg p ''CONNECTED'' st4 = Some (n, ''CONNECTED'' @ HN_MSG_END, st5)
    \<and> hn_sendMsg (hn_sock w) (''CONNECTED'' @ HN_MSG_END) st5 = Some (n', b, st6)
    \<and> outbox st6 = (outbox st)(fd s := outbox st (fd s) @ ''CONNECTED'' @ HN_MSG_END,
        fd t := outbox st (fd t) @ ''CONNECTED'' @ HN_MSG_END @ HN_MSG_END)
    \<and> hnSocks st6 = (hnSocks st)(nextPtr st \<mapsto> a, wh \<mapsto> w') \<and> socks st6 = (socks st)(p \<mapsto> s', hn_sock w \<mapsto> t\<lparr>listenForWritable := False\<rparr>)
    \<and> conf st6 = conf st \<and> sockList st6 = sockList st \<and> inbox st6 = inbox st
    \<and> (\<forall>k\<in>set (wscript st6 (fd s)). 0 < k) \<and> (\<forall>k\<in>set (wscript st6 (fd t)). 0 < k)"
proof -
  note u = r [unfolded reverse_ready_def]
  define st2 where "st2 = st\<lparr>hnSocks := (hnSocks st)(nextPtr st \<mapsto> fresh_hn p SOCK_MODE_RELAY True), socks := (socks st)(p \<mapsto> s'),
    nextPtr := nextPtr st + 1\<rparr>"
  define st4 where "st4 = st\<lparr>hnSocks := (hnSocks st)(nextPtr st \<mapsto> a, wh \<mapsto> w'), socks := (socks st)(p \<mapsto> s'), nextPtr := nextPtr st + 1\<rparr>"
  have i: "hn_sockInit p SOCK_MODE_RELAY True st = Some (nextPtr st, st2)"
    using u by (simp add: hn_sockInit_def alloc_hn_def upd_sock_def st2_def s'_def)
  have wh: "the_hn st2 wh = Some w" using u by (simp add: st2_def the_hn_def)
  have links: "upd_hn (nextPtr st) (\<lambda>hs. hs\<lparr>relay_next := Some (hn_sock w), relay_isWaiting := False\<rparr>) st2
      \<bind> upd_hn wh (\<lambda>hs. hs\<lparr>relay_next := Some p, relay_isWaiting := False\<rparr>) = Some st4"
    using u by (simp add: upd_hn_def st2_def st4_def a_def w'_def)
  have rr: "reverse_ready st4 p s' wh w' t" using u by (auto simp: reverse_ready_def st4_def w'_def s'_def)
  have a4: "hnSocks st4 (nextPtr st) = Some a" "isUpgraded a" "ptr s' = Some (nextPtr st)"
    using u by (simp_all add: st4_def a_def fresh_hn_def s'_def)
  have "length ''CONNECTED'' + 4 < BUFF_SIZE" by (simp add: BUFF_SIZE_def)
  from i wh links reverse_ready_send [OF rr a4 this] show ?thesis by (auto simp: st4_def w'_def s'_def)
qed

lemma reverse_completes:
  assumes "second_word buff = Some lid" and "third_word buff = Some otp"
    and "listens st lid h hs" and "map_get (waitingSocks hs) otp = Some wh" and "h < nextPtr st" and "wh \<noteq> h"
    and "reverse_ready st p s wh w t"
  shows "\<exists>st' a w'. new_listen_connect os p buff st = Some (True, st')
    \<and> outbox st' = (outbox st)(fd s := outbox st (fd s) @ ''CONNECTED'' @ HN_MSG_END,
                               fd t := outbox st (fd t) @ ''CONNECTED'' @ HN_MSG_END @ HN_MSG_END)
    \<and> getWaitingSocket lid otp st' = Some None
    \<and> hnSocks st' (nextPtr st) = Some a \<and> relay_next a = Some (hn_sock w) \<and> \<not> relay_isWaiting a
    \<and> hnSocks st' wh = Some w' \<and> relay_next w' = Some p \<and> \<not> relay_isWaiting w'
    \<and> list_start (sockList st') = p # list_start (sockList st)
    \<and> socks st' = (socks st)(p \<mapsto> s\<lparr>ptr := Some (nextPtr st), isBlocking := False\<rparr>, hn_sock w \<mapsto> t\<lparr>listenForWritable := False\<rparr>)
    \<and> hn_mode a = SOCK_MODE_RELAY \<and> hn_mode w' = hn_mode w
    \<and> inbox st' = inbox st \<and> (\<forall>k\<in>set (wscript st' (fd s)). 0 < k) \<and> (\<forall>k\<in>set (wscript st' (fd t)). 0 < k)"
proof -
  have inv: "map_inv (waitingSocks hs)" and hh: "hnSocks st h = Some hs" using assms(3) by (simp_all add: listens_def)
  have get: "getWaitingSocket lid otp st = Some (Some wh)" using listens_get [OF assms(3)] assms(4) by simp
  obtain r0 m fr where d: "map_del (waitingSocks hs) otp False = (r0, m, fr)" by (cases "map_del (waitingSocks hs) otp False")
  have m: "map_inv m" "map_get m otp = None" using map_del_spec [OF inv d] by auto
  define st1 where "st1 = st\<lparr>hnSocks := (hnSocks st)(h \<mapsto> hs\<lparr>waitingSocks := m\<rparr>)\<rparr>"
  have st1: "nextPtr st1 = nextPtr st" "outbox st1 = outbox st" "conf st1 = conf st" "sockList st1 = sockList st" by (simp_all add: st1_def)
  have rem: "removeWaitingSocket lid otp st = Some (r0, st1)"
    using d hh by (simp add: removeWaitingSocket_def listens_active [OF assms(3)] upd_hn_def st1_def)
  have r: "reverse_ready st1 p s wh w t" using assms(6,7) by (simp add: reverse_ready_def st1_def)
  let ?a = "(fresh_hn p SOCK_MODE_RELAY True)\<lparr>relay_next := Some (hn_sock w), relay_isWaiting := False\<rparr>"
  let ?w = "w\<lparr>relay_next := Some p, relay_isWaiting := False\<rparr>"
  let ?s = "s\<lparr>ptr := Some (nextPtr st)\<rparr>"
  from reverse_links [OF r, unfolded st1] obtain st2 st4 n st5 n' b st6 where
    c: "hn_sockInit p SOCK_MODE_RELAY True st1 = Some (nextPtr st, st2)" "the_hn st2 wh = Some w"
      "upd_hn (nextPtr st) (\<lambda>hs. hs\<lparr>relay_next := Some (hn_sock w), relay_isWaiting := False\<rparr>) st2
        \<bind> upd_hn wh (\<lambda>hs. hs\<lparr>relay_next := Some p, relay_isWaiting := False\<rparr>) = Some st4"
      "hn_sendMsg p ''CONNECTED'' st4 = Some (n, ''CONNECTED'' @ HN_MSG_END, st5)"
      "hn_sendMsg (hn_sock w) (''CONNECTED'' @ HN_MSG_END) st5 = Some (n', b, st6)"
    and o6: "outbox st6 = (outbox st)(fd s := outbox st (fd s) @ ''CONNECTED'' @ HN_MSG_END,
        fd t := outbox st (fd t) @ ''CONNECTED'' @ HN_MSG_END @ HN_MSG_END)"
    and f6: "hnSocks st6 = (hnSocks st1)(nextPtr st \<mapsto> ?a, wh \<mapsto> ?w)" "socks st6 = (socks st1)(p \<mapsto> ?s, hn_sock w \<mapsto> t\<lparr>listenForWritable := False\<rparr>)" "conf st6 = conf st" "sockList st6 = sockList st"
      "inbox st6 = inbox st1" "\<forall>k\<in>set (wscript st6 (fd s)). 0 < k" "\<forall>k\<in>set (wscript st6 (fd t)). 0 < k"
    by blast
  have pw: "p \<noteq> hn_sock w" using assms(7) by (simp add: reverse_ready_def)
  define st7 where "st7 = add_sock p (st6\<lparr>socks := (socks st6)(p \<mapsto> ?s\<lparr>isBlocking := False\<rparr>)\<rparr>)"
  have "accept_sock p st6 = Some (True, st7)"
    using f6 pw assms(7) by (simp add: reverse_ready_def accept_sock_def watch_sock_def sock_setNonBlocking_def the_sock_def upd_sock_def st7_def)
  then have new: "new_listen_connect os p buff st = Some (True, st7)"
    using assms(1,2) get rem c by (auto simp: new_listen_connect_def bind_eq_Some_conv)
  have hn7: "hnSocks st7 = hnSocks st6" "conf st7 = conf st" "outbox st7 = outbox st6"
    "list_start (sockList st7) = p # list_start (sockList st)" by (simp_all add: st7_def add_sock_def f6 list_add_def)
  have s7: "socks st7 = (socks st)(p \<mapsto> s\<lparr>ptr := Some (nextPtr st), isBlocking := False\<rparr>, hn_sock w \<mapsto> t\<lparr>listenForWritable := False\<rparr>)"
    "inbox st7 = inbox st" "wscript st7 = wscript st6"
    using pw by (auto simp: st7_def add_sock_def f6 st1_def)
  have "listens st7 lid h (hs\<lparr>waitingSocks := m\<rparr>)"
    using assms(3,5,6) m hn7 by (auto simp: listens_def get_ctx_def f6 st1_def)
  from listens_get [OF this] m have g7: "getWaitingSocket lid otp st7 = Some None" by simp
  show ?thesis
    by (rule exI [of _ st7], rule exI [of _ ?a], rule exI [of _ ?w])
       (use new g7 hn7 o6 r s7 f6(6,7) in \<open>simp add: f6 reverse_ready_def st1_def fresh_hn_def\<close>)
qed

text \<open>
  (C18) A reverse connection is completed: when a request names a registered listener and a
  one-time password under which a socket waits, the two sockets are linked to each other as
  a relay, the password is used up, and both ends are told; the waiting end is sent the
  terminator twice, because the buffer of the first acknowledgement is sent again.
\<close>

theorem listen_connect_links:
  assumes "second_word buff = Some lid" and "third_word buff = Some otp"
    and "listens st lid h hs" and "map_get (waitingSocks hs) otp = Some wh" and "h < nextPtr st" and "wh \<noteq> h"
    and "reverse_ready st p s wh w t"
  shows "\<exists>st' a w'. new_listen_connect os p buff st = Some (True, st')
    \<and> outbox st' = (outbox st)(fd s := outbox st (fd s) @ ''CONNECTED'' @ HN_MSG_END,
                               fd t := outbox st (fd t) @ ''CONNECTED'' @ HN_MSG_END @ HN_MSG_END)
    \<and> getWaitingSocket lid otp st' = Some None
    \<and> hnSocks st' (nextPtr st) = Some a \<and> relay_next a = Some (hn_sock w) \<and> \<not> relay_isWaiting a
    \<and> hnSocks st' wh = Some w' \<and> relay_next w' = Some p \<and> \<not> relay_isWaiting w'
    \<and> list_start (sockList st') = p # list_start (sockList st)"
  using reverse_completes [OF assms] by fast

text \<open>A bridge with one listener, one waiting socket and one new connection.\<close>

definition waiting_state :: hn where
  "waiting_state = hn_idle\<lparr>
     conf := (conf hn_idle)\<lparr>cf_mode := Some HN_MODE_BRIDGE, bridge := Some (bridge_idle\<lparr>br_context :=
       bridgeContextInit\<lparr>listeningSocks := \<lparr>map_start = [(''abc'', 7)], map_count = 1\<rparr>\<rparr>\<rparr>)\<rparr>,
     socks := Map.empty(1 \<mapsto> sock_init TCPSOCKET 5, 2 \<mapsto> (sock_init TCPSOCKET 6)\<lparr>isBlocking := False, ptr := Some 8\<rparr>),
     hnSocks := Map.empty(7 \<mapsto> (fresh_hn 3 SOCK_MODE_LISTEN True)\<lparr>waitingSocks := \<lparr>map_start = [(''12345678'', 8)], map_count = 1\<rparr>\<rparr>,
                          8 \<mapsto> (fresh_hn 2 SOCK_MODE_RELAY True)\<lparr>relay_isWaiting := True\<rparr>),
     nextPtr := 20\<rparr>"

theorem listen_connect_links_witness:
  "\<exists>st' a. new_listen_connect os_plain 1 ''HN1.0/LISTEN_CONNECT abc 12345678'' waiting_state = Some (True, st')
     \<and> hnSocks st' 20 = Some a \<and> relay_next a = Some 2 \<and> getWaitingSocket ''abc'' ''12345678'' st' = Some None"
proof -
  let ?hs = "(fresh_hn 3 SOCK_MODE_LISTEN True)\<lparr>waitingSocks := \<lparr>map_start = [(''12345678'', 8)], map_count = 1\<rparr>\<rparr>"
  let ?w = "(fresh_hn 2 SOCK_MODE_RELAY True)\<lparr>relay_isWaiting := True\<rparr>"
  let ?t = "(sock_init TCPSOCKET 6)\<lparr>isBlocking := False, ptr := Some 8\<rparr>"
  have w2: "second_word ''HN1.0/LISTEN_CONNECT abc 12345678'' = Some ''abc''"
    and w3: "third_word ''HN1.0/LISTEN_CONNECT abc 12345678'' = Some ''12345678''"
    by (simp_all add: second_word_def third_word_def strtok_def)
  have l: "listens waiting_state ''abc'' 7 ?hs"
    by (simp add: listens_def get_ctx_def fresh_hn_def map_get_map_of waiting_state_def map_inv_def KEY_SIZE_def)
  have g: "map_get (waitingSocks ?hs) ''12345678'' = Some 8" by (simp add: map_get_map_of)
  have r: "reverse_ready waiting_state 1 (sock_init TCPSOCKET 5) 8 ?w ?t"
    by (simp add: reverse_ready_def waiting_state_def) (simp add: fresh_hn_def sock_init_def hn_idle_def)
  have n: "nextPtr waiting_state = 20" by (simp add: waiting_state_def)
  from listen_connect_links [OF w2 w3 l g _ _ r, of os_plain] n obtain st' a where
    "new_listen_connect os_plain 1 ''HN1.0/LISTEN_CONNECT abc 12345678'' waiting_state = Some (True, st')"
    "hnSocks st' 20 = Some a" "relay_next a = Some (hn_sock ?w)" "getWaitingSocket ''abc'' ''12345678'' st' = Some None"
    by auto
  then show ?thesis by (intro exI [of _ st'] exI [of _ a]) (simp add: fresh_hn_def)
qed

end
