(* ===== verification/Reverse_Correct.thy ===== *)
theory Reverse_Correct
  imports Relay_Correct
begin

text \<open>
  A reverse connection from end to end: a client asks the bridge for a registered listener, the
  listener is sent a one-time password, a connection that names the password is linked to the
  client, and the bytes of the client reach it.
\<close>

section \<open>Asking the listener\<close>

text \<open>A socket of the event loop on which the kernel takes bytes.\<close>

definition watched :: "hn \<Rightarrow> sock_ptr \<Rightarrow> Socket \<Rightarrow> bool" where
  "watched st q t \<longleftrightarrow> socks st q = Some t \<and> isAlive t = SOCKET_ALIVE \<and> \<not> isBlocking t \<and> buf_size (writeBuffer t) = 0
     \<and> (\<forall>k\<in>set (wscript st (fd t)). 0 < k)"

lemma request_reverse_asks:
  assumes l: "listens st lid h hs" and t: "watched st (hn_sock hs) t" and u: "ptr t = Some h" "isUpgraded hs"
    and w: "hnSocks st w = Some ws" "w \<noteq> h" and n: "length lid < ID_SIZE"
    and g: "generateCode os 8 st = (otp, st0)" and free: "map_get (waitingSocks hs) otp = None"
  shows "\<exists>scr m. request_reverse os lid w st = Some (True, st0\<lparr>
       socks := (socks st)(hn_sock hs \<mapsto> t\<lparr>listenForWritable := False\<rparr>),
       wscript := (wscript st)(fd t := scr),
       outbox := (outbox st)(fd t := outbox st (fd t) @ (''LISTEN_OTP '' @ otp) @ HN_MSG_END),
       hnSocks := (hnSocks st)(w \<mapsto> ws\<lparr>relay_listenId := lid, relay_otp := otp, relay_isWaiting := True\<rparr>, h \<mapsto> hs\<lparr>waitingSocks := m\<rparr>)\<rparr>)
     \<and> (\<forall>k\<in>set scr. 0 < k) \<and> map_inv m \<and> map_get m = (map_get (waitingSocks hs))(otp \<mapsto> w)"
proof -
  from generateCode_shape [OF g] have otp: "length otp = 8" and st0: "st0 = st\<lparr>ticks := ticks st + 1, mySeed := mySeed st + 1\<rparr>"
    by simp_all
  note t' = t [unfolded watched_def]
  have l0: "listens st0 lid h hs" using l by (simp add: listens_def get_ctx_def st0)
  have len: "length (''LISTEN_OTP '' @ otp) + 2 < BUFF_SIZE" using otp by (simp add: BUFF_SIZE_def)
  obtain scr where snd: "hn_sendMsg (hn_sock hs) (''LISTEN_OTP '' @ otp) st0 = Some (int (length (''LISTEN_OTP '' @ otp)) + 2, (''LISTEN_OTP '' @ otp) @ HN_MSG_END,
      st0\<lparr>socks := (socks st0)(hn_sock hs \<mapsto> t\<lparr>listenForWritable := False\<rparr>), wscript := (wscript st0)(fd t := scr),
         outbox := (outbox st0)(fd t := outbox st0 (fd t) @ (''LISTEN_OTP '' @ otp) @ HN_MSG_END)\<rparr>)"
    and p: "\<forall>k\<in>set scr. 0 < k"
    using hn_sendMsg_watched [of st0 "hn_sock hs" t h hs, OF _ _ _ _ _ _ _ _ len] t' u l0 by (auto simp: st0 listens_def)
  have i: "map_inv (waitingSocks hs)" using l by (simp add: listens_def)
  have "key_fits otp" using otp by (simp add: key_fits_def KEY_SIZE_def)
  then obtain m where m: "map_put False (waitingSocks hs) otp w = Some m" using cmap.put_total [OF i, of otp False w] by blast
  let ?ws = "ws\<lparr>relay_listenId := lid, relay_otp := otp, relay_isWaiting := True\<rparr>"
  let ?st3 = "st0\<lparr>socks := (socks st0)(hn_sock hs \<mapsto> t\<lparr>listenForWritable := False\<rparr>), wscript := (wscript st0)(fd t := scr),
         outbox := (outbox st0)(fd t := outbox st0 (fd t) @ (''LISTEN_OTP '' @ otp) @ HN_MSG_END), hnSocks := (hnSocks st0)(w \<mapsto> ?ws)\<rparr>"
  have "active_listener lid ?st3 = Some (Some (h, hs))"
    using l0 w(2) by (intro listens_active) (simp add: listens_def get_ctx_def)
  then have a: "addWaitingSock lid otp w ?st3 = Some (True, ?st3\<lparr>hnSocks := (hnSocks ?st3)(h \<mapsto> hs\<lparr>waitingSocks := m\<rparr>)\<rparr>)"
    using free m l0 w(2) by (simp add: addWaitingSock_def upd_hn_def listens_def)
  have gl: "getListeningSock lid st0 = Some (Some h)" using l0 by (auto simp: listens_def getListeningSock_def)
  have "request_reverse os lid w st = Some (True, ?st3\<lparr>hnSocks := (hnSocks ?st3)(h \<mapsto> hs\<lparr>waitingSocks := m\<rparr>)\<rparr>)"
    using g gl snd a w(1) n l0 by (simp add: fits_def request_reverse_def the_hn_def listens_def upd_hn_def st0)
  with p cmap.put_inv [OF i m] cmap.get_put [OF i m] show ?thesis
    by (intro exI [of _ scr] exI [of _ m]) (simp add: st0)
qed

text \<open>An id that is one part of an hn URL without a password and fits the field for it.\<close>

definition plain_id :: "string \<Rightarrow> bool" where
  "plain_id lid \<longleftrightarrow> lid \<noteq> [] \<and> set lid \<inter> {CHR ''/'', CHR '' '', CHR ''#'', CR, NUL} = {} \<and> length lid < ID_SIZE"

lemma plain_id_parts:
  assumes "plain_id lid"
  shows "strip_protocol (removeChars lid '' '') = lid" and "strtok ''/'' lid = (Some lid, [])" and "url_part lid = Some (lid, [])"
    and "second_word (''HN1.0/CONNECT '' @ lid) = Some lid"
proof -
  note l = assms [unfolded plain_id_def]
  have "removeChars lid '' '' = lid" using l by (auto simp: removeChars_def intro!: filter_True)
  moreover have "\<not> prefix ''hn://'' lid" using l by (auto simp: prefix_def)
  ultimately show "strip_protocol (removeChars lid '' '') = lid" by (simp add: strip_protocol_def startsWith_def)
  show "strtok ''/'' lid = (Some lid, [])" using l by (intro strtok_word(2)) auto
  show "url_part lid = Some (lid, [])" using l by (simp add: url_part_def charIndex_def ID_SIZE_def fits_def)
  have "strtok '' '' (''HN1.0/CONNECT'' @ CHR '' '' # lid) = (Some ''HN1.0/CONNECT'', lid)" by (rule strtok_word(1)) simp_all
  moreover have "strtok '' '' lid = (Some lid, [])" using l by (intro strtok_word(2)) auto
  ultimately show "second_word (''HN1.0/CONNECT '' @ lid) = Some lid" by (simp add: second_word_def)
qed

lemma resolve_by_conf: "conf st = conf st' \<Longrightarrow> resolve_connId os connId c st = resolve_connId os connId c st'"
  by (simp add: resolve_connId_def getIpAddrForId_def get_ctx_def cong: if_cong)

lemma authRequired_by_conf: "conf st = conf st' \<Longrightarrow> connect_authRequired os url st = connect_authRequired os url st'"
  by (simp add: connect_authRequired_def cong: if_cong)

text \<open>The registered listener of an id, with the socket of the event loop it can be told on.\<close>

definition listener_ready :: "hn \<Rightarrow> string \<Rightarrow> hn_ptr \<Rightarrow> hn_Socket \<Rightarrow> Socket \<Rightarrow> bool" where
  "listener_ready st lid h hs t \<longleftrightarrow> listens st lid h hs \<and> watched st (hn_sock hs) t \<and> ptr t = Some h \<and> isUpgraded hs
     \<and> h < nextPtr st \<and> hn_sock hs < nextPtr st"

lemma createRelay_waits:
  assumes l: "listener_ready st lid h hs t" and p: "socks st p = Some s" "p \<noteq> hn_sock hs" "p < nextPtr st"
    and i: "plain_id lid" "resolve_connId os lid True st = Some None"
    and g: "generateCode os 8 st = (otp, st0)" and free: "map_get (waitingSocks hs) otp = None"
  shows "\<exists>st' scr m. createRelay os p lid True st = Some (2, None, st')
    \<and> socks st' = (socks st)(p \<mapsto> s\<lparr>ptr := Some (nextPtr st)\<rparr>, hn_sock hs \<mapsto> t\<lparr>listenForWritable := False\<rparr>, nextPtr st + 1 := None)
    \<and> hnSocks st' = (hnSocks st)(nextPtr st \<mapsto> (fresh_hn p SOCK_MODE_RELAY True)\<lparr>relay_listenId := lid, relay_otp := otp, relay_isWaiting := True\<rparr>,
        h \<mapsto> hs\<lparr>waitingSocks := m\<rparr>, nextPtr st + 2 := None)
    \<and> nextPtr st' = nextPtr st + 3 \<and> conf st' = conf st \<and> sockList st' = sockList st \<and> inbox st' = inbox st
    \<and> wscript st' = (wscript st)(fd t := scr) \<and> (\<forall>k\<in>set scr. 0 < k)
    \<and> outbox st' = (outbox st)(fd t := outbox st (fd t) @ ''LISTEN_OTP '' @ otp @ HN_MSG_END)
    \<and> map_inv m \<and> map_get m = (map_get (waitingSocks hs))(otp \<mapsto> nextPtr st)"
proof -
  let ?N = "nextPtr st" and ?w = "fresh_hn p SOCK_MODE_RELAY True"
  let ?n = "(sock_init TCPSOCKET (- 1))\<lparr>ptr := Some (?N + 2)\<rparr>"
  define st3 where "st3 = st\<lparr>socks := (socks st)(p \<mapsto> s\<lparr>ptr := Some ?N\<rparr>, ?N + 1 \<mapsto> ?n),
    hnSocks := (hnSocks st)(?N \<mapsto> ?w, ?N + 2 \<mapsto> fresh_hn (?N + 1) SOCK_MODE_RELAY False), nextPtr := ?N + 3\<rparr>"
  note l' = l [unfolded listener_ready_def]
  have init: "hn_sockInit p SOCK_MODE_RELAY True st = Some (?N, st\<lparr>hnSocks := (hnSocks st)(?N \<mapsto> ?w),
      socks := (socks st)(p \<mapsto> s\<lparr>ptr := Some ?N\<rparr>), nextPtr := ?N + 1\<rparr>)"
    using p by (simp add: hn_sockInit_def alloc_hn_def upd_sock_def)
  have init2: "hn_sockInit (?N + 1) SOCK_MODE_RELAY False (st\<lparr>hnSocks := (hnSocks st)(?N \<mapsto> ?w),
      socks := (socks st)(p \<mapsto> s\<lparr>ptr := Some ?N\<rparr>, ?N + 1 \<mapsto> sock_init TCPSOCKET (- 1)), nextPtr := ?N + 2\<rparr>) = Some (?N + 2, st3)"
    by (simp add: hn_sockInit_def alloc_hn_def upd_sock_def st3_def)
  have g3: "generateCode os 8 st3 = (otp, st3\<lparr>ticks := ticks st + 1, mySeed := mySeed st + 1\<rparr>)"
    using g by (simp add: generateCode_def os_time_def Let_def st3_def)
  have l3: "listens st3 lid h hs" "watched st3 (hn_sock hs) t" "hnSocks st3 ?N = Some ?w" "?N \<noteq> h"
    using l' p by (auto simp: listens_def get_ctx_def watched_def st3_def)
  have "length lid < ID_SIZE" using i by (simp add: plain_id_def)
  from request_reverse_asks [OF l3(1,2) _ _ l3(3,4) this g3 free] l' obtain scr m where
    r: "request_reverse os lid ?N st3 = Some (True, st3\<lparr>ticks := ticks st + 1, mySeed := mySeed st + 1,
       socks := (socks st3)(hn_sock hs \<mapsto> t\<lparr>listenForWritable := False\<rparr>), wscript := (wscript st3)(fd t := scr),
       outbox := (outbox st3)(fd t := outbox st3 (fd t) @ (''LISTEN_OTP '' @ otp) @ HN_MSG_END),
       hnSocks := (hnSocks st3)(?N \<mapsto> ?w\<lparr>relay_listenId := lid, relay_otp := otp, relay_isWaiting := True\<rparr>, h \<mapsto> hs\<lparr>waitingSocks := m\<rparr>)\<rparr>)"
    and m: "\<forall>k\<in>set scr. 0 < k" "map_inv m" "map_get m = (map_get (waitingSocks hs))(otp \<mapsto> ?N)" by auto
  define st4 where "st4 = st3\<lparr>ticks := ticks st + 1, mySeed := mySeed st + 1,
       socks := (socks st3)(hn_sock hs \<mapsto> t\<lparr>listenForWritable := False\<rparr>), wscript := (wscript st3)(fd t := scr),
       outbox := (outbox st3)(fd t := outbox st3 (fd t) @ (''LISTEN_OTP '' @ otp) @ HN_MSG_END),
       hnSocks := (hnSocks st3)(?N \<mapsto> ?w\<lparr>relay_listenId := lid, relay_otp := otp, relay_isWaiting := True\<rparr>, h \<mapsto> hs\<lparr>waitingSocks := m\<rparr>)\<rparr>"
  have "resolve_connId os lid True st3 = Some None"
    using i(2) resolve_by_conf [of st3 st] by (simp add: st3_def)
  then have c: "initializeConnect os lid (?N + 1) (Some ?N) True st3 = Some (2, st4)"
    using r plain_id_parts [OF i(1)] p(3) by (simp add: initializeConnect_def the_sock_def st3_def st4_def)
  have n4: "socks st4 (?N + 1) = Some ?n" "hnSocks st4 (?N + 2) = Some (fresh_hn (?N + 1) SOCK_MODE_RELAY False)"
    using l' p by (simp_all add: st4_def st3_def)
  have d: "sock_destroy (?N + 1) False st4 = Some (st4\<lparr>socks := (socks st4)(?N + 1 := None), hnSocks := (hnSocks st4)(?N + 2 := None),
      closedFds := closedFds st4 @ [- 1]\<rparr>)"
    using n4 by (simp add: sock_destroy_def hn_sockCleanup_def the_sock_def the_hn_def fresh_hn_def free_hn_def upd_sock_def
        sock_close_def sock_cleanup_def free_sock_def sock_init_def)
  have "createRelay os p lid True st = Some (2, None, st4\<lparr>socks := (socks st4)(?N + 1 := None), hnSocks := (hnSocks st4)(?N + 2 := None),
      closedFds := closedFds st4 @ [- 1]\<rparr>)"
    using init init2 c d by (simp add: createRelay_def createTcpSocket_def alloc_sock_def)
  then show ?thesis using m l' p
    by (intro exI [of _ "st4\<lparr>socks := (socks st4)(?N + 1 := None), hnSocks := (hnSocks st4)(?N + 2 := None),
      closedFds := closedFds st4 @ [- 1]\<rparr>"] exI [of _ scr] exI [of _ m]) (simp add: st4_def st3_def fun_upd_twist fun_eq_iff)
qed

section \<open>The two requests\<close>

text \<open>A new connection as the event loop hands it to \<open>handleNew\<close>.\<close>

definition fresh_conn :: "hn \<Rightarrow> sock_ptr \<Rightarrow> Socket \<Rightarrow> bool" where
  "fresh_conn st p s \<longleftrightarrow> socks st p = Some s \<and> isAlive s = SOCKET_ALIVE \<and> 0 \<le> fd s \<and> buf_size (writeBuffer s) = 0
     \<and> (\<forall>k\<in>set (wscript st (fd s)). 0 < k) \<and> p < nextPtr st"

text \<open>The environment delivers segments on a descriptor.\<close>

definition arrive :: "int \<Rightarrow> string list \<Rightarrow> hn \<Rightarrow> hn" where
  "arrive f cs st = st\<lparr>inbox := (inbox st)(f := map Recv cs)\<rparr>"

definition request_text :: "string \<Rightarrow> bool" where
  "request_text m \<longleftrightarrow> \<not> sublist HN_MSG_END m \<and> NUL \<notin> set m \<and> length m + 2 < BUFF_SIZE"

text \<open>What \<open>handleNew\<close> has done when it looks at the message.\<close>

definition request_received :: "sock_ptr \<Rightarrow> Socket \<Rightarrow> string list \<Rightarrow> hn \<Rightarrow> hn" where
  "request_received p s rest st = st\<lparr>socks := (socks st)(p \<mapsto> s\<lparr>isBlocking := True\<rparr>), inbox := (inbox st)(fd s := map Recv rest), isRecall := False\<rparr>"

lemma handleNew_receives:
  assumes b: "below_buff os = pre @ [NUL, NUL]" and md: "cf_mode (conf st) \<noteq> Some HN_MODE_LISTEN"
    and s: "fresh_conn st p s" and m: "request_text m" and cs: "concat cs = m @ HN_MSG_END" "[] \<notin> set cs"
  shows "startsWith m ''HN1.0/CONNECT '' \<Longrightarrow> handleNew os p (arrive (fd s) (cs @ rest) st) = new_connect os p m (request_received p s rest st)"
    and "\<not> startsWith m ''HN1.0/CONNECT '' \<Longrightarrow> \<not> startsWith m ''HN1.0/LISTEN_NOTIFY'' \<Longrightarrow> startsWith m ''HN1.0/LISTEN_CONNECT '' \<Longrightarrow>
      handleNew os p (arrive (fd s) (cs @ rest) st) = new_listen_connect os p m (request_received p s rest st)"
    and "\<not> startsWith m ''HN1.0/CONNECT '' \<Longrightarrow> startsWith m ''HN1.0/LISTEN_NOTIFY'' \<Longrightarrow>
      handleNew os p (arrive (fd s) (cs @ rest) st) = new_listen_notify os p m (request_received p s rest st)"
proof -
  let ?st = "arrive (fd s) (cs @ rest) st" and ?s = "s\<lparr>isBlocking := True\<rparr>"
  note s' = s [unfolded fresh_conn_def] and m' = m [unfolded request_text_def]
  let ?b = "?st\<lparr>socks := (socks st)(p \<mapsto> ?s)\<rparr>"
  have sb: "sock_setBlocking p ?st = Some (True, ?b)"
    using s' by (simp add: sock_setBlocking_def the_sock_def upd_sock_def arrive_def)
  have tm: "sock_setTimeout p ?b = Some True" using s' by (simp add: sock_setTimeout_def the_sock_def)
  have rc: "hn_receiveMsg os p ?b = Some (int (length m), m, ?b\<lparr>inbox := (inbox ?b)(fd ?s := map Recv rest)\<rparr>)"
    by (rule hn_receiveMsg_chunks [OF b _ _ _ _ _ _ cs]) (use s' m' in \<open>simp_all add: arrive_def\<close>)
  have e: "?b\<lparr>inbox := (inbox ?b)(fd ?s := map Recv rest), isRecall := False\<rparr> = request_received p s rest st" by (simp add: arrive_def request_received_def)
  have c: "cf_mode (conf ?st) \<noteq> Some HN_MODE_LISTEN" using md by (simp add: arrive_def)
  show "startsWith m ''HN1.0/CONNECT '' \<Longrightarrow> handleNew os p (arrive (fd s) (cs @ rest) st) = new_connect os p m (request_received p s rest st)"
    by (subst handleNew.simps) (use c sb tm rc e in \<open>simp add: Let_def\<close>)
  show "\<not> startsWith m ''HN1.0/CONNECT '' \<Longrightarrow> \<not> startsWith m ''HN1.0/LISTEN_NOTIFY'' \<Longrightarrow> startsWith m ''HN1.0/LISTEN_CONNECT '' \<Longrightarrow>
      handleNew os p (arrive (fd s) (cs @ rest) st) = new_listen_connect os p m (request_received p s rest st)"
    by (subst handleNew.simps) (use c sb tm rc e in \<open>simp add: Let_def\<close>)
  show "\<not> startsWith m ''HN1.0/CONNECT '' \<Longrightarrow> startsWith m ''HN1.0/LISTEN_NOTIFY'' \<Longrightarrow>
      handleNew os p (arrive (fd s) (cs @ rest) st) = new_listen_notify os p m (request_received p s rest st)"
    by (subst handleNew.simps) (use c sb tm rc e in \<open>simp add: Let_def\<close>)
qed

text \<open>The request of the client: it waits, and the listener has been told the password.\<close>

lemma connect_waits:
  assumes l: "listener_ready st lid h hs t" and p: "fresh_conn st p s" "p \<noteq> hn_sock hs"
    and i: "plain_id lid" "resolve_connId os lid True st = Some None" "connect_authRequired os lid st = Some False"
    and g: "generateCode os 8 st = (otp, st0)" and free: "map_get (waitingSocks hs) otp = None"
  shows "\<exists>st' scr m. new_connect os p (''HN1.0/CONNECT '' @ lid) st = Some (True, st')
    \<and> socks st' = (socks st)(p \<mapsto> s\<lparr>ptr := Some (nextPtr st), isBlocking := False\<rparr>, hn_sock hs \<mapsto> t\<lparr>listenForWritable := False\<rparr>, nextPtr st + 1 := None)
    \<and> hnSocks st' = (hnSocks st)(nextPtr st \<mapsto> (fresh_hn p SOCK_MODE_RELAY True)\<lparr>relay_listenId := lid, relay_otp := otp, relay_isWaiting := True\<rparr>,
        h \<mapsto> hs\<lparr>waitingSocks := m\<rparr>, nextPtr st + 2 := None)
    \<and> nextPtr st' = nextPtr st + 3 \<and> conf st' = conf st \<and> list_start (sockList st') = p # list_start (sockList st) \<and> inbox st' = inbox st
    \<and> wscript st' = (wscript st)(fd t := scr) \<and> (\<forall>k\<in>set scr. 0 < k)
    \<and> outbox st' = (outbox st)(fd t := outbox st (fd t) @ ''LISTEN_OTP '' @ otp @ HN_MSG_END)
    \<and> map_inv m \<and> map_get m = (map_get (waitingSocks hs))(otp \<mapsto> nextPtr st)"
proof -
  note p' = p(1) [unfolded fresh_conn_def]
  from createRelay_waits [OF l _ p(2) _ i(1,2) g free, of s] p' obtain st1 scr m where
    c: "createRelay os p lid True st = Some (2, None, st1)"
    and f: "socks st1 = (socks st)(p \<mapsto> s\<lparr>ptr := Some (nextPtr st)\<rparr>, hn_sock hs \<mapsto> t\<lparr>listenForWritable := False\<rparr>, nextPtr st + 1 := None)"
      "hnSocks st1 = (hnSocks st)(nextPtr st \<mapsto> (fresh_hn p SOCK_MODE_RELAY True)\<lparr>relay_listenId := lid, relay_otp := otp, relay_isWaiting := True\<rparr>,
        h \<mapsto> hs\<lparr>waitingSocks := m\<rparr>, nextPtr st + 2 := None)"
      "nextPtr st1 = nextPtr st + 3" "conf st1 = conf st" "sockList st1 = sockList st" "inbox st1 = inbox st"
      "wscript st1 = (wscript st)(fd t := scr)" "\<forall>k\<in>set scr. 0 < k"
      "outbox st1 = (outbox st)(fd t := outbox st (fd t) @ ''LISTEN_OTP '' @ otp @ HN_MSG_END)"
      "map_inv m" "map_get m = (map_get (waitingSocks hs))(otp \<mapsto> nextPtr st)" by blast
  have sp: "socks st1 p = Some (s\<lparr>ptr := Some (nextPtr st)\<rparr>)" using f p p' by simp
  let ?st' = "add_sock p (st1\<lparr>socks := (socks st1)(p \<mapsto> s\<lparr>ptr := Some (nextPtr st), isBlocking := False\<rparr>)\<rparr>)"
  have "accept_sock p st1 = Some (True, ?st')"
    using sp p' by (simp add: accept_sock_def watch_sock_def sock_setNonBlocking_def the_sock_def upd_sock_def)
  then have "new_connect os p (''HN1.0/CONNECT '' @ lid) st = Some (True, ?st')"
    using plain_id_parts(4) [OF i(1)] i(3) c by (simp add: new_connect_def)
  moreover have "socks ?st' = (socks st)(p \<mapsto> s\<lparr>ptr := Some (nextPtr st), isBlocking := False\<rparr>, hn_sock hs \<mapsto> t\<lparr>listenForWritable := False\<rparr>, nextPtr st + 1 := None)"
    using p p' by (auto simp: add_sock_def f)
  ultimately show ?thesis using f
    by (intro exI [of _ ?st'] exI [of _ scr] exI [of _ m]) (simp add: add_sock_def list_add_def)
qed

text \<open>A target that is an IPv6 address: parsing it faults, before anything is sent.\<close>

lemma ipv6_connect_faults:
  assumes "plain_id tgt" and "1 < count_list tgt CHR '':''" and "take 1 tgt \<noteq> ''[''" and "inet_pton6 os tgt = Some a"
    and "connect_authRequired os tgt st \<noteq> Some True"
  shows "new_connect os p (''HN1.0/CONNECT '' @ tgt) st = None"
proof -
  have "resolve_connId os tgt True st' = None" for st'
    using ipv6_text_overflows [OF assms(2,4,3)] by (simp add: resolve_connId_def)
  then have "initializeConnect os tgt n w True st' = None" for n w st'
    using plain_id_parts [OF assms(1)] by (simp add: initializeConnect_def bind_eq_None_conv)
  then have "createRelay os p tgt True st = None"
    by (auto simp: createRelay_def bind_eq_None_conv split: prod.split)
  then show ?thesis
    using assms(5) plain_id_parts(4) [OF assms(1)] by (auto simp: new_connect_def bind_eq_None_conv)
qed

text \<open>The registration of a listener: afterwards it can be asked for reverse connections.\<close>

lemma register_listener_ready:
  assumes p: "fresh_conn st p s" "isBlocking s" and i: "plain_id lid"
    and b: "bridge (conf st) = Some b" "map_inv (listeningSocks (br_context b))"
  shows "\<exists>st' hs t. register_listener p lid st = Some (True, st') \<and> listener_ready st' lid (nextPtr st) hs t \<and> hn_sock hs = p \<and> fd t = fd s
    \<and> outbox st' = (outbox st)(fd s := outbox st (fd s) @ ''LISTENING '' @ lid @ HN_MSG_END)"
proof -
  note p' = p(1) [unfolded fresh_conn_def]
  let ?N = "nextPtr st" and ?h = "(fresh_hn p SOCK_MODE_LISTEN True)\<lparr>listen_listenId := lid\<rparr>" and ?s = "s\<lparr>ptr := Some (nextPtr st)\<rparr>"
  have "key_fits lid" using i by (simp add: plain_id_def key_fits_def KEY_SIZE_def ID_SIZE_def)
  then obtain m where m: "map_put False (listeningSocks (br_context b)) lid ?N = Some m" using cmap.put_total [OF b(2), of lid False ?N] by blast
  have gm: "map_get m lid = Some ?N" using cmap.get_put [OF b(2) m] by simp
  define c' where "c' = (br_context b)\<lparr>listeningSocks := m\<rparr>"
  define st3 where "st3 = st\<lparr>nextPtr := ?N + 1, socks := (socks st)(p \<mapsto> ?s), hnSocks := (hnSocks st)(?N \<mapsto> ?h),
    conf := (conf st)\<lparr>bridge := Some (b\<lparr>br_context := c'\<rparr>)\<rparr>\<rparr>"
  have r: "msg_ready st3 p ?s" using p p' by (simp add: msg_ready_def st3_def fresh_hn_def)
  have "length (''LISTENING '' @ lid) + 2 < BUFF_SIZE" using i by (simp add: plain_id_def ID_SIZE_def BUFF_SIZE_def)
  from hn_sendMsg_ready [OF r this] obtain ws where
    snd: "hn_sendMsg p (''LISTENING '' @ lid) st3 = Some (int (length (''LISTENING '' @ lid)) + 2, (''LISTENING '' @ lid) @ HN_MSG_END,
      st3\<lparr>wscript := (wscript st3)(fd ?s := ws), outbox := (outbox st3)(fd ?s := outbox st3 (fd ?s) @ (''LISTENING '' @ lid) @ HN_MSG_END)\<rparr>)"
    and ws: "\<forall>k\<in>set ws. 0 < k" by blast
  define st4 where "st4 = st3\<lparr>wscript := (wscript st3)(fd ?s := ws), outbox := (outbox st3)(fd ?s := outbox st3 (fd ?s) @ (''LISTENING '' @ lid) @ HN_MSG_END)\<rparr>"
  let ?st' = "add_sock p (st4\<lparr>socks := (socks st4)(p \<mapsto> ?s\<lparr>isBlocking := False\<rparr>)\<rparr>)"
  have "register_listener p lid st = Some (True, ?st')"
    using p' b(1) m snd by (simp add: register_listener_def hn_sockInit_def alloc_hn_def upd_sock_def upd_hn_def get_ctx_def set_ctx_def
        accept_sock_def watch_sock_def sock_setNonBlocking_def the_sock_def st4_def st3_def c'_def)
  moreover have "listener_ready ?st' lid ?N ?h (?s\<lparr>isBlocking := False\<rparr>)"
    using p' gm ws by (simp add: listener_ready_def listens_def watched_def get_ctx_def add_sock_def st4_def st3_def c'_def fresh_hn_def
        map_init_def map_inv_def)
  moreover have "hn_sock ?h = p" "outbox ?st' = (outbox st)(fd s := outbox st (fd s) @ ''LISTENING '' @ lid @ HN_MSG_END)"
    by (simp_all add: fresh_hn_def add_sock_def st4_def st3_def)
  ultimately show ?thesis by (intro exI [of _ ?st'] exI [of _ ?h] exI [of _ "?s\<lparr>isBlocking := False\<rparr>"]) simp
qed

section \<open>From end to end\<close>

lemma otp_text:
  assumes "generateCode os 8 st = (otp, st0)"
  shows "length otp = 8" and "set otp \<inter> {CHR '' '', CR, NUL} = {}"
  using generateCode_shape [OF assms] code_alphabet_chars by auto

lemma connect_text:
  assumes "plain_id lid"
  shows "request_text (''HN1.0/CONNECT '' @ lid)" and "startsWith (''HN1.0/CONNECT '' @ lid) ''HN1.0/CONNECT ''"
  using assms by (auto simp: plain_id_def request_text_def BUFF_SIZE_def ID_SIZE_def startsWith_def intro!: no_CR_no_end)

lemma listen_connect_text:
  assumes "plain_id lid" and "length otp = 8" and "set otp \<inter> {CHR '' '', CR, NUL} = {}"
  defines "m \<equiv> ''HN1.0/LISTEN_CONNECT '' @ lid @ '' '' @ otp"
  shows "request_text m" and "\<not> startsWith m ''HN1.0/CONNECT ''" and "\<not> startsWith m ''HN1.0/LISTEN_NOTIFY''"
    and "startsWith m ''HN1.0/LISTEN_CONNECT ''" and "second_word m = Some lid" and "third_word m = Some otp"
proof -
  note l = assms(1) [unfolded plain_id_def]
  show "request_text m" using l assms(2,3) by (auto simp: m_def request_text_def BUFF_SIZE_def ID_SIZE_def intro!: no_CR_no_end)
  show "\<not> startsWith m ''HN1.0/CONNECT ''" "\<not> startsWith m ''HN1.0/LISTEN_NOTIFY''" "startsWith m ''HN1.0/LISTEN_CONNECT ''"
    by (simp_all add: m_def startsWith_def)
  have 1: "strtok '' '' m = (Some ''HN1.0/LISTEN_CONNECT'', lid @ CHR '' '' # otp)"
    using strtok_word(1) [of "''HN1.0/LISTEN_CONNECT''" "'' ''" "CHR '' ''"] by (simp add: m_def)
  have 2: "strtok '' '' (lid @ CHR '' '' # otp) = (Some lid, otp)"
    using strtok_word(1) [of lid "'' ''" "CHR '' ''"] l by auto
  have 3: "strtok '' '' otp = (Some otp, [])" using assms(2,3) by (intro strtok_word(2)) auto
  show "second_word m = Some lid" "third_word m = Some otp" by (simp_all add: second_word_def third_word_def 1 2 3)
qed

lemma handleRead_relays:
  assumes "relay_ok st p s n t" and "ptr s = Some h" and "hnSocks st h = Some a" and "hn_mode a = SOCK_MODE_RELAY"
    and "relay_next a = Some n" and "\<not> relay_isWaiting a" and "[] \<notin> set ds"
  shows "\<exists>st'. handleRead os p (arrive (fd s) ds st) = Some (True, st')
    \<and> outbox st' = (outbox st)(fd t := outbox st (fd t) @ concat ds)"
proof -
  have "relay_ok (arrive (fd s) ds st) p s n t" using assms(1) by (simp add: relay_ok_def arrive_def)
  moreover have "inbox (arrive (fd s) ds st) (fd s) = map Recv ds" by (simp add: arrive_def)
  ultimately obtain st' where "read_relay p a (arrive (fd s) ds st) = Some (True, st')"
    "outbox st' = (outbox (arrive (fd s) ds st))(fd t := outbox (arrive (fd s) ds st) (fd t) @ concat ds)"
    using read_relay_forwards [OF _ assms(5,6) _ assms(7)] by blast
  then show ?thesis using assms(1-4) by (simp add: handleRead_def the_sock_def the_hn_def relay_ok_def arrive_def)
qed

text \<open>What holds once the client waits: the answer of the listener links the two ends.\<close>

definition both_served :: "os \<Rightarrow> hn \<Rightarrow> sock_ptr \<Rightarrow> int \<Rightarrow> sock_ptr \<Rightarrow> int \<Rightarrow> bool" where
  "both_served os st p f q f' \<longleftrightarrow> (\<forall>ds. [] \<notin> set ds \<longrightarrow>
      (\<exists>st'. handleRead os p (arrive f ds st) = Some (True, st') \<and> outbox st' = (outbox st)(f' := outbox st f' @ concat ds))
    \<and> (\<exists>st'. handleRead os q (arrive f' ds st) = Some (True, st') \<and> outbox st' = (outbox st)(f := outbox st f @ concat ds)))"

lemma answer_links:
  assumes ls: "listens st lid h hs" "map_get (waitingSocks hs) otp = Some wh" "h < nextPtr st" "wh \<noteq> h"
    and q: "fresh_conn st q sq" and w: "hnSocks st wh = Some w" "wh < nextPtr st" "isUpgraded w" "hn_mode w = SOCK_MODE_RELAY"
    and p: "hn_sock w = p" "p \<noteq> q" "watched st p s" "ptr s = Some wh" "0 \<le> fd s" "fd s \<noteq> fd sq"
    and tx: "plain_id lid" "length otp = 8" "set otp \<inter> {CHR '' '', CR, NUL} = {}"
    and os: "below_buff os = pre @ [NUL, NUL]" "cf_mode (conf st) \<noteq> Some HN_MODE_LISTEN"
    and cs: "concat cs = (''HN1.0/LISTEN_CONNECT '' @ lid @ '' '' @ otp) @ HN_MSG_END" "[] \<notin> set cs"
  shows "\<exists>st'. handleNew os q (arrive (fd sq) cs st) = Some (True, st')
    \<and> outbox st' = (outbox st)(fd sq := outbox st (fd sq) @ ''CONNECTED'' @ HN_MSG_END,
        fd s := outbox st (fd s) @ ''CONNECTED'' @ HN_MSG_END @ HN_MSG_END)
    \<and> getWaitingSocket lid otp st' = Some None \<and> both_served os st' p (fd s) q (fd sq)"
proof -
  note q' = q [unfolded fresh_conn_def] and p' = p(3) [unfolded watched_def]
  let ?R = "request_received q sq [] st" and ?sq = "sq\<lparr>isBlocking := True\<rparr>"
  note m = listen_connect_text [OF tx]
  have n: "handleNew os q (arrive (fd sq) cs st) = new_listen_connect os q (''HN1.0/LISTEN_CONNECT '' @ lid @ '' '' @ otp) ?R"
    using handleNew_receives(2) [OF os q m(1) cs m(2-4), of "[]"] by simp
  have lR: "listens ?R lid h hs" "h < nextPtr ?R" using ls by (simp_all add: listens_def get_ctx_def request_received_def)
  have rr: "reverse_ready ?R q ?sq wh w s"
    using q' p p' w by (auto simp: reverse_ready_def request_received_def)
  from reverse_completes [OF m(5,6) lR(1) ls(2) lR(2) ls(4) rr, of os] obtain st' a w' where
    c: "new_listen_connect os q (''HN1.0/LISTEN_CONNECT '' @ lid @ '' '' @ otp) ?R = Some (True, st')"
    and o: "outbox st' = (outbox ?R)(fd ?sq := outbox ?R (fd ?sq) @ ''CONNECTED'' @ HN_MSG_END, fd s := outbox ?R (fd s) @ ''CONNECTED'' @ HN_MSG_END @ HN_MSG_END)"
    and f: "getWaitingSocket lid otp st' = Some None" "hnSocks st' (nextPtr ?R) = Some a" "relay_next a = Some (hn_sock w)" "\<not> relay_isWaiting a"
      "hnSocks st' wh = Some w'" "relay_next w' = Some q" "\<not> relay_isWaiting w'"
      "socks st' = (socks ?R)(q \<mapsto> ?sq\<lparr>ptr := Some (nextPtr ?R), isBlocking := False\<rparr>, hn_sock w \<mapsto> s\<lparr>listenForWritable := False\<rparr>)"
      "hn_mode a = SOCK_MODE_RELAY" "hn_mode w' = hn_mode w" "\<forall>k\<in>set (wscript st' (fd ?sq)). 0 < k" "\<forall>k\<in>set (wscript st' (fd s)). 0 < k"
    by blast
  let ?q = "?sq\<lparr>ptr := Some (nextPtr ?R), isBlocking := False\<rparr>" and ?p = "s\<lparr>listenForWritable := False\<rparr>"
  have ok: "relay_ok st' p ?p q ?q" "relay_ok st' q ?q p ?p" using p p' q' f by (simp_all add: relay_ok_def)
  have "both_served os st' p (fd s) q (fd sq)"
    unfolding both_served_def
    using handleRead_relays [OF ok(1) _ f(5) _ f(6,7), of _ os] handleRead_relays [OF ok(2) _ f(2) f(9) _ f(4), of _ os] p f w by simp
  with n c o f(1) show ?thesis by (intro exI [of _ st']) (simp add: request_received_def)
qed

text \<open>
  (C5) A reverse connection from end to end.  A client that connects to a bridge and asks for a
  registered listener is kept waiting, and the listener is sent a one-time password; when a
  connection then names the id and that password, however either request is cut into segments,
  the bridge links the two, tells both ends, uses the password up, and from then on serves both
  directions: what arrives on one end is sent on the other, in order.
\<close>

theorem reverse_connection:
  assumes "below_buff os = pre @ [NUL, NUL]" and "cf_mode (conf st) \<noteq> Some HN_MODE_LISTEN"
    and "listener_ready st lid h hs t" and "fresh_conn st p s" and "fresh_conn st q sq"
    and "distinct [p, q, hn_sock hs]" and "distinct [fd s, fd sq, fd t]"
    and "plain_id lid" and "resolve_connId os lid True st = Some None" and "connect_authRequired os lid st = Some False"
    and "generateCode os 8 st = (otp, st0)" and "getWaitingSocket lid otp st = Some None"
    and "concat cs = ''HN1.0/CONNECT '' @ lid @ HN_MSG_END" and "[] \<notin> set cs"
    and "concat cs' = ''HN1.0/LISTEN_CONNECT '' @ lid @ '' '' @ otp @ HN_MSG_END" and "[] \<notin> set cs'"
  shows "\<exists>st1 st2. handleNew os p (arrive (fd s) cs st) = Some (True, st1)
    \<and> outbox st1 = (outbox st)(fd t := outbox st (fd t) @ ''LISTEN_OTP '' @ otp @ HN_MSG_END)
    \<and> handleNew os q (arrive (fd sq) cs' st1) = Some (True, st2)
    \<and> outbox st2 (fd sq) = outbox st (fd sq) @ ''CONNECTED'' @ HN_MSG_END
    \<and> outbox st2 (fd s) = outbox st (fd s) @ ''CONNECTED'' @ HN_MSG_END @ HN_MSG_END
    \<and> getWaitingSocket lid otp st2 = Some None
    \<and> both_served os st2 p (fd s) q (fd sq)"
proof -
  let ?R = "request_received p s [] st" and ?s = "s\<lparr>isBlocking := True\<rparr>"
  note l = assms(3) [unfolded listener_ready_def] and p = assms(4) [unfolded fresh_conn_def] and q = assms(5) [unfolded fresh_conn_def]
  have new: "handleNew os p (arrive (fd s) cs st) = new_connect os p (''HN1.0/CONNECT '' @ lid) ?R"
    using handleNew_receives(1) [OF assms(1,2,4) connect_text(1) [OF assms(8)] _ assms(14) connect_text(2) [OF assms(8)], of "[]"]
    by (simp add: assms(13))
  have lR: "listener_ready ?R lid h hs t" using l assms(6) by (auto simp: listener_ready_def listens_def get_ctx_def watched_def request_received_def)
  have pR: "fresh_conn ?R p ?s" "p \<noteq> hn_sock hs" using p assms(6) by (simp_all add: fresh_conn_def request_received_def)
  have rR: "resolve_connId os lid True ?R = Some None" "connect_authRequired os lid ?R = Some False"
    using assms(9,10) resolve_by_conf [of ?R st] authRequired_by_conf [of ?R st] by (simp_all add: request_received_def)
  obtain R0 where gR: "generateCode os 8 ?R = (otp, R0)"
    using assms(11) by (simp add: generateCode_def os_time_def Let_def request_received_def)
  have free: "map_get (waitingSocks hs) otp = None" using assms(12) l listens_get by fastforce
  from connect_waits [OF lR pR assms(8) rR gR free] obtain st1 scr m where
    c: "new_connect os p (''HN1.0/CONNECT '' @ lid) ?R = Some (True, st1)"
    and f: "socks st1 = (socks ?R)(p \<mapsto> ?s\<lparr>ptr := Some (nextPtr ?R), isBlocking := False\<rparr>, hn_sock hs \<mapsto> t\<lparr>listenForWritable := False\<rparr>, nextPtr ?R + 1 := None)"
      "hnSocks st1 = (hnSocks ?R)(nextPtr ?R \<mapsto> (fresh_hn p SOCK_MODE_RELAY True)\<lparr>relay_listenId := lid, relay_otp := otp, relay_isWaiting := True\<rparr>,
        h \<mapsto> hs\<lparr>waitingSocks := m\<rparr>, nextPtr ?R + 2 := None)"
      "nextPtr st1 = nextPtr ?R + 3" "conf st1 = conf ?R" "wscript st1 = (wscript ?R)(fd t := scr)" "\<forall>k\<in>set scr. 0 < k"
      "outbox st1 = (outbox ?R)(fd t := outbox ?R (fd t) @ ''LISTEN_OTP '' @ otp @ HN_MSG_END)"
      "map_inv m" "map_get m = (map_get (waitingSocks hs))(otp \<mapsto> nextPtr ?R)" by blast
  let ?p = "?s\<lparr>ptr := Some (nextPtr st), isBlocking := False\<rparr>"
  let ?w = "(fresh_hn p SOCK_MODE_RELAY True)\<lparr>relay_listenId := lid, relay_otp := otp, relay_isWaiting := True\<rparr>"
  have N: "nextPtr ?R = nextPtr st" "h < nextPtr st" "p < nextPtr st" "q < nextPtr st" using l p q by (simp_all add: request_received_def)
  have ls: "listens st1 lid h (hs\<lparr>waitingSocks := m\<rparr>)" "map_get (waitingSocks (hs\<lparr>waitingSocks := m\<rparr>)) otp = Some (nextPtr st)" "h < nextPtr st1" "nextPtr st \<noteq> h"
    using l f N by (auto simp: listens_def get_ctx_def request_received_def)
  have q1: "fresh_conn st1 q sq" using q f N assms(6,7) by (auto simp: fresh_conn_def request_received_def)
  have w: "hnSocks st1 (nextPtr st) = Some ?w" "nextPtr st < nextPtr st1" "isUpgraded ?w" "hn_mode ?w = SOCK_MODE_RELAY" "hn_sock ?w = p"
    using f N by (simp_all add: fresh_hn_def)
  have p1: "watched st1 p ?p" "ptr ?p = Some (nextPtr st)" "0 \<le> fd ?p" "fd ?p \<noteq> fd sq" "p \<noteq> q"
    using p f N assms(6,7) by (auto simp: watched_def request_received_def)
  have md: "cf_mode (conf st1) \<noteq> Some HN_MODE_LISTEN" using assms(2) f by (simp add: request_received_def)
  have cs': "concat cs' = (''HN1.0/LISTEN_CONNECT '' @ lid @ '' '' @ otp) @ HN_MSG_END" using assms(15) by simp
  from answer_links [OF ls q1 w(1-5) p1(5,1-4) assms(8) otp_text [OF assms(11)] assms(1) md cs' assms(16)]
  obtain st2 where a: "handleNew os q (arrive (fd sq) cs' st1) = Some (True, st2)"
    "outbox st2 = (outbox st1)(fd sq := outbox st1 (fd sq) @ ''CONNECTED'' @ HN_MSG_END, fd ?p := outbox st1 (fd ?p) @ ''CONNECTED'' @ HN_MSG_END @ HN_MSG_END)"
    "getWaitingSocket lid otp st2 = Some None" "both_served os st2 p (fd ?p) q (fd sq)" by blast
  then show ?thesis using new c f(7) assms(7)
    by (intro exI [of _ st1] exI [of _ st2]) (auto simp: request_received_def)
qed

lemma listen_notify_text:
  assumes "plain_id lid"
  defines "m \<equiv> ''HN1.0/LISTEN_NOTIFY '' @ lid"
  shows "request_text m" and "\<not> startsWith m ''HN1.0/CONNECT ''" and "startsWith m ''HN1.0/LISTEN_NOTIFY''" and "second_word m = Some lid"
proof -
  note l = assms(1) [unfolded plain_id_def]
  show "request_text m" using l by (auto simp: m_def request_text_def BUFF_SIZE_def ID_SIZE_def intro!: no_CR_no_end)
  show "\<not> startsWith m ''HN1.0/CONNECT ''" "startsWith m ''HN1.0/LISTEN_NOTIFY''" by (simp_all add: m_def startsWith_def)
  have "strtok '' '' m = (Some ''HN1.0/LISTEN_NOTIFY'', lid)"
    using strtok_word(1) [of "''HN1.0/LISTEN_NOTIFY''" "'' ''" "CHR '' ''"] by (simp add: m_def)
  moreover have "strtok '' '' lid = (Some lid, [])" using l by (intro strtok_word(2)) auto
  ultimately show "second_word m = Some lid" by (simp add: second_word_def)
qed

text \<open>A listener that knows the salt of its id answers the challenge and is registered.\<close>

lemma notify_accepts:
  assumes "below_buff os = pre @ [NUL, NUL]" and "fresh_conn st p s" and "isBlocking s" and "ptr s = None" and "plain_id lid" and "1 < length lid"
    and "bridge (conf st) = Some b" and "map_inv (listeningSocks (br_context b))"
    and "getSaltForListenId os lid st = Some (Some salt)" and "length salt < 450"
    and "generateCode os 15 st = (nonce, st0)" and "generateAuthResp nonce (Some lid) (Some salt) = Some resp"
    and "inbox st (fd s) = map Recv cs'" and "concat cs' = resp @ HN_MSG_END" and "[] \<notin> set cs'"
  shows "\<exists>st' h hs t. new_listen_notify os p (''HN1.0/LISTEN_NOTIFY '' @ lid) st = Some (True, st')
    \<and> outbox st' = (outbox st)(fd s := outbox st (fd s) @ ''AUTH '' @ nonce @ HN_MSG_END @ ''LISTENING '' @ lid @ HN_MSG_END)
    \<and> listener_ready st' lid h hs t \<and> hn_sock hs = p \<and> fd t = fd s"
proof -
  note p = assms(2) [unfolded fresh_conn_def] and l = assms(5) [unfolded plain_id_def]
  have "key_fits lid" using l by (simp add: key_fits_def KEY_SIZE_def ID_SIZE_def)
  moreover have i: "map_inv (map_init :: string Map)" by (simp add: map_inv_def map_init_def)
  ultimately obtain sm where sm: "map_put False map_init lid salt = Some sm" using cmap.put_total [of map_init lid False salt] by blast
  have k: "map_get sm lid = Some salt" using cmap.get_put [OF i sm] by simp
  have r: "msg_ready st p s" using p assms(3,4) by (simp add: msg_ready_def)
  have sz: "set lid \<inter> {CHR '' '', CR, NUL} = {}" "length lid + length salt < 490" "length lid < 450" "lid \<noteq> []"
    using l assms(10) by (auto simp: ID_SIZE_def)
  have inb: "inbox st (fd s) = map Recv cs' @ []" using assms(13) by simp
  from auth_exchange [OF r assms(1,11) sz(4,1,2,3) k assms(12,14,15) inb] obtain ws where
    a: "authThrowChallenge os p sm st = Some (True, resp, st\<lparr>ticks := ticks st + 1, mySeed := mySeed st + 1,
      wscript := (wscript st)(fd s := ws), outbox := (outbox st)(fd s := outbox st (fd s) @ ''AUTH '' @ nonce @ HN_MSG_END),
      inbox := (inbox st)(fd s := [])\<rparr>)" and ws: "\<forall>w\<in>set ws. 0 < w" by auto
  define st1 where "st1 = st\<lparr>ticks := ticks st + 1, mySeed := mySeed st + 1,
      wscript := (wscript st)(fd s := ws), outbox := (outbox st)(fd s := outbox st (fd s) @ ''AUTH '' @ nonce @ HN_MSG_END),
      inbox := (inbox st)(fd s := [])\<rparr>"
  have "fresh_conn st1 p s" "bridge (conf st1) = Some b"
    using p ws assms(7) by (simp_all add: fresh_conn_def st1_def)
  from register_listener_ready [OF this(1) assms(3,5) this(2) assms(8)] obtain st' hs t where
    reg: "register_listener p lid st1 = Some (True, st')" "listener_ready st' lid (nextPtr st1) hs t" "hn_sock hs = p" "fd t = fd s"
      "outbox st' = (outbox st1)(fd s := outbox st1 (fd s) @ ''LISTENING '' @ lid @ HN_MSG_END)" by blast
  have "new_listen_notify os p (''HN1.0/LISTEN_NOTIFY '' @ lid) st = Some (True, st')"
    using listen_notify_text(4) [OF assms(5)] assms(6,7,9) sm a [folded st1_def] reg(1) l by (simp add: new_listen_notify_def fits_def)
  with reg show ?thesis
    by (intro exI [of _ st'] exI [of _ "nextPtr st1"] exI [of _ hs] exI [of _ t]) (simp add: st1_def)
qed

text \<open>
  (C28) A listener that holds the salt of an id can register under it: however its request and its
  answer to the challenge are cut into segments, the bridge sends a nonce, accepts the answer,
  confirms, and from then on the id stands for this connection in the sense that requests for
  reverse connections are sent to it.
\<close>

theorem listener_registers:
  assumes "below_buff os = pre @ [NUL, NUL]" and "cf_mode (conf st) \<noteq> Some HN_MODE_LISTEN"
    and "fresh_conn st p s" and "ptr s = None" and "plain_id lid" and "1 < length lid"
    and "bridge (conf st) = Some b" and "map_inv (listeningSocks (br_context b))"
    and "getSaltForListenId os lid st = Some (Some salt)" and "length salt < 450"
    and "generateCode os 15 st = (nonce, st0)" and "generateAuthResp nonce (Some lid) (Some salt) = Some resp"
    and "concat cs = ''HN1.0/LISTEN_NOTIFY '' @ lid @ HN_MSG_END" and "[] \<notin> set cs"
    and "concat cs' = resp @ HN_MSG_END" and "[] \<notin> set cs'"
  shows "\<exists>st' h hs t. handleNew os p (arrive (fd s) (cs @ cs') st) = Some (True, st')
    \<and> outbox st' = (outbox st)(fd s := outbox st (fd s) @ ''AUTH '' @ nonce @ HN_MSG_END @ ''LISTENING '' @ lid @ HN_MSG_END)
    \<and> listener_ready st' lid h hs t \<and> hn_sock hs = p \<and> fd t = fd s"
proof -
  let ?R = "request_received p s cs' st" and ?s = "s\<lparr>isBlocking := True\<rparr>"
  note m = listen_notify_text [OF assms(5)] and p = assms(3) [unfolded fresh_conn_def]
  have new: "handleNew os p (arrive (fd s) (cs @ cs') st) = new_listen_notify os p (''HN1.0/LISTEN_NOTIFY '' @ lid) ?R"
    by (rule handleNew_receives(3) [OF assms(1-3) m(1) _ assms(14) m(2,3)]) (simp add: assms(13))
  obtain R0 where g: "generateCode os 15 ?R = (nonce, R0)"
    using assms(11) by (simp add: generateCode_def os_time_def Let_def request_received_def)
  have R: "fresh_conn ?R p ?s" "isBlocking ?s" "ptr ?s = None" "bridge (conf ?R) = Some b"
    "getSaltForListenId os lid ?R = Some (Some salt)" "inbox ?R (fd ?s) = map Recv cs'" "outbox ?R = outbox st"
    using p assms(4,7,9) by (simp_all add: fresh_conn_def request_received_def getSaltForListenId_def get_ctx_def)
  from notify_accepts [OF assms(1) R(1-3) assms(5,6) R(4) assms(8) R(5) assms(10) g assms(12) R(6) assms(15,16)] show ?thesis
    by (simp add: new R(7))
qed

text \<open>A bridge that knows the salt of one id and asks its listeners and queries for it.\<close>

definition keyed_state :: hn where
  "keyed_state = hn_idle\<lparr>
     conf := (conf hn_idle)\<lparr>cf_mode := Some HN_MODE_BRIDGE, bridge := Some (bridge_idle\<lparr>requireRLAuth := 1, requireQueryAuth := 1, br_context :=
       bridgeContextInit\<lparr>listenKeys := \<lparr>map_start = [(''abc'', ''s'')], map_count = 1\<rparr>,
         queryKeys := \<lparr>map_start = [(''abc'', ''s'')], map_count = 1\<rparr>\<rparr>\<rparr>)\<rparr>,
     socks := Map.empty(1 \<mapsto> sock_init TCPSOCKET 5), nextPtr := 20\<rparr>"

definition keyed_nonce :: string where
  "keyed_nonce = fst (generateCode os_plain 15 keyed_state)"

definition keyed_answer :: string where
  "keyed_answer = ''abc '' @ sha512_hex (keyed_nonce @ ''|abc|s'')"

lemma keyed_facts:
  "fresh_conn keyed_state 1 (sock_init TCPSOCKET 5)" "ptr (sock_init TCPSOCKET 5) = None" "isBlocking (sock_init TCPSOCKET 5)"
  "cf_mode (conf keyed_state) \<noteq> Some HN_MODE_LISTEN" "plain_id ''abc''" "\<exists>st0. generateCode os_plain 15 keyed_state = (keyed_nonce, st0)"
  "\<exists>st0. generateCode os_plain 15 (arrive 5 cs keyed_state) = (keyed_nonce, st0)"
  "generateAuthResp keyed_nonce (Some ''abc'') (Some ''s'') = Some keyed_answer" "below_buff os_plain = replicate 30 NUL @ [NUL, NUL]"
proof -
  show "fresh_conn keyed_state 1 (sock_init TCPSOCKET 5)" by (simp add: fresh_conn_def keyed_state_def) (simp add: sock_init_def hn_idle_def)
  show "ptr (sock_init TCPSOCKET 5) = None" "isBlocking (sock_init TCPSOCKET 5)" by (simp_all add: sock_init_def)
  show "cf_mode (conf keyed_state) \<noteq> Some HN_MODE_LISTEN" by (simp add: keyed_state_def)
  show "plain_id ''abc''" by (simp add: plain_id_def ID_SIZE_def)
  show g: "\<exists>st0. generateCode os_plain 15 keyed_state = (keyed_nonce, st0)"
    by (cases "generateCode os_plain 15 keyed_state") (simp add: keyed_nonce_def)
  then show "\<exists>st0. generateCode os_plain 15 (arrive 5 cs keyed_state) = (keyed_nonce, st0)"
    by (auto simp: generateCode_def os_time_def Let_def arrive_def)
  from g obtain st0 where "generateCode os_plain 15 keyed_state = (keyed_nonce, st0)" by blast
  then have "auth_sizes keyed_nonce ''abc'' ''s''" using generateCode_shape by (fastforce simp: auth_sizes_def auth_raw_def)
  then show "generateAuthResp keyed_nonce (Some ''abc'') (Some ''s'') = Some keyed_answer"
    by (simp add: generateAuthResp_value keyed_answer_def auth_raw_def)
  show "below_buff os_plain = replicate 30 NUL @ [NUL, NUL]" by (simp add: os_plain_def eval_nat_numeral)
qed

definition keyed_bridge :: bridgeMode where
  "keyed_bridge = the (bridge (conf keyed_state))"

lemma keyed_bridge:
  "bridge (conf keyed_state) = Some keyed_bridge" "map_inv (listeningSocks (br_context keyed_bridge))"
  "getSaltForListenId os_plain ''abc'' keyed_state = Some (Some ''s'')" "requireRLAuth keyed_bridge \<noteq> 0" "requireQueryAuth keyed_bridge \<noteq> 0"
  "map_get (queryKeys (br_context keyed_bridge)) ''abc'' = Some ''s''" "mdnsStore (br_context keyed_bridge) = map_init"
  by (simp_all add: keyed_bridge_def keyed_state_def getSaltForListenId_def get_ctx_def map_get_map_of bridgeContextInit_def map_init_def map_inv_def)

theorem listener_registers_witness:
  "\<exists>st' h hs t. handleNew os_plain 1 (arrive 5 [''HN1.0/LISTEN_NOTIFY abc'' @ HN_MSG_END, keyed_answer @ HN_MSG_END] keyed_state) = Some (True, st')
     \<and> listener_ready st' ''abc'' h hs t \<and> hn_sock hs = 1"
proof -
  note k = keyed_facts and b = keyed_bridge
  obtain st0 where g: "generateCode os_plain 15 keyed_state = (keyed_nonce, st0)" using k(6) by blast
  let ?cs = "[''HN1.0/LISTEN_NOTIFY abc'' @ HN_MSG_END]" and ?a = "[keyed_answer @ HN_MSG_END]"
  have c: "1 < length ''abc''" "length ''s'' < 450" "concat ?cs = ''HN1.0/LISTEN_NOTIFY '' @ ''abc'' @ HN_MSG_END" "[] \<notin> set ?cs"
    "concat ?a = keyed_answer @ HN_MSG_END" "[] \<notin> set ?a" by (simp_all add: HN_MSG_END_def)
  have f: "fd (sock_init TCPSOCKET 5) = 5" by (simp add: sock_init_def)
  from listener_registers [OF k(9,4,1,2,5) c(1) b(1-3) c(2) g k(8) c(3-6)] show ?thesis
    unfolding f append_Cons append_Nil by blast
qed

text \<open>
  (C7) With authentication of listeners switched on, a bridge registers a listener only under an
  id it has a salt for, and only for a peer that answered the nonce of this request with that
  id and the digest of nonce, id and salt.
\<close>

theorem listener_requires_auth:
  assumes "bridge (conf st) = Some b" and "requireRLAuth b \<noteq> 0" and "generateCode os 15 st = (nonce, st0)"
    and "new_listen_notify os p buff st = Some (True, st')"
  shows "\<exists>lid salt m st1. second_word buff = Some lid \<and> getSaltForListenId os lid st = Some (Some salt)
    \<and> map_put False map_init lid salt = Some m
    \<and> authThrowChallenge os p m st = Some (True, lid @ '' '' @ sha512_hex (nonce @ ''|'' @ lid @ ''|'' @ salt), st1)"
proof -
  from assms(1,2,4) obtain lid salt m resp st1 where l: "second_word buff = Some lid" "getSaltForListenId os lid st = Some (Some salt)"
    "map_put False map_init lid salt = Some m" and a: "authThrowChallenge os p m st = Some (True, resp, st1)"
    by (auto simp: new_listen_notify_def bind_eq_Some_conv reject_refuses split: option.splits if_splits prod.splits)
  have "map_get m = Map.empty(lid \<mapsto> salt)"
    using cmap.get_put [OF _ l(3)] by (simp add: map_inv_def map_init_def map_get_map_of fun_eq_iff)
  with challenge_passed [OF a assms(3)] have "resp = lid @ '' '' @ sha512_hex (nonce @ ''|'' @ lid @ ''|'' @ salt)"
    by (auto split: if_splits)
  with l a show ?thesis by blast
qed

theorem listener_requires_auth_witness:
  "\<exists>st1 m. authThrowChallenge os_plain 1 m (arrive 5 [keyed_answer @ HN_MSG_END] keyed_state)
     = Some (True, ''abc '' @ sha512_hex (keyed_nonce @ ''|abc|s''), st1)"
proof -
  note k = keyed_facts and b = keyed_bridge
  let ?st = "arrive 5 [keyed_answer @ HN_MSG_END] keyed_state"
  obtain st0 where g: "generateCode os_plain 15 ?st = (keyed_nonce, st0)" using k(7) by blast
  have f: "fresh_conn ?st 1 (sock_init TCPSOCKET 5)" "bridge (conf ?st) = Some keyed_bridge" "getSaltForListenId os_plain ''abc'' ?st = Some (Some ''s'')"
    using k(1) b(1,3) by (simp_all add: fresh_conn_def arrive_def getSaltForListenId_def get_ctx_def)
  have ne: "keyed_answer @ HN_MSG_END \<noteq> []" by (simp add: HN_MSG_END_def)
  obtain st' where n: "new_listen_notify os_plain 1 ''HN1.0/LISTEN_NOTIFY abc'' ?st = Some (True, st')"
    using notify_accepts [OF k(9) f(1) k(3,2,5) _ f(2) b(2) f(3) _ g k(8), of "[keyed_answer @ HN_MSG_END]"] ne
    by (auto simp: arrive_def sock_init_def)
  have w: "second_word ''HN1.0/LISTEN_NOTIFY abc'' = Some ''abc''" using listen_notify_text(4) [OF k(5)] by simp
  from listener_requires_auth [OF f(2) b(4) g n] f(3) w show ?thesis by auto
qed

text \<open>
  (C27) With authentication of queries switched on, a bridge answers a query from its record
  store only for a peer that answered the nonce of this request with a query key.
\<close>

theorem query_requires_auth:
  assumes "bridge (conf st) = Some b" and "requireQueryAuth b \<noteq> 0" and "generateCode os 15 st = (nonce, st0)"
    and "new_query os p buff st = Some (True, st')"
  shows "\<exists>key salt st1. map_get (queryKeys (br_context b)) key = Some salt
    \<and> authThrowChallenge os p (queryKeys (br_context b)) st
        = Some (True, key @ '' '' @ sha512_hex (nonce @ ''|'' @ key @ ''|'' @ salt), st1)"
proof -
  from assms(1,2,4) obtain resp st1 where a: "authThrowChallenge os p (queryKeys (br_context b)) st = Some (True, resp, st1)"
    by (auto simp: new_query_def bind_eq_Some_conv reject_refuses split: if_splits prod.splits)
  with challenge_passed [OF a assms(3)] show ?thesis by blast
qed

theorem query_requires_auth_witness:
  "\<exists>key salt st1. authThrowChallenge os_plain 1 (queryKeys (br_context keyed_bridge)) (arrive 5 [keyed_answer @ HN_MSG_END] keyed_state)
     = Some (True, key @ '' '' @ sha512_hex (keyed_nonce @ ''|'' @ key @ ''|'' @ salt), st1)"
proof -
  note k = keyed_facts and b = keyed_bridge
  let ?st = "arrive 5 [keyed_answer @ HN_MSG_END] keyed_state" and ?s = "sock_init TCPSOCKET 5"
  obtain st0 where g: "generateCode os_plain 15 ?st = (keyed_nonce, st0)" using k(7) by blast
  have r: "msg_ready ?st 1 ?s" using k(1-3) by (simp add: fresh_conn_def msg_ready_def arrive_def)
  have i: "inbox ?st (fd ?s) = map Recv [keyed_answer @ HN_MSG_END] @ []" by (simp add: arrive_def sock_init_def)
  have key: "''abc'' \<noteq> ([] :: string)" "set ''abc'' \<inter> {CHR '' '', CR, NUL} = {}" "length ''abc'' + length ''s'' < 490" "length ''abc'' < 450" by simp_all
  have ne: "concat [keyed_answer @ HN_MSG_END] = keyed_answer @ HN_MSG_END" "[] \<notin> set [keyed_answer @ HN_MSG_END]" by (simp_all add: HN_MSG_END_def)
  from auth_exchange [OF r k(9) g key b(6) k(8) ne i] obtain ws where
    a: "authThrowChallenge os_plain 1 (queryKeys (br_context keyed_bridge)) ?st = Some (True, keyed_answer, ?st\<lparr>ticks := ticks ?st + 1,
      mySeed := mySeed ?st + 1, wscript := (wscript ?st)(fd ?s := ws),
      outbox := (outbox ?st)(fd ?s := outbox ?st (fd ?s) @ ''AUTH '' @ keyed_nonce @ HN_MSG_END), inbox := (inbox ?st)(fd ?s := [])\<rparr>)"
    by blast
  have w: "second_word ''HN1.0/QUERY x'' = Some ''x''" by (simp add: second_word_def strtok_def)
  have f: "bridge (conf ?st) = Some keyed_bridge" "socks ?st 1 = Some ?s" using b(1) k(1) by (simp_all add: arrive_def fresh_conn_def)
  have "\<exists>st'. new_query os_plain 1 ''HN1.0/QUERY x'' ?st = Some (True, st')"
    using w a f b(5,7) k(2) by (simp add: new_query_def get_ctx_def map_init_def sock_destroy_def the_sock_def upd_sock_def sock_close_def sock_cleanup_def
        free_sock_def)
  then obtain st' where "new_query os_plain 1 ''HN1.0/QUERY x'' ?st = Some (True, st')" by blast
  from query_requires_auth [OF f(1) b(5) g this] show ?thesis by blast
qed

text \<open>A bridge with a listener, one connection from a client and one from the listener.\<close>

definition listening_bridge :: hn where
  "listening_bridge = hn_idle\<lparr>
     conf := (conf hn_idle)\<lparr>cf_mode := Some HN_MODE_BRIDGE, bridge := Some (bridge_idle\<lparr>br_context :=
       bridgeContextInit\<lparr>listeningSocks := \<lparr>map_start = [(''abc'', 7)], map_count = 1\<rparr>\<rparr>\<rparr>)\<rparr>,
     socks := Map.empty(1 \<mapsto> sock_init TCPSOCKET 5, 2 \<mapsto> sock_init TCPSOCKET 6,
                        3 \<mapsto> (sock_init TCPSOCKET 4)\<lparr>isBlocking := False, ptr := Some 7\<rparr>),
     hnSocks := Map.empty(7 \<mapsto> fresh_hn 3 SOCK_MODE_LISTEN True), nextPtr := 20\<rparr>"

theorem reverse_connection_witness:
  "let otp = fst (generateCode os_plain 8 listening_bridge);
       m1 = ''HN1.0/CONNECT abc'' @ HN_MSG_END; m2 = ''HN1.0/LISTEN_CONNECT abc '' @ otp @ HN_MSG_END
   in \<exists>st1 st2. handleNew os_plain 1 (arrive 5 [m1] listening_bridge) = Some (True, st1)
     \<and> handleNew os_plain 2 (arrive 6 [m2] st1) = Some (True, st2) \<and> both_served os_plain st2 1 5 2 6"
proof -
  obtain otp st0 where g: "generateCode os_plain 8 listening_bridge = (otp, st0)" by (cases "generateCode os_plain 8 listening_bridge")
  let ?s = "sock_init TCPSOCKET 5" and ?q = "sock_init TCPSOCKET 6" and ?t = "(sock_init TCPSOCKET 4)\<lparr>isBlocking := False, ptr := Some 7\<rparr>"
  let ?h = "fresh_hn 3 SOCK_MODE_LISTEN True"
  have os: "below_buff os_plain = replicate 30 NUL @ [NUL, NUL]" by (simp add: os_plain_def eval_nat_numeral)
  have md: "cf_mode (conf listening_bridge) \<noteq> Some HN_MODE_LISTEN" by (simp add: listening_bridge_def)
  have li: "listens listening_bridge ''abc'' 7 ?h"
    by (simp add: listens_def get_ctx_def listening_bridge_def fresh_hn_def map_get_map_of map_inv_def map_init_def)
  have l: "listener_ready listening_bridge ''abc'' 7 ?h ?t"
    unfolding listener_ready_def using li by (simp add: watched_def listening_bridge_def fresh_hn_def) (simp add: sock_init_def hn_idle_def)
  have p: "fresh_conn listening_bridge 1 ?s" "fresh_conn listening_bridge 2 ?q"
    by (simp_all add: fresh_conn_def listening_bridge_def) (simp_all add: sock_init_def hn_idle_def)
  have d: "distinct [1, 2, hn_sock ?h]" "distinct [fd ?s, fd ?q, fd ?t]" by (simp_all add: fresh_hn_def sock_init_def)
  have i: "plain_id ''abc''" by (simp add: plain_id_def ID_SIZE_def)
  have getId: "getIpAddrForId ''abc'' listening_bridge = Some None"
    by (simp add: getIpAddrForId_def get_ctx_def listening_bridge_def bridge_idle_def bridgeContextInit_def map_get_map_of map_init_def)
  obtain ip where noIp: "str_toIpAddr os_plain ''abc'' = Some (False, ip)"
    by (simp add: str_toIpAddr_def str_split_def strtok_def token_port_def ipAddr_init_def fits_def IPADDR_SIZE_def INET_ADDRSTRLEN_def
        INET6_ADDRSTRLEN_def ipAddr_setPort_def ipAddr_setIp_def ipAddr_isIpv4_def inet_pton4_def)
  have r: "resolve_connId os_plain ''abc'' True listening_bridge = Some None"
    using getId by (simp add: resolve_connId_def isDomainName_def Let_def noIp)
  have a: "connect_authRequired os_plain ''abc'' listening_bridge = Some False"
    by (simp add: connect_authRequired_def listening_bridge_def bridge_idle_def AUTH_LEVEL_NONE_def)
  have w: "getWaitingSocket ''abc'' otp listening_bridge = Some None"
    using listens_get [OF li] by (simp add: fresh_hn_def map_init_def map_get_map_of)
  have "\<exists>st1 st2. handleNew os_plain 1 (arrive (fd ?s) [''HN1.0/CONNECT abc'' @ HN_MSG_END] listening_bridge) = Some (True, st1)
     \<and> handleNew os_plain 2 (arrive (fd ?q) [''HN1.0/LISTEN_CONNECT abc '' @ otp @ HN_MSG_END] st1) = Some (True, st2)
     \<and> both_served os_plain st2 1 (fd ?s) 2 (fd ?q)"
    using reverse_connection [OF os md l p d i r a g w, of "[''HN1.0/CONNECT abc'' @ HN_MSG_END]" "[''HN1.0/LISTEN_CONNECT abc '' @ otp @ HN_MSG_END]"]
    by fastforce
  then show ?thesis using g by (simp add: sock_init_def Let_def)
qed

text \<open>
  (C29) An IPv6 address as the target takes the bridge out of the defined behaviour of C: when a
  client, who need not be authenticated, asks for a connection to text that is an IPv6 address,
  the address is stored behind the end of the struct that is to hold it.
\<close>

theorem ipv6_target_overflows:
  assumes "below_buff os = pre @ [NUL, NUL]" and "cf_mode (conf st) \<noteq> Some HN_MODE_LISTEN" and "fresh_conn st p s"
    and "plain_id tgt" and "1 < count_list tgt CHR '':''" and "take 1 tgt \<noteq> ''[''" and "inet_pton6 os tgt = Some a"
    and "connect_authRequired os tgt st \<noteq> Some True"
    and "concat cs = ''HN1.0/CONNECT '' @ tgt @ HN_MSG_END" and "[] \<notin> set cs"
  shows "handleNew os p (arrive (fd s) cs st) = None"
proof -
  let ?R = "request_received p s [] st"
  note m = connect_text [OF assms(4)]
  have "handleNew os p (arrive (fd s) (cs @ []) st) = new_connect os p (''HN1.0/CONNECT '' @ tgt) ?R"
    by (rule handleNew_receives(1) [OF assms(1-3) m(1) _ assms(10) m(2)]) (simp add: assms(9))
  moreover have "new_connect os p (''HN1.0/CONNECT '' @ tgt) ?R = None"
    by (rule ipv6_connect_faults [OF assms(4-7)]) (use assms(8) authRequired_by_conf [of ?R st] in \<open>simp add: request_received_def\<close>)
  ultimately show ?thesis by simp
qed

theorem ipv6_target_overflows_witness:
  "handleNew (os_plain\<lparr>inet_pton6 := \<lambda>_. Some 1\<rparr>) 1 (arrive 5 [''HN1.0/CONNECT ::1'' @ HN_MSG_END] listening_bridge) = None"
proof -
  let ?os = "os_plain\<lparr>inet_pton6 := \<lambda>_. Some 1\<rparr>" and ?s = "sock_init TCPSOCKET 5" and ?cs = "[''HN1.0/CONNECT ::1'' @ HN_MSG_END]"
  have os: "below_buff ?os = replicate 30 NUL @ [NUL, NUL]" by (simp add: os_plain_def eval_nat_numeral)
  have md: "cf_mode (conf listening_bridge) \<noteq> Some HN_MODE_LISTEN" by (simp add: listening_bridge_def)
  have p: "fresh_conn listening_bridge 1 ?s" by (simp add: fresh_conn_def listening_bridge_def) (simp add: sock_init_def hn_idle_def)
  have t: "plain_id ''::1''" "1 < count_list ''::1'' CHR '':''" "take 1 ''::1'' \<noteq> ''[''" "inet_pton6 ?os ''::1'' = Some 1"
    by (simp_all add: plain_id_def ID_SIZE_def)
  have a: "connect_authRequired ?os ''::1'' listening_bridge \<noteq> Some True"
    by (simp add: connect_authRequired_def listening_bridge_def bridge_idle_def AUTH_LEVEL_NONE_def)
  have c: "concat ?cs = ''HN1.0/CONNECT '' @ ''::1'' @ HN_MSG_END" "[] \<notin> set ?cs" by simp_all
  have f: "fd ?s = 5" by (simp add: sock_init_def)
  from ipv6_target_overflows [OF os md p t a c] show ?thesis unfolding f .
qed

end
