(* ===== verification/State_Kept.thy ===== *)
theory State_Kept
  imports Relay_Correct
begin

text \<open>
  What every operation of the program keeps.  The locale names the primitive changes of the
  state (a clock read, bytes sent, a socket allocated, updated or freed, a registry entry
  added or removed, a change of the bridge context) and derives that a predicate closed under
  them is kept by every operation of the socket layer, the protocol, the handshakes and mDNS.
\<close>

section \<open>What is kept by every operation\<close>

text \<open>The changes the program makes to its registries.\<close>

definition table_step :: "'v Map \<Rightarrow> 'v Map \<Rightarrow> bool" where
  "table_step m m' \<longleftrightarrow> m' = m \<or> (\<exists>k v. map_put False m k v = Some m') \<or> (\<exists>k. m' = map_remove False m k)"

lemma table_step_refl [simp]: "table_step m m"
  by (simp add: table_step_def)

definition mdns_ok :: "BridgeContext \<Rightarrow> bool" where
  "mdns_ok c \<longleftrightarrow> map_inv (mdnsStore c) \<and> list_all (\<lambda>kr. map_inv (rec_data (snd kr))) (map_start (mdnsStore c))"

text \<open>The changes the program makes to the bridge context while it runs: never to the credentials.\<close>

definition ctx_step :: "BridgeContext \<Rightarrow> BridgeContext \<Rightarrow> bool" where
  "ctx_step c c' \<longleftrightarrow> table_step (listeningSocks c) (listeningSocks c') \<and> (mdns_ok c \<longrightarrow> mdns_ok c')
     \<and> masterKey c' = masterKey c \<and> ctx_name c' = ctx_name c \<and> queryKeys c' = queryKeys c \<and> listenKeys c' = listenKeys c"

lemma ctx_step_simps [simp]:
  "ctx_step c (c\<lparr>lastMdnsBroadcast := t\<rparr>)" "ctx_step c (c\<lparr>mdnsLastRefresh := t\<rparr>)" "ctx_step c (c\<lparr>rlLastPing := t\<rparr>)"
  "ctx_step c (c\<lparr>rlSock := p, rlRetries := n\<rparr>)" "ctx_step c (c\<lparr>rlSock := p\<rparr>)"
  "ctx_step c (c\<lparr>rlRetries := n, rlLastRetry := t\<rparr>)" "ctx_step c (c\<lparr>rlRetries := n, rlSock := p\<rparr>)" "ctx_step c (c\<lparr>rlLastRetry := t\<rparr>)" "ctx_step c (c\<lparr>rlRetries := n\<rparr>)"
  by (simp_all add: ctx_step_def mdns_ok_def)

lemma ctx_step_listening: "table_step (listeningSocks c) m \<Longrightarrow> ctx_step c (c\<lparr>listeningSocks := m\<rparr>)"
  by (simp add: ctx_step_def mdns_ok_def)

lemma ctx_step_mdns: "(mdns_ok c \<Longrightarrow> mdns_ok (c\<lparr>mdnsStore := m\<rparr>)) \<Longrightarrow> ctx_step c (c\<lparr>mdnsStore := m\<rparr>)"
  by (simp add: ctx_step_def)

lemma list_all_set_value:
  "list_all P xs \<Longrightarrow> (\<And>k'. P (k', v)) \<Longrightarrow> list_all P (set_value xs k v)"
  by (induction xs) auto

lemma map_inv_set_value: "map_inv m \<Longrightarrow> map_inv (m\<lparr>map_start := set_value (map_start m) k v\<rparr>)"
  by (simp add: map_inv_def) (metis keys_set_value length_map)

lemma map_inv_cleanup [simp]: "map_inv (fst (map_cleanup m b))"
  by (simp add: map_inv_def map_cleanup_def)

lemma mdns_ok_get: "mdns_ok c \<Longrightarrow> map_get (mdnsStore c) k = Some r \<Longrightarrow> map_inv (rec_data r)"
  by (force simp: mdns_ok_def map_get_map_of list_all_iff dest: map_of_SomeD)

lemma mdns_ok_set_value:
  "mdns_ok c \<Longrightarrow> map_inv (rec_data r) \<Longrightarrow>
   mdns_ok (c\<lparr>mdnsStore := (mdnsStore c)\<lparr>map_start := set_value (map_start (mdnsStore c)) k r\<rparr>\<rparr>)"
  by (simp add: mdns_ok_def map_inv_set_value list_all_set_value)

lemma mdns_ok_put:
  assumes "mdns_ok c" "map_put True (mdnsStore c) k r = Some m" "map_inv (rec_data r)"
  shows "mdns_ok (c\<lparr>mdnsStore := m\<rparr>)"
proof -
  have "list_all (\<lambda>kr. map_inv (rec_data (snd kr))) (map_start m)"
    using assms by (auto simp: map_put_def map_set_def mdns_ok_def split: option.splits if_splits intro!: list_all_set_value)
  moreover have "map_inv m" using assms by (auto simp: mdns_ok_def intro: cmap.put_inv)
  ultimately show ?thesis by (simp add: mdns_ok_def)
qed

locale kept =
  fixes I :: "hn \<Rightarrow> bool"
  assumes k_ticks: "I st \<Longrightarrow> I (st\<lparr>ticks := n\<rparr>)"
    and k_seed: "I st \<Longrightarrow> I (st\<lparr>mySeed := k\<rparr>)"
    and k_inbox: "I st \<Longrightarrow> I (st\<lparr>inbox := i\<rparr>)"
    and k_conns: "I st \<Longrightarrow> I (st\<lparr>conns := cs\<rparr>)"
    and k_accepts: "I st \<Longrightarrow> I (st\<lparr>accepts := as\<rparr>)"
    and k_udp_in: "I st \<Longrightarrow> I (st\<lparr>udp_in := ds\<rparr>)"
    and k_udp_fails: "I st \<Longrightarrow> I (st\<lparr>udp_fails := fs\<rparr>)"
    and k_udp_opens: "I st \<Longrightarrow> I (st\<lparr>udp_opens := us\<rparr>)"
    and k_mdns_fd: "I st \<Longrightarrow> I (st\<lparr>mdns_fd := f\<rparr>)"
    and k_mdns_addr: "I st \<Longrightarrow> I (st\<lparr>mdns_addr := a\<rparr>)"
    and k_sockList: "I st \<Longrightarrow> I (st\<lparr>sockList := l\<rparr>)"
    and k_isRecall: "I st \<Longrightarrow> I (st\<lparr>isRecall := b\<rparr>)"
    and k_wscript: "I st \<Longrightarrow> I (st\<lparr>wscript := w\<rparr>)"
    and k_outbox: "I st \<Longrightarrow> I (st\<lparr>outbox := (outbox st)(f := outbox st f @ d)\<rparr>)"
    and k_closed: "I st \<Longrightarrow> I (st\<lparr>closedFds := closedFds st @ [f]\<rparr>)"
    and k_udp_sent: "I st \<Longrightarrow> I (st\<lparr>udp_sent := udp_sent st @ [dg]\<rparr>)"
    and k_upd_sock: "I st \<Longrightarrow> upd_sock p g st = Some st' \<Longrightarrow> I st'"
    and k_free_sock: "I st \<Longrightarrow> free_sock p st = Some st' \<Longrightarrow> I st'"
    and k_free_hn: "I st \<Longrightarrow> free_hn h st = Some st' \<Longrightarrow> I st'"
    and k_alloc_sock: "I st \<Longrightarrow> alloc_sock s st = (p, st') \<Longrightarrow> I st'"
    and k_alloc_hn: "I st \<Longrightarrow> alloc_hn (fresh_hn p md up) st = (h, st') \<Longrightarrow> I st'"
    and k_upd_hn: "I st \<Longrightarrow> (\<And>hs. waitingSocks (u hs) = waitingSocks hs) \<Longrightarrow> upd_hn h u st = Some st' \<Longrightarrow> I st'"
    and k_waiting: "I st \<Longrightarrow> hnSocks st h = Some hs \<Longrightarrow> table_step (waitingSocks hs) m \<Longrightarrow>
       upd_hn h (\<lambda>hs. hs\<lparr>waitingSocks := m\<rparr>) st = Some st' \<Longrightarrow> I st'"
    and k_cleanup: "I st \<Longrightarrow> upd_hn h (\<lambda>hs. hs\<lparr>waitingSocks := fst (map_cleanup (waitingSocks hs) False)\<rparr>) st = Some st' \<Longrightarrow> I st'"
    and k_ctx: "I st \<Longrightarrow> get_ctx st = Some c \<Longrightarrow> ctx_step c c' \<Longrightarrow>
       set_ctx c' st = Some st' \<Longrightarrow> I st'"
begin

lemmas k_plain = k_ticks k_seed k_inbox k_conns k_accepts k_udp_in k_udp_fails k_udp_opens k_mdns_fd k_mdns_addr k_sockList k_isRecall k_wscript
  k_outbox k_closed k_udp_sent

lemma k_os_write: "os_write f d st = (w, st') \<Longrightarrow> I st \<Longrightarrow> I st'"
proof (cases "wscript st f")
  case Nil
  moreover assume "os_write f d st = (w, st')" "I st"
  ultimately show ?thesis by (auto simp: os_write_def intro: k_outbox)
next
  case (Cons k ks)
  assume o: "os_write f d st = (w, st')" and i: "I st"
  let ?st = "st\<lparr>wscript := (wscript st)(f := ks)\<rparr>"
  have "I ?st" "I (?st\<lparr>outbox := (outbox ?st)(f := outbox ?st f @ take (nat k) d)\<rparr>)" using i by (blast intro: k_plain)+
  with o Cons show ?thesis by (auto simp: os_write_def Let_def split: if_splits)
qed

lemma k_write_loop: "write_loop f d st = (n, l, st') \<Longrightarrow> I st \<Longrightarrow> I st'"
proof (induction f d st arbitrary: n l st' rule: write_loop.induct)
  case (1 f d st)
  show ?case
  proof (cases "d = []")
    case False
    obtain w st1 where w: "os_write f d st = (w, st1)" by (cases "os_write f d st")
    have i: "I st1" by (rule k_os_write [OF w 1(3)])
    obtain n1 l1 st2 where r: "write_loop f (drop (nat w) d) st1 = (n1, l1, st2)"
      by (cases "write_loop f (drop (nat w) d) st1")
    show ?thesis
    proof (cases "w \<le> 0")
      case True
      with 1(2) False w i show ?thesis by (simp add: write_loop.simps [of f d st])
    next
      case pos: False
      have "st' = st2" using 1(2) False w pos r by (simp add: write_loop.simps [of f d st])
      with 1(1) [OF False w [symmetric] refl pos r i] show ?thesis by simp
    qed
  qed (use 1 in \<open>simp add: write_loop.simps [of f "[]" st]\<close>)
qed

lemma k_sock_close: "sock_close p st = Some (r, st') \<Longrightarrow> I st \<Longrightarrow> I st'"
  by (auto simp: sock_close_def bind_eq_Some_conv split: if_splits intro: k_upd_sock k_closed)

lemma k_drain: "drain p s st = Some st' \<Longrightarrow> I st \<Longrightarrow> I st'"
proof -
  assume d: "drain p s st = Some st'" and i: "I st"
  then obtain sent ks g where u: "upd_sock p g
      (st\<lparr>wscript := (wscript st)(fd s := ks), outbox := (outbox st)(fd s := outbox st (fd s) @ sent)\<rparr>) = Some st'"
    by (auto simp: drain_def bind_eq_Some_conv Let_def)
  let ?st = "st\<lparr>wscript := (wscript st)(fd s := ks)\<rparr>"
  have "I (?st\<lparr>outbox := (outbox ?st)(fd s := outbox ?st (fd s) @ sent)\<rparr>)" using i by (blast intro: k_plain)
  with u show ?thesis by (auto intro: k_upd_sock)
qed

lemma k_sock_write: "sock_write p d st = Some (n, st') \<Longrightarrow> I st \<Longrightarrow> I st'"
proof -
  assume w: "sock_write p d st = Some (n, st')" and i: "I st"
  then obtain s where s: "the_sock st p = Some s" by (auto simp: sock_write_def bind_eq_Some_conv)
  consider "isAlive s = SOCKET_DEAD" | "isAlive s \<noteq> SOCKET_DEAD" "isBlocking s"
    | "isAlive s \<noteq> SOCKET_DEAD" "\<not> isBlocking s" "\<not> buffer_isEmpty (writeBuffer s)"
    | "isAlive s \<noteq> SOCKET_DEAD" "\<not> isBlocking s" "buffer_isEmpty (writeBuffer s)" by blast
  then show ?thesis
  proof cases
    case 4
    with w s obtain st1 where u: "upd_sock p (\<lambda>s. s\<lparr>listenForWritable := False\<rparr>) st = Some st1"
      by (auto simp: sock_write_def bind_eq_Some_conv)
    obtain k l st2 where l: "write_loop (fd s) d st1 = (k, l, st2)" by (cases "write_loop (fd s) d st1")
    have "I st2" by (rule k_write_loop [OF l k_upd_sock [OF i u]])
    with 4 w s u l show ?thesis
      by (auto simp: sock_write_def bind_eq_Some_conv split: if_splits intro: k_upd_sock k_sock_close)
  qed (use w s i in \<open>auto simp: sock_write_def bind_eq_Some_conv split: prod.splits intro: k_drain k_write_loop\<close>)
qed

lemma k_os_recv: "os_recv f mx st = (rc, d, ag, st') \<Longrightarrow> I st \<Longrightarrow> I st'"
  by (auto simp: os_recv_def Let_def split: list.splits recv_answer.splits if_splits intro: k_inbox)

lemma k_read_loop: "read_loop p f mx st = Some (d, st') \<Longrightarrow> I st \<Longrightarrow> I st'"
proof (induction p f mx st arbitrary: d st' rule: read_loop.induct)
  case (1 p f mx st)
  obtain rc d1 ag st1 where o: "os_recv f mx st = (rc, d1, ag, st1)" by (cases "os_recv f mx st")
  have i: "I st1" by (rule k_os_recv [OF o 1(3)])
  show ?case
    using 1(2,3) o i 1(1) [OF _ o [symmetric] refl refl refl]
    by (auto simp: read_loop.simps [of p f mx st] bind_eq_Some_conv split: if_splits intro: k_sock_close)
qed

lemma k_sock_read: "sock_read mx p st = Some (rc, d, st') \<Longrightarrow> I st \<Longrightarrow> I st'"
  by (auto simp: sock_read_def bind_eq_Some_conv split: if_splits prod.splits intro: k_read_loop k_os_recv)

lemma k_sock_done: "sock_done p st = Some (r, st') \<Longrightarrow> I st \<Longrightarrow> I st'"
  by (auto simp: sock_done_def bind_eq_Some_conv split: if_splits intro: k_upd_sock k_sock_close)

lemma k_sock_cleanup: "sock_cleanup p st = Some st' \<Longrightarrow> I st \<Longrightarrow> I st'"
  by (auto simp: sock_cleanup_def intro: k_upd_sock)

lemma k_sock_setBlocking: "sock_setBlocking p st = Some (r, st') \<Longrightarrow> I st \<Longrightarrow> I st'"
  by (auto simp: sock_setBlocking_def bind_eq_Some_conv split: if_splits intro: k_upd_sock)

lemma k_sock_setNonBlocking: "sock_setNonBlocking p st = Some (r, st') \<Longrightarrow> I st \<Longrightarrow> I st'"
  by (auto simp: sock_setNonBlocking_def bind_eq_Some_conv split: if_splits intro: k_upd_sock)

lemma k_sock_acceptNew: "sock_acceptNew p st = Some (r, st') \<Longrightarrow> I st \<Longrightarrow> I st'"
  by (auto simp: sock_acceptNew_def bind_eq_Some_conv split: if_splits list.splits option.splits intro: k_accepts k_sock_close)

lemma k_createTcpConnection: "createTcpConnection p ip st = Some (r, st') \<Longrightarrow> I st \<Longrightarrow> I st'"
  by (auto simp: createTcpConnection_def bind_eq_Some_conv split: if_splits list.splits intro!: k_conns intro: k_upd_sock [OF k_conns])

lemma k_createTcpSocket: "createTcpSocket st = (p, st') \<Longrightarrow> I st \<Longrightarrow> I st'"
  by (auto simp: createTcpSocket_def intro: k_alloc_sock)

lemma k_os_time: "os_time os st = (t, st') \<Longrightarrow> I st \<Longrightarrow> I st'"
  by (auto simp: os_time_def intro: k_ticks)

lemma k_generateCode: "generateCode os n st = (c, st') \<Longrightarrow> I st \<Longrightarrow> I st'"
  by (auto simp: generateCode_def Let_def split: prod.splits intro: k_seed k_os_time)

lemmas k_net = k_sock_write k_sock_read k_sock_close k_sock_done k_sock_cleanup k_sock_setBlocking k_sock_setNonBlocking
  k_sock_acceptNew k_createTcpConnection k_createTcpSocket k_os_time k_generateCode

end


context kept
begin

lemma k_upgradeHttpClient: "upgradeHttpClient p h st = Some (r, st') \<Longrightarrow> I st \<Longrightarrow> I st'"
  by (auto simp: upgradeHttpClient_def bind_eq_Some_conv split: if_splits intro: k_sock_read k_sock_write)

lemma k_mark_upgraded: "upd_hn h (\<lambda>hs. hs\<lparr>isUpgraded := b\<rparr>) st = Some st' \<Longrightarrow> I st \<Longrightarrow> I st'"
  by (rule k_upd_hn) simp_all

lemma k_hn_sendMsg: "hn_sendMsg p m st = Some (n, b, st') \<Longrightarrow> I st \<Longrightarrow> I st'"
  by (auto simp: hn_sendMsg_def bind_eq_Some_conv split: if_split_asm option.split_asm
      dest!: k_sock_write k_upgradeHttpClient k_mark_upgraded)

lemma k_receive_loop: "receive_loop os p b n st = Some (b', n', st') \<Longrightarrow> I st \<Longrightarrow> I st'"
proof (induction os p b n st arbitrary: b' n' st' rule: receive_loop.induct)
  case (1 os p b n st)
  from 1(2) obtain e where e: "ends_msg os b = Some e" by (auto simp: receive_loop.simps [of os p b n st] bind_eq_Some_conv)
  show ?case
  proof (cases "\<not> e \<and> n < BUFF_SIZE")
    case True
    with 1(2) e obtain rc d st1 where r: "sock_read (BUFF_SIZE - n) p st = Some (rc, d, st1)"
      by (auto simp: receive_loop.simps [of os p b n st] bind_eq_Some_conv)
    have i: "I st1" by (rule k_sock_read [OF r 1(3)])
    show ?thesis
    proof (cases "rc \<le> 0")
      case True
      then show ?thesis using \<open>\<not> e \<and> n < BUFF_SIZE\<close> 1(2) e r i by (simp add: receive_loop.simps [of os p b n st])
    next
      case False
      then have "receive_loop os p (overwrite b n d) (n + nat rc) st1 = Some (b', n', st')"
        using \<open>\<not> e \<and> n < BUFF_SIZE\<close> 1(2) e r by (simp add: receive_loop.simps [of os p b n st])
      from 1(1) [OF _ True _ refl refl False this i] show ?thesis using e r by simp
    qed
  next
    case False
    with 1(2,3) e show ?thesis by (auto simp: receive_loop.simps [of os p b n st])
  qed
qed

lemma k_hn_receiveMsg: "hn_receiveMsg os p st = Some (n, b, st') \<Longrightarrow> I st \<Longrightarrow> I st'"
  by (auto simp: hn_receiveMsg_def bind_eq_Some_conv split: if_splits intro: k_receive_loop)

lemma active_listener_hn: "active_listener lid st = Some (Some (h, hs)) \<Longrightarrow> hnSocks st h = Some hs"
  by (auto simp: active_listener_def the_hn_def bind_eq_Some_conv split: option.splits if_splits)

lemma k_removeWaitingSocket: "removeWaitingSocket lid otp st = Some (r, st') \<Longrightarrow> I st \<Longrightarrow> I st'"
proof -
  assume m: "removeWaitingSocket lid otp st = Some (r, st')" and i: "I st"
  then obtain l where l: "active_listener lid st = Some l" by (auto simp: removeWaitingSocket_def bind_eq_Some_conv)
  with m consider "st' = st" | h hs where "active_listener lid st = Some (Some (h, hs))"
    "upd_hn h (\<lambda>hs'. hs'\<lparr>waitingSocks := map_remove False (waitingSocks hs) otp\<rparr>) st = Some st'"
    by (cases l; cases "map_del (waitingSocks (snd (the l))) otp False")
       (auto simp: removeWaitingSocket_def bind_eq_Some_conv map_remove_def)
  then show ?thesis
  proof cases
    case 2
    have "table_step (waitingSocks hs) (map_remove False (waitingSocks hs) otp)" by (auto simp: table_step_def)
    from k_waiting [OF i active_listener_hn [OF 2(1)] this 2(2)] show ?thesis .
  qed (use i in simp)
qed

lemma k_addWaitingSock: "addWaitingSock lid otp w st = Some (r, st') \<Longrightarrow> I st \<Longrightarrow> I st'"
proof -
  assume m: "addWaitingSock lid otp w st = Some (r, st')" and i: "I st"
  then obtain l where l: "active_listener lid st = Some l" by (auto simp: addWaitingSock_def bind_eq_Some_conv)
  with m consider "st' = st" | h hs m where "active_listener lid st = Some (Some (h, hs))"
    "map_put False (waitingSocks hs) otp w = Some m" "upd_hn h (\<lambda>hs'. hs'\<lparr>waitingSocks := m\<rparr>) st = Some st'"
    by (cases l) (auto simp: addWaitingSock_def bind_eq_Some_conv split: if_split_asm)
  then show ?thesis
  proof cases
    case 2
    have "table_step (waitingSocks hs) m" using 2(2) by (auto simp: table_step_def)
    from k_waiting [OF i active_listener_hn [OF 2(1)] this 2(3)] show ?thesis .
  qed (use i in simp)
qed

lemma k_hn_sockInit: "hn_sockInit p md up st = Some (h, st') \<Longrightarrow> I st \<Longrightarrow> I st'"
  by (auto simp: hn_sockInit_def bind_eq_Some_conv split: prod.splits intro: k_upd_sock dest: k_alloc_hn [rotated])

lemma k_close_waiting: "close_waiting ws st = Some st' \<Longrightarrow> I st \<Longrightarrow> I st'"
  by (induction ws arbitrary: st) (auto simp: bind_eq_Some_conv intro: k_sock_done)

lemma k_hn_sockCleanup: "hn_sockCleanup h ctx st = Some st' \<Longrightarrow> I st \<Longrightarrow> I st'"
proof -
  assume m: "hn_sockCleanup h ctx st = Some st'" and i: "I st"
  then obtain hs where hs: "the_hn st h = Some hs" by (auto simp: hn_sockCleanup_def bind_eq_Some_conv)
  show ?thesis
  proof (cases "hn_mode hs")
    case SOCK_MODE_RELAY
    with m hs i show ?thesis
      by (auto simp: hn_sockCleanup_def bind_eq_Some_conv split: option.split_asm if_split_asm
          dest!: k_free_hn [rotated] k_sock_done k_removeWaitingSocket)
  next
    case SOCK_MODE_LISTEN
    with m hs obtain st1 st2 st3 where 1: "close_waiting (map snd (map_start (waitingSocks hs))) st = Some st1"
      and 2: "upd_hn h (\<lambda>hs. hs\<lparr>waitingSocks := fst (map_cleanup (waitingSocks hs) False)\<rparr>) st1 = Some st2"
      and 3: "(if ctx then do {
              c \<leftarrow> get_ctx st2;
              set_ctx (c\<lparr>listeningSocks := map_remove False (listeningSocks c) (listen_listenId hs)\<rparr>) st2 }
            else Some st2) = Some st3" and 4: "free_hn h st3 = Some st'"
      by (auto simp: hn_sockCleanup_def bind_eq_Some_conv)
    have i2: "I st2" by (rule k_cleanup [OF k_close_waiting [OF 1 i] 2])
    have "I st3"
    proof (cases ctx)
      case True
      with 3 obtain c where c: "get_ctx st2 = Some c"
        "set_ctx (c\<lparr>listeningSocks := map_remove False (listeningSocks c) (listen_listenId hs)\<rparr>) st2 = Some st3"
        by (auto simp: bind_eq_Some_conv)
      show ?thesis by (rule k_ctx [OF i2 c(1) ctx_step_listening c(2)]) (auto simp: table_step_def)
    qed (use 3 i2 in simp)
    with 4 show ?thesis by (auto intro: k_free_hn)
  next
    case SOCK_MODE_LISTEN_OUT
    with m hs i show ?thesis
      by (auto simp: hn_sockCleanup_def bind_eq_Some_conv split: if_split_asm dest!: k_free_hn [rotated] k_ctx [rotated 3])
  qed (use m hs i in \<open>auto simp: hn_sockCleanup_def bind_eq_Some_conv dest!: k_free_hn [rotated]\<close>)
qed

lemma k_sock_destroy: "sock_destroy p ctx st = Some st' \<Longrightarrow> I st \<Longrightarrow> I st'"
  by (auto simp: sock_destroy_def bind_eq_Some_conv split: option.split_asm
      dest!: k_free_sock [rotated] k_sock_cleanup k_sock_close k_upd_sock [rotated] k_hn_sockCleanup)

lemma k_sock_readDump: "sock_readDump p st = Some st' \<Longrightarrow> I st \<Longrightarrow> I st'"
  by (auto simp: sock_readDump_def bind_eq_Some_conv split: if_splits intro: k_sock_read)

lemma k_authThrowChallenge: "authThrowChallenge os p m st = Some (r, b, st') \<Longrightarrow> I st \<Longrightarrow> I st'"
  by (auto simp: authThrowChallenge_def generateAuthChallenge_def bind_eq_Some_conv split: if_split_asm prod.split_asm
      dest!: k_hn_sendMsg k_hn_receiveMsg k_generateCode)

lemma k_auth_answer: "auth_answer os buff p k s pw st = Some (r, b, st') \<Longrightarrow> I st \<Longrightarrow> I st'"
  unfolding auth_answer_def bind_eq_Some_conv
  by (auto simp: bind_eq_Some_conv split: if_split_asm dest!: k_hn_sendMsg k_hn_receiveMsg)

lemma k_authSolve: "authSolve os buff p k s pw st = Some (r, b, st') \<Longrightarrow> I st \<Longrightarrow> I st'"
  by (auto simp: authSolve_def bind_eq_Some_conv split: if_split_asm dest!: k_auth_answer k_hn_receiveMsg)

lemmas k_msg = k_hn_sendMsg k_hn_receiveMsg k_removeWaitingSocket k_addWaitingSock k_hn_sockInit k_hn_sockCleanup
  k_sock_destroy k_sock_readDump k_authThrowChallenge k_authSolve

end


text \<open>The state after allocating a fresh TCP socket.\<close>

definition created :: "hn \<Rightarrow> hn" where
  "created st = snd (createTcpSocket st)"

lemma createTcpSocket_pair: "createTcpSocket st = (nextPtr st, created st)"
  by (simp add: created_def createTcpSocket_def alloc_sock_def)

lemma get_ctx_plain [simp]:
  "get_ctx (st\<lparr>ticks := n\<rparr>) = get_ctx st" "get_ctx (st\<lparr>mySeed := k\<rparr>) = get_ctx st"
  "get_ctx (st\<lparr>udp_fails := fs\<rparr>) = get_ctx st" "get_ctx (st\<lparr>udp_sent := ds\<rparr>) = get_ctx st"
  "get_ctx (st\<lparr>udp_opens := us\<rparr>) = get_ctx st" "get_ctx (st\<lparr>mdns_fd := f\<rparr>) = get_ctx st" "get_ctx (st\<lparr>mdns_addr := a\<rparr>) = get_ctx st"
  by (simp_all add: get_ctx_def)

context kept
begin

lemma k_upd_hn': "upd_hn h u st = Some st' \<Longrightarrow> I st \<Longrightarrow> (\<And>hs. waitingSocks (u hs) = waitingSocks hs) \<Longrightarrow> I st'"
  by (rule k_upd_hn)

lemma k_set_ctx: "set_ctx c' st = Some st' \<Longrightarrow> I st \<Longrightarrow> (\<exists>c. get_ctx st = Some c \<and> ctx_step c c') \<Longrightarrow> I st'"
  using k_ctx by blast

lemma k_request_reverse: "request_reverse os c w st = Some (r, st') \<Longrightarrow> I st \<Longrightarrow> I st'"
  by (auto simp: request_reverse_def bind_eq_Some_conv split: prod.split_asm option.split_asm
      dest!: k_msg k_net k_upd_hn')

lemma k_connect_loop: "connect_loop os p rest pw st = Some (r, st') \<Longrightarrow> I st \<Longrightarrow> I st'"
proof (induction os p rest pw st arbitrary: r st' rule: connect_loop.induct)
  case (1 os p rest pw st)
  obtain f rest' where s: "strtok ''/'' rest = (f, rest')" by (cases "strtok ''/'' rest")
  show ?case
  proof (cases f)
    case (Some first)
    with 1(2) s obtain connId pwNext msg w b st1 ok b' st2 where u: "url_part first = Some (connId, pwNext)"
      and m: "fits BUFF_SIZE (''HN1.0/CONNECT '' @ connId) = Some msg"
      and snd: "hn_sendMsg p msg st = Some (w, b, st1)" and a: "authSolve os [] p None None (Some pw) st1 = Some (ok, b', st2)"
      and r: "(if \<not> ok then Some (0, st2) else if startsWith b' ''CONNECTED'' then connect_loop os p rest' pwNext st2
              else Some (0, st2)) = Some (r, st')"
      by (auto simp: connect_loop.simps [of os p rest pw st] bind_eq_Some_conv)
    have i: "I st2" by (rule k_authSolve [OF a k_hn_sendMsg [OF snd 1(3)]])
    show ?thesis
    proof (cases "ok \<and> startsWith b' ''CONNECTED''")
      case True
      then have l: "connect_loop os p rest' pwNext st2 = Some (r, st')" using r by simp
      show ?thesis
        by (rule 1(1) [OF s [symmetric] Some _ refl _ _ refl refl _ refl refl _ _ l i]) (use u m snd a True in auto)
    qed (use r i in \<open>auto split: if_split_asm\<close>)
  qed (use 1(2,3) s in \<open>simp add: connect_loop.simps [of os p rest pw st]\<close>)
qed

lemma k_initializeConnect: "initializeConnect os url p w ctx st = Some (r, st') \<Longrightarrow> I st \<Longrightarrow> I st'"
proof -
  assume m: "initializeConnect os url p w ctx st = Some (r, st')" and i: "I st"
  obtain f rest where t: "strtok ''/'' (strip_protocol (removeChars url '' '')) = (f, rest)"
    by (cases "strtok ''/'' (strip_protocol (removeChars url '' ''))")
  show ?thesis
  proof (cases f)
    case None
    with m t i show ?thesis by (auto simp: initializeConnect_def bind_eq_Some_conv)
  next
    case (Some first)
    with m t obtain s connId pw ip rev st1 where s: "the_sock st p = Some s" "url_part first = Some (connId, pw)"
      "resolve_connId os connId ctx st = Some ip"
      and rev: "(case (w, ip) of (Some w, None) \<Rightarrow> if ctx then request_reverse os connId w st else Some (False, st)
             | _ \<Rightarrow> Some (False, st)) = Some (rev, st1)"
      by (auto simp: initializeConnect_def bind_eq_Some_conv)
    have i1: "I st1" using rev i by (auto split: option.split_asm if_split_asm dest!: k_request_reverse)
    show ?thesis
    proof (cases rev)
      case True
      with m t Some s rev i1 show ?thesis by (simp add: initializeConnect_def)
    next
      case False
      with m t Some s rev i1 show ?thesis
        by (auto simp: initializeConnect_def bind_eq_Some_conv split: option.split_asm if_split_asm
            dest!: k_connect_loop k_createTcpConnection k_upd_hn')
    qed
  qed
qed

lemma k_initializeListenNotify: "initializeListenNotify os l s u p st = Some (r, st') \<Longrightarrow> I st \<Longrightarrow> I st'"
  by (auto simp: initializeListenNotify_def bind_eq_Some_conv Let_def split: if_split_asm option.split_asm
      dest!: k_initializeConnect k_msg k_upd_hn')

lemma k_initializeListenConn: "initializeListenConn os l o' u p st = Some (r, st') \<Longrightarrow> I st \<Longrightarrow> I st'"
  by (auto simp: initializeListenConn_def bind_eq_Some_conv split: if_split_asm dest!: k_initializeConnect k_msg)

lemma k_created: "I st \<Longrightarrow> I (created st)"
  using k_createTcpSocket createTcpSocket_pair by blast

lemma k_tryRLStart: "tryRLStart os st = Some (r, st') \<Longrightarrow> I st \<Longrightarrow> I st'"
  by (auto simp: tryRLStart_def bind_eq_Some_conv os_time_def createTcpSocket_pair get_ctx_def Let_def split: if_split_asm prod.split_asm
      dest!: k_initializeListenNotify k_msg k_set_ctx intro!: k_plain k_created)

lemma k_createRelay: "createRelay os p u ctx st = Some (r, n, st') \<Longrightarrow> I st \<Longrightarrow> I st'"
  by (auto simp: createRelay_def bind_eq_Some_conv createTcpSocket_pair split: if_split_asm prod.split_asm
      dest!: k_initializeConnect k_msg k_upd_hn' intro!: k_created)

end


context kept
begin

lemma k_mdns_open:
  assumes "mdns_open os st = Some (r, st')" and "I st"
  shows "I st' \<and> get_ctx st' = get_ctx st"
proof -
  have "I (st\<lparr>udp_opens := us, mdns_fd := f\<rparr>)" "I (st\<lparr>udp_opens := us, mdns_fd := f, mdns_addr := a\<rparr>)" for us f a
    using assms(2) by (blast intro: k_plain)+
  with assms show ?thesis by (auto simp: mdns_open_def bind_eq_Some_conv split: if_splits list.splits)
qed

lemma k_mdns_send:
  assumes "mdns_send os d st = Some (r, st')" and "I st"
  shows "I st' \<and> get_ctx st' = get_ctx st"
proof -
  from assms(1) obtain ok st1 where o: "mdns_open os st = Some (ok, st1)" by (auto simp: mdns_send_def bind_eq_Some_conv)
  let ?st = "st1\<lparr>udp_fails := tl (udp_fails st1)\<rparr>"
  have "I st1" "get_ctx st1 = get_ctx st" using k_mdns_open [OF o assms(2)] by simp_all
  moreover from this(1) have "I ?st" "I (?st\<lparr>udp_sent := udp_sent ?st @ [(mdns_addr ?st, d)]\<rparr>)" by (blast intro: k_plain)+
  ultimately show ?thesis using assms(1) o by (auto simp: mdns_send_def split: if_splits list.splits bool.splits)
qed

lemma k_udp_read: "udp_read mx st = (d, st') \<Longrightarrow> I st \<Longrightarrow> I st'"
  by (auto simp: udp_read_def split: list.splits intro: k_plain)

lemma k_sendMdnsQuery: "sendMdnsQuery os nm st = Some st' \<Longrightarrow> I st \<Longrightarrow> I st'"
proof -
  assume s: "sendMdnsQuery os nm st = Some st'" and i: "I st"
  then obtain packet r where "mdns_send os packet st = Some (r, st')" by (auto simp: sendMdnsQuery_def bind_eq_Some_conv)
  then show ?thesis using k_mdns_send i by blast
qed

lemma k_os_time_ctx: "os_time os st = (t, st') \<Longrightarrow> get_ctx st' = get_ctx st"
  by (auto simp: os_time_def)

lemma k_set_ctx_same: "set_ctx c' st = Some st' \<Longrightarrow> I st \<Longrightarrow> get_ctx st = Some c \<Longrightarrow> ctx_step c c' \<Longrightarrow> I st'"
  by (rule k_set_ctx) auto

lemma k_advertise: "advertise os q b st = Some st' \<Longrightarrow> I st \<Longrightarrow> bridge (conf st) = Some b \<Longrightarrow> I st'"
proof -
  assume a: "advertise os q b st = Some st'" and i: "I st" and b: "bridge (conf st) = Some b"
  then obtain rc packet r st1 where p: "dns_encode (os_fpu os) DNS_BUFF
      (q\<lparr>dq_answers := [bridge_answer (ctx_name (br_context b)) (br_port b)], dq_query := False\<rparr>) = Some (rc, packet)"
    and m: "mdns_send os packet st = Some (r, st1)"
    by (auto simp: advertise_def Let_def bind_eq_Some_conv)
  obtain t st2 where t: "os_time os st1 = (t, st2)" by (cases "os_time os st1")
  have "I st1" "I st2" "get_ctx st2 = Some (br_context b)"
    using k_mdns_send [OF m i] k_os_time [OF t] k_os_time_ctx [OF t] b by (simp_all add: get_ctx_def)
  with a p m t show ?thesis
    by (auto simp: advertise_def split: if_split_asm dest!: k_set_ctx_same)
qed

lemma k_answer_questions: "answer_questions os q qs st = Some st' \<Longrightarrow> I st \<Longrightarrow> I st'"
  by (induction os q qs st rule: answer_questions.induct)
     (auto simp: bind_eq_Some_conv split: option.split_asm if_split_asm dest!: k_advertise)

lemma k_upd_record:
  assumes "upd_record k f st = Some st'" and "I st"
    and "\<And>c r. get_ctx st = Some c \<Longrightarrow> map_get (mdnsStore c) k = Some r \<Longrightarrow> map_inv (rec_data r) \<Longrightarrow> map_inv (rec_data (f r))"
  shows "I st'"
proof -
  from assms(1) obtain c r where c: "get_ctx st = Some c" "map_get (mdnsStore c) k = Some r"
    and s: "set_ctx (c\<lparr>mdnsStore := (mdnsStore c)\<lparr>map_start := set_value (map_start (mdnsStore c)) k (f r)\<rparr>\<rparr>) st = Some st'"
    by (auto simp: upd_record_def bind_eq_Some_conv)
  show ?thesis
    by (rule k_set_ctx_same [OF s assms(2) c(1) ctx_step_mdns])
       (use assms(3) c mdns_ok_get mdns_ok_set_value in blast)
qed

lemma k_new_record: "new_record os nm ip c st = Some (k, st') \<Longrightarrow> I st \<Longrightarrow> get_ctx st = Some c \<Longrightarrow> I st'"
proof -
  assume m: "new_record os nm ip c st = Some (k, st')" and i: "I st" and c: "get_ctx st = Some c"
  obtain k1 st1 where g: "generateCode os 14 st = (k1, st1)" by (cases "generateCode os 14 st")
  have "I st1" "get_ctx st1 = Some c"
    using k_generateCode [OF g i] g c by (auto simp: generateCode_def Let_def os_time_def split: prod.splits)
  moreover from m g obtain n mp where "map_put True (mdnsStore c) k1 \<lparr>rec_ip = ip, rec_name = n, rec_data = map_init, rec_timestamp = 0\<rparr> = Some mp"
    and "set_ctx (c\<lparr>mdnsStore := mp\<rparr>) st1 = Some st'" by (auto simp: new_record_def bind_eq_Some_conv)
  ultimately show ?thesis by (auto intro!: ctx_step_mdns mdns_ok_put dest!: k_set_ctx_same)
qed

lemma k_put_field: "put_field key k v st = Some st' \<Longrightarrow> I st \<Longrightarrow> I st'"
  by (auto simp: put_field_def bind_eq_Some_conv intro: cmap.put_inv dest!: k_upd_record)

lemma k_select_record: "select_record os nm ip st = Some (k, st') \<Longrightarrow> I st \<Longrightarrow> I st'"
proof -
  assume s: "select_record os nm ip st = Some (k, st')" and i: "I st"
  then obtain c k1 st1 where c: "get_ctx st = Some c"
    and r: "(case getMdnsRecordForIpAddr os ip c of
          Some (k, r) \<Rightarrow>
            if nm = rec_name r then do {
              st' \<leftarrow> upd_record k (\<lambda>r. r\<lparr>rec_data := fst (map_cleanup (rec_data r) True)\<rparr>) st;
              Some (k, st') }
            else new_record os nm ip c st
        | None \<Rightarrow> new_record os nm ip c st) = Some (k1, st1)"
    by (auto simp: select_record_def bind_eq_Some_conv)
  have i1: "I st1" using r i c
    by (auto simp: bind_eq_Some_conv split: option.split_asm if_split_asm dest!: k_upd_record k_new_record)
  obtain t st2 where t: "os_time os st1 = (t, st2)" by (cases "os_time os st1")
  from s c r t have "upd_record k1 (\<lambda>r. r\<lparr>rec_timestamp := t\<rparr>) st2 = Some st'"
    by (auto simp: select_record_def bind_eq_Some_conv)
  from k_upd_record [OF this k_os_time [OF t i1]] show ?thesis by simp
qed

lemma k_text_fields: "text_fields os nm s ip key st = Some (r, st') \<Longrightarrow> I st \<Longrightarrow> I st'"
proof (induction os nm s ip key st arbitrary: r st' rule: text_fields.induct)
  case (1 os nm s ip key st)
  obtain l rest where t: "strtok '';'' s = (l, rest)" by (cases "strtok '';'' s")
  show ?case
  proof (cases l)
    case None
    with 1(3,4) t show ?thesis by (simp add: text_fields.simps [of os nm s])
  next
    case (Some line)
    obtain k x where k: "strtok ''='' line = (k, x)" by (cases "strtok ''='' line")
    obtain v y where v: "strtok ''='' x = (v, y)" by (cases "strtok ''='' x")
    note pre = t [symmetric] Some refl k [symmetric] refl v [symmetric]
    show ?thesis
    proof (cases key)
      case None
      show ?thesis
        using 1(3,4) t Some k v None 1(1) [OF pre _ None _ _ refl _ refl] k_select_record
        by (auto simp: text_fields.simps [of os nm s ip None st] Let_def split: option.split_asm if_split_asm)
    next
      case key: (Some key')
      show ?thesis
        using 1(3,4) t Some k v key 1(2) [OF pre _ key] k_put_field
        by (auto simp: text_fields.simps [of os nm s ip "Some key'" st] split: option.split_asm if_split_asm)
    qed
  qed
qed

lemma k_learn_answer: "learn_answer os an ip st = Some (r, st') \<Longrightarrow> I st \<Longrightarrow> I st'"
  by (auto simp: learn_answer_def bind_eq_Some_conv split: option.split_asm if_split_asm dest!: k_text_fields)

lemma k_learn_answers: "learn_answers os ans ip st = Some st' \<Longrightarrow> I st \<Longrightarrow> I st'"
  by (induction ans arbitrary: ip st) (auto simp: bind_eq_Some_conv dest: k_learn_answer)

lemma k_handleMdnsRead: "handleMdnsRead os st = Some st' \<Longrightarrow> I st \<Longrightarrow> I st'"
proof -
  assume h: "handleMdnsRead os st = Some st'" and i: "I st"
  obtain d st1 where u: "udp_read DNS_BUFF st = (d, st1)" by (cases "udp_read DNS_BUFF st")
  obtain t st2 where t: "os_time os st1 = (t, st2)" by (cases "os_time os st1")
  have "I st1" "I st2" using k_udp_read [OF u i] k_os_time [OF t] by simp_all
  show ?thesis
  proof (cases d)
    case None
    with h u \<open>I st1\<close> show ?thesis by (auto simp: handleMdnsRead_def bind_eq_Some_conv)
  next
    case (Some bi)
    obtain buff ip where "bi = (buff, ip)" by (cases bi)
    moreover from this h u Some obtain r where "dns_decode (os_fpu os) DNS_DECODEBUF_4K (buff @ replicate (DNS_BUFF - length buff) NUL) (length buff) = Some r"
      by (auto simp: handleMdnsRead_def bind_eq_Some_conv)
    ultimately show ?thesis using h u t Some \<open>I st1\<close> \<open>I st2\<close>
      by (cases r) (auto simp: handleMdnsRead_def bind_eq_Some_conv split: if_split_asm dest!: k_learn_answers k_answer_questions)
  qed
qed

end

end
