(* ===== verification/Loop_Invariants.thy ===== *)
theory Loop_Invariants
  imports State_Kept
begin

text \<open>
  The same for the event handlers, the wait and the rounds of the event loop, and two
  invariants of every run: the registries stay well-formed maps, and nothing a peer sends
  changes the credentials.
\<close>

section \<open>The handlers\<close>

context kept
begin

lemma k_add_sock: "I st \<Longrightarrow> I (add_sock p st)"
  by (simp add: add_sock_def k_sockList)

lemma k_watch_sock: "watch_sock p st = Some st' \<Longrightarrow> I st \<Longrightarrow> I st'"
  by (auto simp: watch_sock_def bind_eq_Some_conv dest!: k_sock_setNonBlocking intro: k_add_sock)

lemma k_reject: "reject p st = Some (r, st') \<Longrightarrow> I st \<Longrightarrow> I st'"
  by (auto simp: reject_def bind_eq_Some_conv dest!: k_sock_destroy)

lemma k_accept_sock: "accept_sock p st = Some (r, st') \<Longrightarrow> I st \<Longrightarrow> I st'"
  by (auto simp: accept_sock_def bind_eq_Some_conv dest!: k_watch_sock)

lemmas k_sockets = k_watch_sock k_reject k_accept_sock

lemma k_new_listen_mode: "new_listen_mode os p st = Some (r, st') \<Longrightarrow> I st \<Longrightarrow> I st'"
proof -
  assume m: "new_listen_mode os p st = Some (r, st')" and i: "I st"
  have "I (st\<lparr>isRecall := False\<rparr>)" by (rule k_isRecall [OF i])
  with m show ?thesis
    by (auto simp: new_listen_mode_def bind_eq_Some_conv split: option.split_asm if_split_asm
        dest!: k_createRelay k_sockets)
qed

lemma k_new_connect: "new_connect os p buff st = Some (r, st') \<Longrightarrow> I st \<Longrightarrow> I st'"
  by (auto simp: new_connect_def bind_eq_Some_conv split: option.split_asm if_split_asm
      dest!: k_createRelay k_sockets k_authThrowChallenge k_hn_sendMsg)

lemma k_register_listener: "register_listener p lid st = Some (r, st') \<Longrightarrow> I st \<Longrightarrow> I st'"
proof -
  assume m: "register_listener p lid st = Some (r, st')" and i: "I st"
  then obtain h st1 st2 c m' st3 where 1: "hn_sockInit p SOCK_MODE_LISTEN True st = Some (h, st1)"
    "upd_hn h (\<lambda>hs. hs\<lparr>listen_listenId := lid\<rparr>) st1 = Some st2" "get_ctx st2 = Some c"
    "map_put False (listeningSocks c) lid h = Some m'" "set_ctx (c\<lparr>listeningSocks := m'\<rparr>) st2 = Some st3"
    and 2: "do { (w, b, st4) \<leftarrow> hn_sendMsg p (''LISTENING '' @ lid) st3; accept_sock p st4 } = Some (r, st')"
    by (auto simp: register_listener_def bind_eq_Some_conv)
  have "I st2" by (rule k_upd_hn' [OF 1(2) k_hn_sockInit [OF 1(1) i]]) simp
  moreover have "table_step (listeningSocks c) m'" using 1(4) by (auto simp: table_step_def)
  ultimately have "I st3" by (intro k_set_ctx [OF 1(5)]) (use 1(3) ctx_step_listening in blast)+
  with 2 show ?thesis by (auto simp: bind_eq_Some_conv dest!: k_hn_sendMsg k_accept_sock)
qed

lemma k_new_listen_notify: "new_listen_notify os p buff st = Some (r, st') \<Longrightarrow> I st \<Longrightarrow> I st'"
  by (auto simp: new_listen_notify_def bind_eq_Some_conv split: option.split_asm if_split_asm prod.split_asm
      dest!: k_sockets k_authThrowChallenge k_register_listener k_generateCode)

lemma k_new_listen_connect: "new_listen_connect os p buff st = Some (r, st') \<Longrightarrow> I st \<Longrightarrow> I st'"
  by (auto simp: new_listen_connect_def bind_eq_Some_conv split: option.split_asm if_split_asm
      dest!: k_sockets k_msg k_upd_hn')

lemma k_send_records: "send_records p krs st = Some st' \<Longrightarrow> I st \<Longrightarrow> I st'"
  by (induction krs arbitrary: st) (auto simp: bind_eq_Some_conv dest: k_hn_sendMsg)

lemma k_new_query: "new_query os p buff st = Some (r, st') \<Longrightarrow> I st \<Longrightarrow> I st'"
  by (auto simp: new_query_def bind_eq_Some_conv split: option.split_asm if_split_asm
      dest!: k_sockets k_authThrowChallenge k_send_records k_sock_destroy)

lemmas k_new = k_new_listen_mode k_new_connect k_new_listen_notify k_new_listen_connect k_new_query

lemma k_handleNew: "handleNew os p st = Some (r, st') \<Longrightarrow> I st \<Longrightarrow> I st'"
proof (induction os p st arbitrary: r st' rule: handleNew.induct)
  case (1 os p st)
  show ?case
  proof (cases "cf_mode (conf st) = Some HN_MODE_LISTEN")
    case True
    with 1(2,3) show ?thesis by (auto simp: handleNew.simps [of os p st] dest!: k_new)
  next
    case False
    with 1(2) obtain sb st1 tm n buff st2 where a: "sock_setBlocking p st = Some (sb, st1)"
      "sock_setTimeout p st1 = Some tm" "hn_receiveMsg os p st1 = Some (n, buff, st2)"
      by (auto simp: handleNew.simps [of os p st] bind_eq_Some_conv)
    have i: "I st2" by (rule k_hn_receiveMsg [OF a(3) k_sock_setBlocking [OF a(1) 1(3)]])
    then have i3: "I (st2\<lparr>isRecall := False\<rparr>)" by (rule k_isRecall)
    consider "startsWith buff ''HN1.0/CONNECT ''" | "startsWith buff ''HN1.0/LISTEN_NOTIFY''" | "startsWith buff ''HN1.0/LISTEN_CONNECT ''"
      | "startsWith buff ''HN1.0/QUERY ''" "cf_mode (conf st2) = Some HN_MODE_BRIDGE"
      | (other) "\<not> startsWith buff ''HN1.0/CONNECT ''" "\<not> startsWith buff ''HN1.0/LISTEN_NOTIFY''"
        "\<not> startsWith buff ''HN1.0/LISTEN_CONNECT ''"
        "\<not> (startsWith buff ''HN1.0/QUERY '' \<and> cf_mode (conf st2) = Some HN_MODE_BRIDGE)" by blast
    then show ?thesis
    proof cases
      case other
      with 1(2) False a obtain isHttp req where q: "parseHttpRequest buff = Some (isHttp, req)"
        by (auto simp: handleNew.simps [of os p st] bind_eq_Some_conv)
      note eq = handleNew.simps [of os p st]
      show ?thesis
      proof (cases "isHttp \<and> map_get (req_headers req) ''Upgrade'' = Some ''websocket'' \<and> \<not> isRecall st")
        case True
        with 1(2) False a other q obtain w st4 where w: "sock_write p writeUpgradeResponse st2 = Some (w, st4)"
          and h: "handleNew os p (st4\<lparr>isRecall := True\<rparr>) = Some (r, st')" by (auto simp: eq bind_eq_Some_conv)
        show ?thesis
          by (rule 1(1) [OF False _ refl _ _ refl refl refl other _ refl True _ refl h k_isRecall [OF k_sock_write [OF w i]]])
             (use a q w in auto)
      next
        case False
        with 1(2) \<open>cf_mode (conf st) \<noteq> Some HN_MODE_LISTEN\<close> a other q i show ?thesis
          by (auto simp: eq bind_eq_Some_conv split: if_split_asm dest!: k_reject dest: k_sock_write k_hn_sendMsg k_isRecall)
      qed
    qed (use 1(2) False a i3 in \<open>auto simp: handleNew.simps [of os p st] Let_def split: if_split_asm dest!: k_new\<close>)
  qed
qed

end


context kept
begin

lemma k_relay_loop: "relay_loop p n rc d st = Some st' \<Longrightarrow> I st \<Longrightarrow> I st'"
proof (induction p n rc d st arbitrary: st' rule: relay_loop.induct)
  case (1 p n rc d st)
  show ?case
  proof (cases "rc > 0 \<and> d \<noteq> [] \<and> both_alive p n st = Some True")
    case True
    with 1(2) obtain w st1 rc' d' st2 where w: "sock_write n d st = Some (w, st1)"
      and r: "sock_read BUFF_SIZE p st1 = Some (rc', d', st2)" and l: "relay_loop p n rc' d' st2 = Some st'"
      by (auto simp: relay_loop.simps [of p n rc d st] bind_eq_Some_conv)
    show ?thesis
      by (rule 1(1) [OF _ _ refl _ refl _ refl refl l k_sock_read [OF r k_sock_write [OF w 1(3)]]]) (use True w r in auto)
  next
    case False
    with 1(2,3) show ?thesis
      by (auto simp: relay_loop.simps [of p n rc d st] split: if_split_asm option.split_asm bool.split_asm)
  qed
qed

lemma k_read_relay: "read_relay p hs st = Some (r, st') \<Longrightarrow> I st \<Longrightarrow> I st'"
  by (auto simp: read_relay_def bind_eq_Some_conv split: option.split_asm if_split_asm dest!: k_net k_relay_loop)

lemma k_listen_out_new: "(case md of
                  HN_MODE_BRIDGE \<Rightarrow> handleNew os c st5
                | HN_MODE_REVERSE_LISTEN \<Rightarrow> do {
                    rm \<leftarrow> rl (conf st5);
                    (q, n, st6) \<leftarrow> createRelay os c (rl_localIp rm) False st5;
                    case n of
                      Some n' \<Rightarrow> if q \<noteq> 1 then do { st7 \<leftarrow> sock_destroy c False st6; Some (False, st7) }
                                 else do { st7 \<leftarrow> watch_sock n' st6; st8 \<leftarrow> watch_sock c st7; Some (True, st8) }
                    | None \<Rightarrow> do { st7 \<leftarrow> sock_destroy c False st6; Some (False, st7) } }
                | _ \<Rightarrow> Some (False, st5)) = Some (r, st') \<Longrightarrow> I st5 \<Longrightarrow> I st'"
  by (cases md) (auto simp: bind_eq_Some_conv split: option.split_asm if_split_asm
      dest!: k_handleNew k_createRelay k_sock_destroy k_watch_sock)

lemma k_read_listen_out: "read_listen_out os p hs st = Some (r, st') \<Longrightarrow> I st \<Longrightarrow> I st'"
proof -
  assume m: "read_listen_out os p hs st = Some (r, st')" and i: "I st"
  define u where "u = (case cf_mode (conf st) of
                 Some HN_MODE_BRIDGE \<Rightarrow> map_option (\<lambda>b. Some (br_rlUrl b)) (bridge (conf st))
               | Some HN_MODE_REVERSE_LISTEN \<Rightarrow> map_option (\<lambda>r. Some (rl_rlUrl r)) (rl (conf st))
               | _ \<Rightarrow> Some None)"
  note def = read_listen_out_def [of os p hs st, folded u_def]
  from m obtain u' rc buff st1 where rc: "hn_receiveMsg os p st = Some (rc, buff, st1)" and u: "u = Some u'"
    unfolding def by (fastforce simp: bind_eq_Some_conv)
  have i1: "I st1" "I (created st1)" using k_hn_receiveMsg [OF rc i] k_created by blast+
  show ?thesis
  proof (cases "rc > 0 \<and> startsWith buff ''LISTEN_OTP ''")
    case False
    with m rc u i1 show ?thesis by (auto simp: def split: if_split_asm)
  next
    case True
    with m rc u show ?thesis using i1
      by (auto simp: def createTcpSocket_pair bind_eq_Some_conv split: option.split_asm if_split_asm
        dest!: k_hn_sockInit k_initializeListenConn k_sock_destroy k_hn_sockCleanup k_listen_out_new)
  qed
qed

lemma k_read_listen: "read_listen os p st = Some (r, st') \<Longrightarrow> I st \<Longrightarrow> I st'"
  by (auto simp: read_listen_def bind_eq_Some_conv split: if_split_asm dest!: k_msg)

lemma k_handleRead: "handleRead os p st = Some (r, st') \<Longrightarrow> I st \<Longrightarrow> I st'"
proof -
  assume m: "handleRead os p st = Some (r, st')" and i: "I st"
  then obtain s where s: "the_sock st p = Some s" by (auto simp: handleRead_def bind_eq_Some_conv)
  show ?thesis
  proof (cases "ptr s")
    case None
    with m s i show ?thesis by (auto simp: handleRead_def bind_eq_Some_conv dest!: k_sock_readDump)
  next
    case (Some h)
    with m s obtain hs where h: "the_hn st h = Some hs" by (auto simp: handleRead_def bind_eq_Some_conv)
    with m s Some i show ?thesis
      by (cases "hn_mode hs") (auto simp: handleRead_def bind_eq_Some_conv split: if_split_asm
          dest!: k_sock_readDump k_read_relay k_read_listen_out k_read_listen k_handleMdnsRead)
  qed
qed

lemma k_handleClose: "handleClose p st = Some (r, st') \<Longrightarrow> I st \<Longrightarrow> I st'"
proof -
  assume m: "handleClose p st = Some (r, st')" and i: "I st"
  then obtain s where s: "the_sock st p = Some s" by (auto simp: handleClose_def bind_eq_Some_conv)
  show ?thesis
  proof (cases "ptr s")
    case None
    with m s i show ?thesis by (simp add: handleClose_def)
  next
    case (Some h)
    with m s obtain hs where h: "the_hn st h = Some hs" by (auto simp: handleClose_def bind_eq_Some_conv Let_def)
    with m s Some i show ?thesis
      by (cases "hn_mode hs")
         (auto simp: handleClose_def bind_eq_Some_conv split: if_split_asm dest!: k_hn_sockCleanup k_set_ctx_same)
  qed
qed

lemma k_refresh_mdns: "refresh_mdns os st = Some st' \<Longrightarrow> I st \<Longrightarrow> I st'"
  by (auto simp: refresh_mdns_def bind_eq_Some_conv Let_def os_time_def split: if_split_asm prod.split_asm
      dest!: k_set_ctx_same k_sendMdnsQuery intro!: k_plain)

lemma k_retry_rl: "retry_rl os st = Some st' \<Longrightarrow> I st \<Longrightarrow> I st'"
  by (auto simp: retry_rl_def bind_eq_Some_conv split: if_split_asm option.split_asm dest!: k_tryRLStart k_watch_sock)

lemma k_ping_rl: "ping_rl os st = Some st' \<Longrightarrow> I st \<Longrightarrow> I st'"
  by (auto simp: ping_rl_def bind_eq_Some_conv Let_def os_time_def split: if_split_asm option.split_asm
      dest!: k_set_ctx_same k_hn_sendMsg intro!: k_plain)

lemma k_houseKeeping: "houseKeeping os st = Some st' \<Longrightarrow> I st \<Longrightarrow> I st'"
  by (auto simp: houseKeeping_def bind_eq_Some_conv split: if_split_asm dest!: k_refresh_mdns k_retry_rl k_ping_rl)

lemma k_processEvent: "processEvent os p ev st = Some (r, st') \<Longrightarrow> I st \<Longrightarrow> I st'"
  by (cases ev) (auto simp: processEvent_def bind_eq_Some_conv dest!: k_handleRead k_handleNew k_handleClose)

lemma k_loop_round: "loop_round os p ev st = Some (r, st') \<Longrightarrow> I st \<Longrightarrow> I st'"
proof (cases "ev = SOCK_EVENT_ERROR \<or> ev = SOCK_EVENT_TIMEOUT")
  case False
  assume m: "loop_round os p ev st = Some (r, st')" and i: "I st"
  from False m obtain r1 st1 where p: "processEvent os p ev st = Some (r1, st1)"
    and r: "(case r1 of Running _ \<Rightarrow> do { st2 \<leftarrow> houseKeeping os st1; Some (Running True, st2) } | _ \<Rightarrow> Some (r1, st1)) = Some (r, st')"
    by (cases ev) (auto simp: loop_round_def bind_eq_Some_conv)
  from k_processEvent [OF p i] r show ?thesis by (cases r1) (auto simp: bind_eq_Some_conv dest!: k_houseKeeping)
qed (auto simp: loop_round_def)

lemma k_remove_sock: "remove_sock wt st = Some (wt', st') \<Longrightarrow> I st \<Longrightarrow> I st'"
  by (auto simp: remove_sock_def bind_eq_Some_conv split: option.split_asm dest!: k_sock_cleanup
      dest: k_free_sock [rotated] intro!: k_sockList)

lemma k_flush_ready: "flush_ready p wt st = Some (wt', st') \<Longrightarrow> I st \<Longrightarrow> I st'"
  by (auto simp: flush_ready_def bind_eq_Some_conv split: if_split_asm dest!: k_sock_write)

lemma k_accept_event: "do {
             (n, st1) \<leftarrow> sock_acceptNew p st;
             case n of
               Some ns \<Rightarrow> do {
                 let (q, st2) = alloc_sock ns st1;
                 (r, st3) \<leftarrow> sock_setNonBlocking q st2;
                 Some (Event SOCK_EVENT_NEW q, wt, st3) }
             | None \<Rightarrow> do {
                 (wt2, st2) \<leftarrow> flush_ready p wt' st1;
                 visit_ready ps wt2 st2 } } = Some (v, wt'', st') \<Longrightarrow>
   (\<And>wt2 st2 v wt'' st'. visit_ready ps wt2 st2 = Some (v, wt'', st') \<Longrightarrow> I st2 \<Longrightarrow> I st') \<Longrightarrow> I st \<Longrightarrow> I st'"
proof -
  assume m: "do {
             (n, st1) \<leftarrow> sock_acceptNew p st;
             case n of
               Some ns \<Rightarrow> do {
                 let (q, st2) = alloc_sock ns st1;
                 (r, st3) \<leftarrow> sock_setNonBlocking q st2;
                 Some (Event SOCK_EVENT_NEW q, wt, st3) }
             | None \<Rightarrow> do {
                 (wt2, st2) \<leftarrow> flush_ready p wt' st1;
                 visit_ready ps wt2 st2 } } = Some (v, wt'', st')"
    and ih: "\<And>wt2 st2 v wt'' st'. visit_ready ps wt2 st2 = Some (v, wt'', st') \<Longrightarrow> I st2 \<Longrightarrow> I st'" and i: "I st"
  from m obtain n st1 where n: "sock_acceptNew p st = Some (n, st1)" by (auto simp: bind_eq_Some_conv)
  have i1: "I st1" by (rule k_sock_acceptNew [OF n i])
  show ?thesis
  proof (cases n)
    case None
    with m n i1 show ?thesis by (auto simp: bind_eq_Some_conv dest: k_flush_ready ih)
  next
    case (Some ns)
    obtain q st2 where "alloc_sock ns st1 = (q, st2)" by (cases "alloc_sock ns st1")
    with m n Some k_alloc_sock [OF i1 this] show ?thesis by (auto simp: bind_eq_Some_conv dest: k_sock_setNonBlocking)
  qed
qed

lemma k_visit_ready: "visit_ready ps wt st = Some (v, wt', st') \<Longrightarrow> I st \<Longrightarrow> I st'"
proof (induction ps arbitrary: wt st v wt' st')
  case (Cons p ps)
  show ?case
  proof (cases "fdsToProcess wt \<le> 0")
    case False
    with Cons.prems(1) obtain s where s: "the_sock st p = Some s" by (auto simp: bind_eq_Some_conv)
    consider "fd s \<in> set (readSet wt)" "isServer s \<and> sock_kind s = TCPSOCKET"
      | "fd s \<in> set (readSet wt)" "\<not> (isServer s \<and> sock_kind s = TCPSOCKET)" | "fd s \<notin> set (readSet wt)" by blast
    then show ?thesis
    proof cases
      case 1
      show ?thesis by (rule k_accept_event [OF _ Cons.IH Cons.prems(2)]) (use Cons.prems(1) False s 1 in \<open>simp\<close>)
    next
      case 2
      with Cons.prems False s show ?thesis by auto
    next
      case 3
      with Cons.prems(1) False s obtain wt2 st2 where f: "flush_ready p wt st = Some (wt2, st2)"
        and v: "visit_ready ps wt2 st2 = Some (v, wt', st')" by (auto simp: bind_eq_Some_conv)
      show ?thesis by (rule Cons.IH [OF v k_flush_ready [OF f Cons.prems(2)]])
    qed
  qed (use Cons.prems in simp)
qed simp

lemma k_scan_socks: "scan_socks ps rs ws st = Some (sc, st') \<Longrightarrow> I st \<Longrightarrow> I st'"
  by (induction ps arbitrary: rs ws st) (auto simp: bind_eq_Some_conv split: if_split_asm dest: k_sock_close k_upd_sock [rotated])

lemma k_waitForEvent: "waitForEvent wt st = Some (ev, sel, wt', st') \<Longrightarrow> I st \<Longrightarrow> I st'"
proof -
  assume w: "waitForEvent wt st = Some (ev, sel, wt', st')" and i: "I st"
  have "I st \<longrightarrow> I (snd (snd (snd (ev, sel, wt', st'))))"
  proof (rule waitForEvent.raw_induct [OF _ w, where P = "\<lambda>wt st r. I st \<longrightarrow> I (snd (snd (snd r)))"], rule impI)
    fix wait :: "waiter \<Rightarrow> hn \<Rightarrow> (event \<times> sock_ptr option \<times> waiter \<times> hn) option" and wt0 st0 y
    assume ih: "\<And>wt st r. wait wt st = Some r \<Longrightarrow> I st \<longrightarrow> I (snd (snd (snd r)))" and i0: "I st0"
      and y: "do {
     (wt, st) \<leftarrow> remove_sock wt0 st0;
     if list_start (sockList st) = [] then None
     else if fdsToProcess wt \<noteq> 0 then do {
       (v, wt1, st1) \<leftarrow> visit_ready (list_start (sockList st)) wt st;
       case v of
         Event ev p \<Rightarrow> Some (ev, Some p, wt1, st1)
       | Visited \<Rightarrow>
           if fdsToProcess wt1 = 0 then wait wt1 st1
           else Some (SOCK_EVENT_ERROR, None, wt1, st1) }
     else do {
       (sc, st1) \<leftarrow> scan_socks (list_start (sockList st)) [] [] st;
       case sc of
         Dead p \<Rightarrow> Some (SOCK_EVENT_CLOSE, Some p, wt\<lparr>sockToRemove := Some p\<rparr>, st1)
       | Restart \<Rightarrow> wait wt st1
       | Ready rs ws \<Rightarrow>
           (let (ev, wt1) = do_select rs ws wt in
            case ev of
              Some e \<Rightarrow> Some (e, None, wt1, st1)
            | None \<Rightarrow> wait wt1 st1) } } = Some y"
    then obtain wt st where r: "remove_sock wt0 st0 = Some (wt, st)" by (auto simp: bind_eq_Some_conv)
    have "I st" by (rule k_remove_sock [OF r i0])
    show "I (snd (snd (snd y)))"
    proof (cases "fdsToProcess wt = 0")
      case False
      with y r \<open>I st\<close> show ?thesis
        by (auto simp: bind_eq_Some_conv split: if_split_asm visit.split_asm dest!: k_visit_ready ih)
    next
      case True
      with y r obtain sc st1 where sc: "scan_socks (list_start (sockList st)) [] [] st = Some (sc, st1)"
        by (auto simp: bind_eq_Some_conv split: if_split_asm)
      have "I st1" by (rule k_scan_socks [OF sc \<open>I st\<close>])
      with y r True sc show ?thesis
        by (cases sc) (auto split: if_split_asm prod.split_asm option.split_asm dest!: ih)
    qed
  qed
  with i show ?thesis by simp
qed

lemma k_loop_step: "loop_step os s s' \<Longrightarrow> I (snd s) \<Longrightarrow> I (snd s')"
  by (auto elim!: loop_stepE dest!: k_waitForEvent k_loop_round)

lemma k_loop_steps: "(loop_step os)\<^sup>*\<^sup>* s s' \<Longrightarrow> I (snd s) \<Longrightarrow> I (snd s')"
  by (induction rule: rtranclp_induct) (auto dest: k_loop_step)

end


section \<open>The registries\<close>

text \<open>Every registry is a well-formed map: no key twice, keys that fit, a count that covers the items.\<close>

definition tables_ok :: "hn \<Rightarrow> bool" where
  "tables_ok st \<longleftrightarrow> (\<forall>c. get_ctx st = Some c \<longrightarrow> map_inv (listeningSocks c) \<and> mdns_ok c)
     \<and> (\<forall>h hs. hnSocks st h = Some hs \<longrightarrow> map_inv (waitingSocks hs))"

lemma table_step_inv: "table_step m m' \<Longrightarrow> map_inv m \<Longrightarrow> map_inv m'"
  by (auto simp: table_step_def intro: cmap.put_inv cmap.del_inv)

lemma tables_ok_frame: "tables_ok st \<Longrightarrow> conf st' = conf st \<Longrightarrow> hnSocks st' = hnSocks st \<Longrightarrow> tables_ok st'"
  by (simp add: tables_ok_def get_ctx_def)

interpretation tables: kept tables_ok
proof (unfold_locales, goal_cases)
  case (17 st p g st')
  then show ?case by (auto simp: upd_sock_def split: option.splits elim!: tables_ok_frame)
next
  case (18 st p st')
  then show ?case by (auto simp: free_sock_def split: option.splits if_splits elim!: tables_ok_frame)
next
  case (19 st h st')
  then show ?case by (auto simp: free_hn_def tables_ok_def get_ctx_def split: option.splits if_splits)
next
  case (20 st s p st')
  then show ?case by (auto simp: alloc_sock_def elim!: tables_ok_frame)
next
  case (21 st p md up h st')
  then show ?case by (auto simp: alloc_hn_def fresh_hn_def tables_ok_def get_ctx_def split: if_split_asm)
next
  case (22 st u h st')
  then show ?case by (auto simp: upd_hn_def tables_ok_def get_ctx_def split: option.splits if_split_asm)
next
  case (23 st h hs m st')
  then have "map_inv m" using table_step_inv unfolding tables_ok_def by blast
  with 23 show ?case by (auto simp: upd_hn_def tables_ok_def get_ctx_def split: option.splits if_split_asm)
next
  case (24 st h st')
  then show ?case by (auto simp: upd_hn_def tables_ok_def get_ctx_def split: option.splits if_split_asm)
next
  case (25 st c c' st')
  then have "map_inv (listeningSocks c')" using table_step_inv unfolding tables_ok_def ctx_step_def by blast
  with 25 show ?case by (auto simp: set_ctx_def tables_ok_def get_ctx_def ctx_step_def split: option.splits)
qed (auto elim!: tables_ok_frame)

text \<open>
  (C3) The registries stay maps: along every run of the event loop, whatever the peers send and
  whichever events the wait reports, the table of listeners, the waiting table of every socket
  and the mDNS store with the fields of each record never hold a key twice, never hold a key
  that overflows its field, and never count fewer items than they hold.
\<close>

theorem registries_stay_maps:
  assumes "(loop_step os)\<^sup>*\<^sup>* (wt, st) (wt', st')" and "tables_ok st"
  shows "tables_ok st'"
  using tables.k_loop_steps [OF assms(1)] assms(2) by simp

text \<open>A bridge whose only listener has died: the next round takes it out of the table.\<close>

definition closing_bridge :: hn where
  "closing_bridge = hn_idle\<lparr>
     socks := [0 \<mapsto> (sock_init TCPSOCKET 3)\<lparr>isAlive := SOCKET_DEAD, ptr := Some 7\<rparr>],
     hnSocks := [7 \<mapsto> (fresh_hn 0 SOCK_MODE_LISTEN True)\<lparr>listen_listenId := ''abc''\<rparr>],
     nextPtr := 8, sockList := list_add list_init 0,
     conf := (conf hn_idle)\<lparr>cf_mode := Some HN_MODE_BRIDGE,
       bridge := Some (bridge_idle\<lparr>br_context := bridgeContextInit\<lparr>listeningSocks := \<lparr>map_start = [(''abc'', 7)], map_count = 1\<rparr>\<rparr>\<rparr>)\<rparr>\<rparr>"

definition closed_bridge :: hn where
  "closed_bridge = closing_bridge\<lparr>hnSocks := Map.empty,
     conf := (conf closing_bridge)\<lparr>bridge := Some (bridge_idle\<lparr>br_context := bridgeContextInit\<lparr>listeningSocks := \<lparr>map_start = [], map_count = 1\<rparr>\<rparr>\<rparr>)\<rparr>\<rparr>"

definition idle_wait :: waiter where
  "idle_wait = \<lparr>readSet = [], writeSet = [], fdsToProcess = 0, sockToRemove = None, selects = []\<rparr>"

lemma closing_step: "loop_step os (idle_wait, closing_bridge) (idle_wait\<lparr>sockToRemove := Some 0\<rparr>, closed_bridge)"
proof (rule loop_step.round)
  show "waitForEvent idle_wait closing_bridge = Some (SOCK_EVENT_CLOSE, Some 0, idle_wait\<lparr>sockToRemove := Some 0\<rparr>, closing_bridge)"
    by (subst waitForEvent.simps)
       (simp add: idle_wait_def closing_bridge_def remove_sock_def list_add_def list_init_def the_sock_def)
  have "handleClose 0 closing_bridge = Some (Running True, closed_bridge)"
    by (simp add: handleClose_def closing_bridge_def closed_bridge_def the_sock_def the_hn_def fresh_hn_def hn_sockCleanup_def
        upd_hn_def map_cleanup_def map_init_def free_hn_def get_ctx_def set_ctx_def map_remove_def map_del_def map_getItem_def)
  moreover have "houseKeeping os closed_bridge = Some closed_bridge"
    by (simp add: houseKeeping_def closed_bridge_def closing_bridge_def refresh_mdns_def retry_rl_def ping_rl_def get_ctx_def
        bridge_idle_def bridgeContextInit_def)
  ultimately show "loop_round os (case Some 0 of Some p \<Rightarrow> p | None \<Rightarrow> 0) SOCK_EVENT_CLOSE closing_bridge = Some (Running True, closed_bridge)"
    by (simp add: loop_round_def processEvent_def)
qed

lemma closing_run: "(loop_step os)\<^sup>*\<^sup>* (idle_wait, closing_bridge) (idle_wait\<lparr>sockToRemove := Some 0\<rparr>, closed_bridge)"
  using closing_step by (rule r_into_rtranclp)

theorem registries_stay_maps_witness: "tables_ok closing_bridge \<and> tables_ok closed_bridge"
proof -
  have "tables_ok closing_bridge"
    by (simp add: tables_ok_def closing_bridge_def get_ctx_def mdns_ok_def map_inv_def KEY_SIZE_def fresh_hn_def
        bridgeContextInit_def map_init_def)
  from registries_stay_maps [OF closing_run [where os = os_plain] this] this show ?thesis by simp
qed

section \<open>The credentials\<close>

text \<open>What a run may not change: the whole configuration but the registries and clocks of the context.\<close>

definition same_credentials :: "hn \<Rightarrow> hn \<Rightarrow> bool" where
  "same_credentials st0 st \<longleftrightarrow>
     (\<forall>b0. bridge (conf st0) = Some b0 \<longrightarrow> (\<exists>b. bridge (conf st) = Some b \<and> b\<lparr>br_context := br_context b0\<rparr> = b0
        \<and> masterKey (br_context b) = masterKey (br_context b0) \<and> ctx_name (br_context b) = ctx_name (br_context b0)
        \<and> queryKeys (br_context b) = queryKeys (br_context b0) \<and> listenKeys (br_context b) = listenKeys (br_context b0)))
     \<and> conf st\<lparr>bridge := bridge (conf st0)\<rparr> = conf st0"

lemma same_credentials_frame: "same_credentials st0 st \<Longrightarrow> conf st' = conf st \<Longrightarrow> same_credentials st0 st'"
  by (simp add: same_credentials_def)

lemma same_credentials_refl [simp]: "same_credentials st st"
  by (simp add: same_credentials_def)

interpretation credentials: kept "same_credentials st0" for st0
proof (unfold_locales, goal_cases)
  case (17 st p g st')
  then show ?case by (auto simp: upd_sock_def split: option.splits elim!: same_credentials_frame)
next
  case (18 st p st')
  then show ?case by (auto simp: free_sock_def split: option.splits elim!: same_credentials_frame)
next
  case (19 st h st')
  then show ?case by (auto simp: free_hn_def split: option.splits elim!: same_credentials_frame)
next
  case (20 st s p st')
  then show ?case by (auto simp: alloc_sock_def elim!: same_credentials_frame)
next
  case (21 st p md up h st')
  then show ?case by (auto simp: alloc_hn_def elim!: same_credentials_frame)
next
  case (22 st u h st')
  then show ?case by (auto simp: upd_hn_def split: option.splits elim!: same_credentials_frame)
next
  case (23 st h hs m st')
  then show ?case by (auto simp: upd_hn_def split: option.splits elim!: same_credentials_frame)
next
  case (24 st h st')
  then show ?case by (auto simp: upd_hn_def split: option.splits elim!: same_credentials_frame)
next
  case (25 st c c' st')
  then show ?case by (auto simp: set_ctx_def same_credentials_def get_ctx_def ctx_step_def split: option.splits)
qed (auto elim!: same_credentials_frame)

text \<open>
  (C4) No peer changes the rules: along every run of the event loop of a bridge the mode, the
  access rules (port, authentication levels, the bridge above it and its password), the
  master key, the name and the two key tables stay exactly as they were.
\<close>

theorem credentials_fixed:
  assumes "(loop_step os)\<^sup>*\<^sup>* (wt, st) (wt', st')" and "bridge (conf st) = Some b"
  shows "\<exists>b'. bridge (conf st') = Some b' \<and> b'\<lparr>br_context := br_context b\<rparr> = b \<and> cf_mode (conf st') = cf_mode (conf st)
    \<and> masterKey (br_context b') = masterKey (br_context b) \<and> ctx_name (br_context b') = ctx_name (br_context b)
    \<and> queryKeys (br_context b') = queryKeys (br_context b) \<and> listenKeys (br_context b') = listenKeys (br_context b)"
proof -
  have s: "same_credentials st st'" using credentials.k_loop_steps [OF assms(1), of st] by simp
  then have "cf_mode (conf st') = cf_mode (conf st)" unfolding same_credentials_def by (metis hn_Config.select_convs(1) hn_Config.update_convs(2) hn_Config.surjective)
  with s assms(2) show ?thesis unfolding same_credentials_def by blast
qed

theorem credentials_fixed_witness:
  "\<exists>b'. bridge (conf closed_bridge) = Some b' \<and> requireQueryAuth b' = 1 \<and> masterKey (br_context b') = []"
proof -
  have "bridge (conf closing_bridge) = Some (bridge_idle\<lparr>br_context := bridgeContextInit\<lparr>listeningSocks := \<lparr>map_start = [(''abc'', 7)], map_count = 1\<rparr>\<rparr>\<rparr>)"
    by (simp add: closing_bridge_def)
  from credentials_fixed [OF closing_run [where os = os_plain] this] show ?thesis
    by (auto simp: bridge_idle_def bridgeContextInit_def dest: arg_cong [where f = requireQueryAuth])
qed

end
