(* ===== verification/Loop_Liveness.thy ===== *)
theory Loop_Liveness
  imports Relay_Correct Mdns_Correct
begin

text \<open>
  Progress of the event loop.  The wait restarts itself after it has closed a dying socket,
  after it has visited all ready sockets and after \<open>select\<close> has reported some; a measure of the
  answers of \<open>select\<close> to come, the sockets about to die and the descriptors left to process
  falls with every restart, so the wait returns.  A round of the loop on top of it forwards
  what has arrived on a relay.
\<close>

section \<open>Steps that only calm the sockets\<close>

definition pending_free :: "hn \<Rightarrow> sock_ptr \<Rightarrow> bool" where
  "pending_free st p \<longleftrightarrow> (\<exists>s. socks st p = Some s \<and> buf_size (writeBuffer s) = 0)"

definition dying :: "hn \<Rightarrow> sock_ptr set" where
  "dying st = {p \<in> set (list_start (sockList st)). \<exists>s. socks st p = Some s \<and> isAlive s = SOCKET_WILLDIE}"

definition calmer :: "hn \<Rightarrow> hn \<Rightarrow> bool" where
  "calmer st st' \<longleftrightarrow> sockList st' = sockList st
     \<and> (\<forall>p s. socks st p = Some s \<longrightarrow> (\<exists>s'. socks st' p = Some s' \<and> writeBuffer s' = writeBuffer s
          \<and> (isAlive s' = SOCKET_WILLDIE \<longrightarrow> isAlive s = SOCKET_WILLDIE)))"

lemma calmer_refl [simp]: "calmer st st"
  by (simp add: calmer_def)

lemma calmer_trans: "calmer a b \<Longrightarrow> calmer b c \<Longrightarrow> calmer a c"
  unfolding calmer_def by (metis (no_types, opaque_lifting))

lemma calmer_pending: "calmer st st' \<Longrightarrow> pending_free st p \<Longrightarrow> pending_free st' p"
  unfolding calmer_def pending_free_def by metis

lemma calmer_dying:
  assumes "calmer st st'" and "list_all (pending_free st) (list_start (sockList st))"
  shows "dying st' \<subseteq> dying st"
  using assms unfolding calmer_def dying_def pending_free_def list_all_iff by fastforce

lemma calmer_upd:
  assumes "socks st p = Some s" and "writeBuffer s' = writeBuffer s" and "isAlive s' = SOCKET_WILLDIE \<longrightarrow> isAlive s = SOCKET_WILLDIE"
    and "sockList st' = sockList st" and "socks st' = (socks st)(p \<mapsto> s')"
  shows "calmer st st'"
  using assms by (auto simp: calmer_def)

lemma close_calms:
  assumes "socks st p = Some s"
  shows "\<exists>r st'. sock_close p st = Some (r, st') \<and> calmer st st' \<and> (\<exists>s'. socks st' p = Some s' \<and> isAlive s' = SOCKET_DEAD)"
proof (cases "isAlive s = SOCKET_DEAD")
  case False
  let ?s = "s\<lparr>isAlive := SOCKET_DEAD\<rparr>"
  have "sock_close p st = Some (True, st\<lparr>socks := (socks st)(p \<mapsto> ?s), closedFds := closedFds st @ [fd s]\<rparr>)"
    using assms False by (simp add: sock_close_def the_sock_def upd_sock_def)
  moreover have "calmer st (st\<lparr>socks := (socks st)(p \<mapsto> ?s), closedFds := closedFds st @ [fd s]\<rparr>)"
    by (rule calmer_upd [OF assms]) simp_all
  ultimately show ?thesis by auto
qed (use assms in \<open>auto simp: sock_close_def the_sock_def\<close>)

text \<open>With nothing pending, telling a socket that it may write does not block.\<close>

lemma flush_calms:
  assumes "pending_free st p"
  shows "\<exists>w st'. sock_write p [] st = Some (w, st') \<and> calmer st st'"
proof -
  from assms obtain s where s: "socks st p = Some s" "buffer_isEmpty (writeBuffer s)"
    by (auto simp: pending_free_def buffer_isEmpty_def)
  let ?st = "st\<lparr>socks := (socks st)(p \<mapsto> s\<lparr>listenForWritable := False\<rparr>)\<rparr>"
  have c: "calmer st ?st" by (rule calmer_upd [OF s(1)]) simp_all
  from close_calms [of ?st p] obtain r st' where k: "sock_close p ?st = Some (r, st')" "calmer ?st st'" by auto
  have w: "write_loop f [] x = (0, [], x)" for f x by (simp add: write_loop.simps)
  show ?thesis
    using s c k calmer_trans [OF c k(2)] by (auto simp: sock_write_def the_sock_def upd_sock_def w)
qed

lemma accept_calms:
  assumes "socks st p = Some s"
  shows "\<exists>n st'. sock_acceptNew p st = Some (n, st') \<and> calmer st st'"
proof -
  have c: "calmer st (st\<lparr>accepts := as\<rparr>)" for as by (simp add: calmer_def)
  consider "\<not> isServer s \<or> isAlive s = SOCKET_DEAD \<or> accepts st = []"
    | as where "accepts st = None # as" "isServer s" "isAlive s \<noteq> SOCKET_DEAD"
    | f ip as where "accepts st = Some (f, ip) # as" "isServer s" "isAlive s \<noteq> SOCKET_DEAD"
    by (metis neq_Nil_conv not_None_eq surj_pair)
  then show ?thesis
  proof cases
    case (2 as)
    from close_calms [of "st\<lparr>accepts := as\<rparr>" p] assms obtain r st' where "sock_close p (st\<lparr>accepts := as\<rparr>) = Some (r, st')"
      "calmer (st\<lparr>accepts := as\<rparr>) st'" by auto
    with 2 assms calmer_trans [OF c] show ?thesis by (auto simp: sock_acceptNew_def the_sock_def)
  qed (use assms c in \<open>auto simp: sock_acceptNew_def the_sock_def\<close>)
qed

lemma flush_ready_calms:
  assumes "pending_free st p"
  shows "\<exists>wt' st'. flush_ready p wt st = Some (wt', st') \<and> calmer st st' \<and> selects wt' = selects wt \<and> sockToRemove wt' = sockToRemove wt"
  using assms flush_calms [OF assms] by (auto simp: flush_ready_def pending_free_def the_sock_def)

section \<open>One pass over the sockets\<close>

lemma visit_ready_returns:
  assumes "list_all (pending_free st) ps"
  shows "\<exists>v wt' st'. visit_ready ps wt st = Some (v, wt', st')
    \<and> (case v of Visited \<Rightarrow> calmer st st' \<and> selects wt' = selects wt \<and> sockToRemove wt' = sockToRemove wt
        | Event ev p \<Rightarrow> ev = SOCK_EVENT_NEW \<or> ev = SOCK_EVENT_READ \<and> p \<in> set ps)"
  using assms
proof (induction ps arbitrary: wt st)
  case (Cons p ps)
  from Cons.prems have pf: "pending_free st p" by simp
  then obtain s where s: "socks st p = Some s" by (auto simp: pending_free_def)
  have next_one: "\<exists>v wt' st'. do { (wt2, st2) \<leftarrow> flush_ready p w x; visit_ready ps wt2 st2 } = Some (v, wt', st')
      \<and> (case v of Visited \<Rightarrow> calmer st st' \<and> selects wt' = selects wt \<and> sockToRemove wt' = sockToRemove wt
        | Event ev q \<Rightarrow> ev = SOCK_EVENT_NEW \<or> ev = SOCK_EVENT_READ \<and> q \<in> set (p # ps))"
    if x: "calmer st x" and w: "selects w = selects wt" "sockToRemove w = sockToRemove wt" for w x
  proof -
    from flush_ready_calms [OF calmer_pending [OF x pf], of w] obtain w2 x2 where
      f: "flush_ready p w x = Some (w2, x2)" "calmer x x2" "selects w2 = selects w" "sockToRemove w2 = sockToRemove w" by blast
    have c: "calmer st x2" by (rule calmer_trans [OF x f(2)])
    have "list_all (pending_free x2) ps" using Cons.prems calmer_pending [OF c] by (auto simp: list_all_iff)
    from Cons.IH [OF this, of w2] obtain v w3 x3 where v: "visit_ready ps w2 x2 = Some (v, w3, x3)"
      "case v of Visited \<Rightarrow> calmer x2 x3 \<and> selects w3 = selects w2 \<and> sockToRemove w3 = sockToRemove w2
        | Event ev q \<Rightarrow> ev = SOCK_EVENT_NEW \<or> ev = SOCK_EVENT_READ \<and> q \<in> set ps" by blast
    show ?thesis using f v w calmer_trans [OF c]
      by (intro exI [of _ v] exI [of _ w3] exI [of _ x3]) (auto split: visit.split)
  qed
  show ?case
  proof (cases "fdsToProcess wt \<le> 0 \<or> fd s \<notin> set (readSet wt)")
    case True
    then show ?thesis using s next_one [of st wt] by (auto simp: the_sock_def)
  next
    case False
    let ?w = "wt\<lparr>readSet := fd_clear (fd s) (readSet wt), fdsToProcess := fdsToProcess wt - 1\<rparr>"
    from accept_calms [OF s] obtain n st1 where a: "sock_acceptNew p st = Some (n, st1)" "calmer st st1" by blast
    show ?thesis
    proof (cases n)
      case None
      then show ?thesis using False s a next_one [OF a(2), of ?w]
        by (cases "isServer s \<and> sock_kind s = TCPSOCKET") (auto simp: the_sock_def Let_def)
    next
      case (Some ns)
      have "\<exists>r st3. sock_setNonBlocking q (st1\<lparr>socks := (socks st1)(q \<mapsto> ns), nextPtr := k\<rparr>) = Some (r, st3)" for q k
        by (cases "fd ns < 0") (auto simp: sock_setNonBlocking_def the_sock_def upd_sock_def)
      from this [of "nextPtr st1" "Suc (nextPtr st1)"] obtain r st3 where
        "sock_setNonBlocking (nextPtr st1) (st1\<lparr>socks := (socks st1)(nextPtr st1 \<mapsto> ns), nextPtr := Suc (nextPtr st1)\<rparr>) = Some (r, st3)" by blast
      then show ?thesis using Some False s a
        by (cases "isServer s \<and> sock_kind s = TCPSOCKET") (auto simp: the_sock_def alloc_sock_def Let_def)
    qed
  qed
qed simp

lemma scan_socks_returns:
  assumes "list_all (pending_free st) ps"
  shows "\<exists>sc st'. scan_socks ps rs ws st = Some (sc, st')
    \<and> (case sc of Dead p \<Rightarrow> st' = st \<and> p \<in> set ps | Ready rs ws \<Rightarrow> st' = st
        | Restart \<Rightarrow> calmer st st' \<and> (\<exists>p\<in>set ps. \<exists>s s'. socks st p = Some s \<and> isAlive s = SOCKET_WILLDIE
             \<and> socks st' p = Some s' \<and> isAlive s' = SOCKET_DEAD))"
  using assms
proof (induction ps arbitrary: rs ws)
  case (Cons p ps)
  from Cons.prems obtain s where s: "socks st p = Some s" "buffer_isEmpty (writeBuffer s)"
    by (auto simp: pending_free_def buffer_isEmpty_def)
  show ?case
  proof (cases "isAlive s")
    case SOCKET_DEAD
    then show ?thesis using s by (simp add: the_sock_def)
  next
    case SOCKET_WILLDIE
    from close_calms [OF s(1)] obtain r st' s' where "sock_close p st = Some (r, st')" "calmer st st'"
      "socks st' p = Some s'" "isAlive s' = SOCKET_DEAD" by blast
    then show ?thesis using s SOCKET_WILLDIE by (auto simp: the_sock_def)
  next
    case SOCKET_ALIVE
    from Cons.IH [of "if listenForReadable s then rs @ [fd s] else rs"
        "if sock_kind s = TCPSOCKET \<and> listenForWritable s then ws @ [fd s] else ws"] Cons.prems
    obtain sc st' where "scan_socks ps (if listenForReadable s then rs @ [fd s] else rs)
        (if sock_kind s = TCPSOCKET \<and> listenForWritable s then ws @ [fd s] else ws) st = Some (sc, st')"
      and "case sc of Dead p \<Rightarrow> st' = st \<and> p \<in> set ps | Ready rs ws \<Rightarrow> st' = st
        | Restart \<Rightarrow> calmer st st' \<and> (\<exists>p\<in>set ps. \<exists>s s'. socks st p = Some s \<and> isAlive s = SOCKET_WILLDIE
             \<and> socks st' p = Some s' \<and> isAlive s' = SOCKET_DEAD)" by auto
    then show ?thesis using s SOCKET_ALIVE
      by (intro exI [of _ sc] exI [of _ st']) (auto simp: the_sock_def split: scan.split_asm)
  qed
qed simp

section \<open>The wait\<close>

definition wait_measure :: "waiter \<times> hn \<Rightarrow> nat \<times> nat \<times> nat" where
  "wait_measure = (\<lambda>(wt, st). (length (selects wt), card (dying st), if fdsToProcess wt = 0 then 0 else 1))"

definition wait_order :: "((waiter \<times> hn) \<times> (waiter \<times> hn)) set" where
  "wait_order = inv_image (less_than <*lex*> less_than <*lex*> less_than) wait_measure"

lemma wf_wait_order: "wf wait_order"
  by (simp add: wait_order_def wf_lex_prod)

lemma finite_dying [simp]: "finite (dying st)"
  by (simp add: dying_def)

definition wait_answer :: "sock_ptr list \<Rightarrow> event \<Rightarrow> sock_ptr option \<Rightarrow> bool" where
  "wait_answer ps ev sel \<longleftrightarrow> (case sel of None \<Rightarrow> ev = SOCK_EVENT_TIMEOUT \<or> ev = SOCK_EVENT_ERROR
     | Some p \<Rightarrow> ev = SOCK_EVENT_NEW \<or> (ev = SOCK_EVENT_READ \<or> ev = SOCK_EVENT_CLOSE) \<and> p \<in> set ps)"

lemma do_select_cases:
  "do_select rs ws wt = (ev, wt') \<Longrightarrow> sockToRemove wt' = sockToRemove wt
     \<and> (case ev of Some e \<Rightarrow> e = SOCK_EVENT_TIMEOUT \<or> e = SOCK_EVENT_ERROR | None \<Rightarrow> length (selects wt') < length (selects wt))"
  by (auto simp: do_select_def Let_def split: list.split_asm select_answer.split_asm if_split_asm)

lemma wait_returns:
  "list_start (sockList st) \<noteq> [] \<Longrightarrow> list_all (pending_free st) (list_start (sockList st)) \<Longrightarrow> sockToRemove wt = None \<Longrightarrow>
   \<exists>ev sel wt' st'. waitForEvent wt st = Some (ev, sel, wt', st') \<and> wait_answer (list_start (sockList st)) ev sel"
proof (induction "(wt, st)" arbitrary: wt st rule: wf_induct_rule [OF wf_wait_order])
  case 1
  note IH = 1(1) and pf = 1(3)
  have r: "remove_sock wt st = Some (wt, st)" using 1(4) by (simp add: remove_sock_def)
  have again: "\<exists>ev sel wt' st'. waitForEvent wt1 st1 = Some (ev, sel, wt', st') \<and> wait_answer (list_start (sockList st)) ev sel"
    if "((wt1, st1), (wt, st)) \<in> wait_order" "calmer st st1" "sockToRemove wt1 = None" for wt1 st1
  proof -
    have l: "sockList st1 = sockList st" using that(2) by (simp add: calmer_def)
    have "list_all (pending_free st1) (list_start (sockList st1))"
      using pf calmer_pending [OF that(2)] by (auto simp: l list_all_iff)
    then show ?thesis using IH [OF that(1)] 1(2) that(3) l by simp
  qed
  show ?case
  proof (cases "fdsToProcess wt = 0")
    case False
    from visit_ready_returns [OF pf, of wt] obtain v wt1 st1 where v: "visit_ready (list_start (sockList st)) wt st = Some (v, wt1, st1)"
      and c: "case v of Visited \<Rightarrow> calmer st st1 \<and> selects wt1 = selects wt \<and> sockToRemove wt1 = sockToRemove wt
        | Event ev p \<Rightarrow> ev = SOCK_EVENT_NEW \<or> ev = SOCK_EVENT_READ \<and> p \<in> set (list_start (sockList st))" by blast
    show ?thesis
    proof (cases v)
      case (Event ev p)
      then show ?thesis using False v c r 1(2) by (subst waitForEvent.simps) (auto simp: wait_answer_def)
    next
      case Visited
      with c have k: "calmer st st1" "selects wt1 = selects wt" "sockToRemove wt1 = None" using 1(4) by auto
      show ?thesis
      proof (cases "fdsToProcess wt1 = 0")
        case True
        have "card (dying st1) \<le> card (dying st)" by (rule card_mono) (use calmer_dying [OF k(1) pf] in simp_all)
        then have "((wt1, st1), (wt, st)) \<in> wait_order"
          using True False k(2) by (auto simp: wait_order_def wait_measure_def)
        from again [OF this k(1,3)] show ?thesis
          by (subst waitForEvent.simps) (use False True v Visited r 1(2) in auto)
      next
        case f: False
        then show ?thesis using False v Visited r 1(2) by (subst waitForEvent.simps) (auto simp: wait_answer_def)
      qed
    qed
  next
    case True
    from scan_socks_returns [OF pf, of "[]" "[]"] obtain sc st1 where sc: "scan_socks (list_start (sockList st)) [] [] st = Some (sc, st1)"
      and c: "case sc of Dead p \<Rightarrow> st1 = st \<and> p \<in> set (list_start (sockList st)) | Ready rs ws \<Rightarrow> st1 = st
        | Restart \<Rightarrow> calmer st st1 \<and> (\<exists>p\<in>set (list_start (sockList st)). \<exists>s s'. socks st p = Some s \<and> isAlive s = SOCKET_WILLDIE
             \<and> socks st1 p = Some s' \<and> isAlive s' = SOCKET_DEAD)" by blast
    show ?thesis
    proof (cases sc)
      case (Dead p)
      then show ?thesis using True sc c r 1(2) by (subst waitForEvent.simps) (auto simp: wait_answer_def)
    next
      case Restart
      with c obtain p s s' where k: "calmer st st1" and p: "p \<in> set (list_start (sockList st))" "socks st p = Some s"
        "isAlive s = SOCKET_WILLDIE" "socks st1 p = Some s'" "isAlive s' = SOCKET_DEAD" by auto
      have "p \<in> dying st" "p \<notin> dying st1" using p by (auto simp: dying_def)
      then have "dying st1 \<subset> dying st" using calmer_dying [OF k pf] by auto
      then have "card (dying st1) < card (dying st)" by (rule psubset_card_mono [rotated]) simp
      then have "((wt, st1), (wt, st)) \<in> wait_order" by (simp add: wait_order_def wait_measure_def)
      from again [OF this k 1(4)] show ?thesis
        by (subst waitForEvent.simps) (use True sc Restart r 1(2) in auto)
    next
      case (Ready rs ws)
      with c have st1: "st1 = st" by simp
      obtain ev wt1 where d: "do_select rs ws wt = (ev, wt1)" by force
      note dc = do_select_cases [OF d]
      show ?thesis
      proof (cases ev)
        case (Some e)
        then show ?thesis using True sc Ready r 1(2) d dc st1 by (subst waitForEvent.simps) (auto simp: wait_answer_def)
      next
        case None
        then have "((wt1, st), (wt, st)) \<in> wait_order" using dc by (simp add: wait_order_def wait_measure_def)
        from again [OF this calmer_refl] dc 1(4) show ?thesis
          by (subst waitForEvent.simps) (use True sc Ready r 1(2) d None st1 in auto)
      qed
    qed
  qed
qed

text \<open>
  A socket that was reported closed is freed by the next wait.  It must not be the last of the
  list, which stays in the list when it is freed.
\<close>

definition removable :: "waiter \<Rightarrow> hn \<Rightarrow> bool" where
  "removable wt st \<longleftrightarrow> (case sockToRemove wt of None \<Rightarrow> True
     | Some p \<Rightarrow> distinct (list_start (sockList st)) \<and> p \<in> set (butlast (list_start (sockList st))))"

lemma remove_sock_keeps:
  assumes "removable wt st" and "list_all (pending_free st) (list_start (sockList st))" and "list_start (sockList st) \<noteq> []"
  obtains wt1 st1 where "remove_sock wt st = Some (wt1, st1)" and "sockToRemove wt1 = None" and "list_start (sockList st1) \<noteq> []"
    and "list_all (pending_free st1) (list_start (sockList st1))" and "set (list_start (sockList st1)) \<subseteq> set (list_start (sockList st))"
proof (cases "sockToRemove wt")
  case None
  then show thesis using assms by (intro that [of wt st]) (auto simp: remove_sock_def)
next
  case (Some p)
  obtain ps z where l: "list_start (sockList st) = ps @ [z]" using assms(3) by (metis append_butlast_last_id)
  with assms(1) Some have p: "p \<in> set ps" "p \<noteq> z" "distinct ps" by (auto simp: removable_def)
  from assms(2) p(1) obtain s where s: "socks st p = Some s" by (auto simp: l list_all_iff pending_free_def)
  let ?st = "st\<lparr>socks := (socks st)(p := None), sockList := (sockList st)\<lparr>list_start := remove1 p ps @ [z]\<rparr>\<rparr>"
  have "remove_sock wt st = Some (wt\<lparr>sockToRemove := None\<rparr>, ?st)"
    by (simp add: remove_sock_def Some sock_cleanup_def upd_sock_def s list_remove_def l list_remove_loop_butlast free_sock_def)
  then show thesis
    by (rule that) (use assms(2) p in \<open>auto simp: l list_all_iff pending_free_def dest: notin_set_remove1\<close>)
qed

text \<open>
  (C11) The wait returns, where no closing socket has anything left to write: when the list of
  sockets is not empty, every socket of it is allocated and has an empty write buffer, and the
  socket reported closed before, which this call frees, is not the last of the list,
  \<open>waitForEvent\<close> ends on every script of answers of \<open>select\<close> and with any number of sockets
  marked to die, with a timeout or an error without a socket, with a new connection, or with a
  readable or closed socket of the list.  The conditions are needed: with an unsent rest the
  drain loop of \<open>sock_write\<close> need not end, an empty list is read through a null pointer, and the
  last socket of the list stays in it when it is freed.
\<close>

theorem waitForEvent_returns:
  assumes "list_start (sockList st) \<noteq> []" and "list_all (pending_free st) (list_start (sockList st))" and "removable wt st"
  shows "\<exists>ev sel wt' st'. waitForEvent wt st = Some (ev, sel, wt', st') \<and> wait_answer (list_start (sockList st)) ev sel"
proof -
  obtain wt1 st1 where r: "remove_sock wt st = Some (wt1, st1)" "sockToRemove wt1 = None" "list_start (sockList st1) \<noteq> []"
    "list_all (pending_free st1) (list_start (sockList st1))" "set (list_start (sockList st1)) \<subseteq> set (list_start (sockList st))"
    by (rule remove_sock_keeps [OF assms(3,2,1)])
  have "remove_sock wt1 st1 = Some (wt1, st1)" using r(2) by (simp add: remove_sock_def)
  then have "waitForEvent wt st = waitForEvent wt1 st1" by (simp add: waitForEvent.simps [of wt st] waitForEvent.simps [of wt1 st1] r(1))
  moreover from wait_returns [OF r(3,4,2)] obtain ev sel wt' st' where
    "waitForEvent wt1 st1 = Some (ev, sel, wt', st')" "wait_answer (list_start (sockList st1)) ev sel" by blast
  ultimately show ?thesis using r(5) by (auto simp: wait_answer_def split: option.split_asm)
qed

definition busy_state :: hn where
  "busy_state = hn_idle\<lparr>socks := Map.empty(1 \<mapsto> (sock_init TCPSOCKET 5)\<lparr>isAlive := SOCKET_DEAD\<rparr>, 2 \<mapsto> (sock_init TCPSOCKET 6)\<lparr>isAlive := SOCKET_WILLDIE\<rparr>,
     3 \<mapsto> sock_init TCPSOCKET 7), sockList := list_init\<lparr>list_start := [1, 2, 3]\<rparr>\<rparr>"

definition busy_wait :: waiter where
  "busy_wait = \<lparr>readSet = [5], writeSet = [6], fdsToProcess = 2, sockToRemove = Some 1, selects = [Sel [7] [6]]\<rparr>"

theorem waitForEvent_returns_witness:
  "\<exists>ev sel wt' st'. waitForEvent busy_wait busy_state = Some (ev, sel, wt', st') \<and> wait_answer [1, 2, 3] ev sel"
proof -
  have l: "list_start (sockList busy_state) = [1, 2, 3]" by (simp add: busy_state_def)
  have "list_all (pending_free busy_state) [1, 2, 3]" by (simp add: pending_free_def busy_state_def)
  moreover have "removable busy_wait busy_state" by (simp add: removable_def busy_wait_def l)
  ultimately show ?thesis using waitForEvent_returns [of busy_state busy_wait] by (simp add: l)
qed

section \<open>A round forwards\<close>

lemma scan_alive:
  assumes "\<forall>q\<in>set ps. \<exists>s. socks st q = Some s \<and> isAlive s = SOCKET_ALIVE"
  shows "\<exists>rs' ws'. scan_socks ps rs ws st = Some (Ready rs' ws', st) \<and> set rs \<subseteq> set rs'
    \<and> (\<forall>q\<in>set ps. \<forall>s. socks st q = Some s \<longrightarrow> listenForReadable s \<longrightarrow> fd s \<in> set rs')"
  using assms
proof (induction ps arbitrary: rs ws)
  case (Cons p ps)
  then obtain s where s: "socks st p = Some s" "isAlive s = SOCKET_ALIVE" by auto
  let ?rs = "if listenForReadable s then rs @ [fd s] else rs"
  let ?ws = "if sock_kind s = TCPSOCKET \<and> listenForWritable s then ws @ [fd s] else ws"
  from Cons.IH [of ?rs ?ws] Cons.prems obtain rs' ws' where "scan_socks ps ?rs ?ws st = Some (Ready rs' ws', st)" "set ?rs \<subseteq> set rs'"
    "\<forall>q\<in>set ps. \<forall>s. socks st q = Some s \<longrightarrow> listenForReadable s \<longrightarrow> fd s \<in> set rs'" by auto
  then show ?case using s by (intro exI [of _ rs'] exI [of _ ws']) (auto simp: the_sock_def)
qed simp

lemma visit_skips:
  assumes "\<forall>q\<in>set qs. \<exists>s. socks st q = Some s \<and> fd s \<notin> set (readSet wt) \<and> fd s \<notin> set (writeSet wt)" and "0 < fdsToProcess wt"
  shows "visit_ready (qs @ ps) wt st = visit_ready ps wt st"
  using assms(1)
proof (induction qs)
  case (Cons q qs)
  then show ?case using assms(2) by (auto simp: the_sock_def flush_ready_def Let_def)
qed simp

text \<open>Housekeeping without a remote bridge to reconnect or to ping leaves the streams alone.\<close>

definition no_upstream :: "hn_Config \<Rightarrow> bool" where
  "no_upstream cf \<longleftrightarrow> (cf_mode cf = Some HN_MODE_BRIDGE \<longrightarrow>
     (\<exists>b. bridge cf = Some b \<and> rlSock (br_context b) = None \<and> length (br_rlUrl b) \<le> 1))"

lemma refresh_encodes: "\<exists>packet. dns_encode fpu 512 (txt_query MDNS_QUERY) = Some (RCODE_OKAY, packet)"
proof -
  have n: "name_fits 2 ''hn.local.''"
    unfolding name_fits_def by (rule exI [of _ "[''hn'', ''local'']"]) (simp add: dotted_def label_ok_def)
  let ?q = "txt_query MDNS_QUERY"
  let ?e = "\<lparr>e_out = header_bytes ?q, e_room = 512 - HEADER_SIZE, e_segs = [], e_edns = False, e_rcode = dq_rcode ?q\<rparr>"
  let ?qu = "\<lparr>qu_name = Some ''hn.local.'', qu_type = RR_TXT, qu_class = CLASS_IN\<rparr>"
  from question_succeeds [of ?qu "''hn.local.''" 2 ?e, OF _ n]
  obtain c1 where "encode_question ?qu ?e = Some (RCODE_OKAY, c1)" "\<not> e_edns c1" by auto
  then obtain bs where "dns_encode_written fpu 512 ?q = Some (RCODE_OKAY, bs)"
    by (simp add: dns_encode_written_def encode_sections_def enc_then_def txt_query_def query_okay_def MDNS_QUERY_def)
  from written_encodes [OF _ _ this] show ?thesis by (simp add: txt_query_def addresses_ok_def loc_excess_def)
qed

lemma sendMdnsQuery_returns:
  "\<exists>st'. sendMdnsQuery os MDNS_QUERY st = Some st' \<and> outbox st' = outbox st \<and> inbox st' = inbox st \<and> conf st' = conf st"
proof -
  obtain packet where "dns_encode (os_fpu os) 512 (txt_query MDNS_QUERY) = Some (RCODE_OKAY, packet)" using refresh_encodes by blast
  then show ?thesis
    using mdns_send_returns [of os packet st] by (auto simp: sendMdnsQuery_def)
qed

lemma houseKeeping_quiet:
  assumes "no_upstream (conf st)"
  shows "\<exists>st'. houseKeeping os st = Some st' \<and> outbox st' = outbox st \<and> inbox st' = inbox st"
proof (cases "cf_mode (conf st) = Some HN_MODE_BRIDGE")
  case True
  with assms obtain b where b: "bridge (conf st) = Some b" "rlSock (br_context b) = None" "length (br_rlUrl b) \<le> 1"
    by (auto simp: no_upstream_def)
  obtain st1 where st1: "refresh_mdns os st = Some st1" "outbox st1 = outbox st" "inbox st1 = inbox st"
    and c: "\<exists>b'. bridge (conf st1) = Some b' \<and> rlSock (br_context b') = None \<and> br_rlUrl b' = br_rlUrl b"
  proof (cases "useMdns b = 0 \<or> clock os (ticks st) - mdnsLastRefresh (br_context b) < REFRESH_INTERVAL_SECS")
    case u: True
    then show thesis using b by (intro that [of "if useMdns b = 0 then st else st\<lparr>ticks := ticks st + 1\<rparr>"]) (auto simp: refresh_mdns_def os_time_def)
  next
    case False
    define c' where "c' = (br_context b)\<lparr>mdnsLastRefresh := clock os (Suc (ticks st))\<rparr>"
    define st3 where "st3 = st\<lparr>ticks := Suc (Suc (ticks st)), conf := (conf st)\<lparr>bridge := Some (b\<lparr>br_context := c'\<rparr>)\<rparr>\<rparr>"
    from sendMdnsQuery_returns [of os st3] obtain st4 where q: "sendMdnsQuery os MDNS_QUERY st3 = Some st4" "outbox st4 = outbox st3"
      "inbox st4 = inbox st3" "conf st4 = conf st3" by blast
    have "refresh_mdns os st = Some st4"
      using False b q(1) by (simp add: refresh_mdns_def os_time_def get_ctx_def set_ctx_def st3_def c'_def)
    then show thesis by (rule that) (use q b in \<open>auto simp: st3_def c'_def\<close>)
  qed
  then show ?thesis using True b by (auto simp: houseKeeping_def retry_rl_def ping_rl_def get_ctx_def)
qed (simp add: houseKeeping_def)

text \<open>The wait hands out the first readable socket of the list.\<close>

lemma wait_gives_reader:
  assumes l: "list_start (sockList st) = qs @ p # ps" and alive: "\<forall>q\<in>set (qs @ p # ps). \<exists>s. socks st q = Some s \<and> isAlive s = SOCKET_ALIVE"
    and s: "socks st p = Some s" "listenForReadable s" "\<not> (isServer s \<and> sock_kind s = TCPSOCKET)"
    and w: "sockToRemove wt = None" "fdsToProcess wt = 0" "selects wt = Sel r w # as" "fd s \<in> set r"
    and first: "\<forall>q\<in>set qs. \<forall>u. socks st q = Some u \<longrightarrow> fd u \<notin> set r \<union> set w"
  shows "\<exists>wt'. waitForEvent wt st = Some (SOCK_EVENT_READ, Some p, wt', st) \<and> selects wt' = as \<and> sockToRemove wt' = None"
proof -
  from scan_alive [OF alive, of "[]" "[]"] s obtain rs ws where sc: "scan_socks (qs @ p # ps) [] [] st = Some (Ready rs ws, st)"
    and f: "fd s \<in> set rs" by auto
  define r' where "r' = remdups (filter (\<lambda>f. f \<in> set rs) r)"
  define w' where "w' = remdups (filter (\<lambda>f. f \<in> set ws) w)"
  define wt1 where "wt1 = wt\<lparr>selects := as, readSet := r', writeSet := w', fdsToProcess := int (length r' + length w')\<rparr>"
  have in_r: "fd s \<in> set r'" using f w(4) by (simp add: r'_def)
  then have n: "0 < length r' + length w'" by (cases r') auto
  have m: "0 < int (length r' + length w')" using n by linarith
  then have sel: "do_select rs ws wt = (None, wt1)"
    unfolding do_select_def w(3) list.case select_answer.case Let_def r'_def [symmetric] w'_def [symmetric] wt1_def
    by (simp del: of_nat_add)
  have skip: "\<forall>q\<in>set qs. \<exists>u. socks st q = Some u \<and> fd u \<notin> set (readSet wt1) \<and> fd u \<notin> set (writeSet wt1)"
    using alive first by (fastforce simp: wt1_def r'_def w'_def)
  let ?wt = "wt1\<lparr>readSet := fd_clear (fd s) (readSet wt1), fdsToProcess := fdsToProcess wt1 - 1\<rparr>"
  have f1: "0 < fdsToProcess wt1" using m by (simp add: wt1_def del: of_nat_add)
  have v: "visit_ready (qs @ p # ps) wt1 st = Some (Event SOCK_EVENT_READ p, ?wt, st)"
    unfolding visit_skips [OF skip f1] using s in_r f1 by (auto simp: the_sock_def Let_def wt1_def)
  have "remove_sock wt st = Some (wt, st)" "remove_sock wt1 st = Some (wt1, st)" using w(1) by (simp_all add: remove_sock_def wt1_def)
  then have "waitForEvent wt st = waitForEvent wt1 st" and "waitForEvent wt1 st = Some (SOCK_EVENT_READ, Some p, ?wt, st)"
    using w(2) sc sel v f1 by (simp_all add: waitForEvent.simps [of wt st] waitForEvent.simps [of wt1 st] l)
  then show ?thesis using w(1) by (intro exI [of _ ?wt]) (simp add: wt1_def)
qed

text \<open>A relay that is ready to be served.\<close>

definition relay_linked :: "hn \<Rightarrow> sock_ptr \<Rightarrow> Socket \<Rightarrow> sock_ptr \<Rightarrow> bool" where
  "relay_linked st p s n \<longleftrightarrow> (\<exists>h hs. ptr s = Some h \<and> hnSocks st h = Some hs \<and> hn_mode hs = SOCK_MODE_RELAY
     \<and> relay_next hs = Some n \<and> \<not> relay_isWaiting hs)"

text \<open>
  (C10) The loop makes progress on relays: when \<open>select\<close> reports that a relay socket can be read
  and it is the first of the list reported, one step of the event loop exists, it forwards
  everything that has arrived on the socket to the other end of the relay, and the loop is
  ready to wait again, in every mode without a remote bridge to look after.
\<close>

theorem loop_forwards:
  assumes "relay_ok st p s n t" and "relay_linked st p s n" and "inbox st (fd s) = map Recv cs" and "[] \<notin> set cs"
    and "list_start (sockList st) = qs @ p # ps" and "\<forall>q\<in>set (qs @ p # ps). \<exists>s. socks st q = Some s \<and> isAlive s = SOCKET_ALIVE"
    and "listenForReadable s" and "\<not> isServer s" and "no_upstream (conf st)"
    and "sockToRemove wt = None" and "fdsToProcess wt = 0" and "selects wt = Sel r w # as" and "fd s \<in> set r"
    and "\<forall>q\<in>set qs. \<forall>u. socks st q = Some u \<longrightarrow> fd u \<notin> set r \<union> set w"
  shows "\<exists>wt' st'. loop_step os (wt, st) (wt', st') \<and> outbox st' = (outbox st)(fd t := outbox st (fd t) @ concat cs)
    \<and> inbox st' (fd s) = [] \<and> selects wt' = as \<and> sockToRemove wt' = None"
proof -
  have s: "socks st p = Some s" using assms(1) by (simp add: relay_ok_def)
  from assms(2) obtain h hs where h: "ptr s = Some h" "hnSocks st h = Some hs" "hn_mode hs = SOCK_MODE_RELAY" "relay_next hs = Some n"
    "\<not> relay_isWaiting hs" by (auto simp: relay_linked_def)
  from wait_gives_reader [OF assms(5,6) s assms(7) _ assms(10-14)] assms(8) obtain wt' where
    w: "waitForEvent wt st = Some (SOCK_EVENT_READ, Some p, wt', st)" "selects wt' = as" "sockToRemove wt' = None" by blast
  from read_relay_forwards [OF assms(1) h(4,5) assms(3,4)] obtain st1 where r: "read_relay p hs st = Some (True, st1)"
    "outbox st1 = (outbox st)(fd t := outbox st (fd t) @ concat cs)" "inbox st1 (fd s) = []" "conf st1 = conf st" by blast
  from houseKeeping_quiet [of st1 os] assms(9) r(4) obtain st2 where k: "houseKeeping os st1 = Some st2" "outbox st2 = outbox st1"
    "inbox st2 = inbox st1" by auto
  have "loop_round os (case Some p of Some p \<Rightarrow> p | None \<Rightarrow> 0) SOCK_EVENT_READ st = Some (Running True, st2)"
    using s h r(1) k(1) by (simp add: loop_round_def processEvent_def handleRead_def the_sock_def the_hn_def)
  from loop_step.round [OF w(1) this] show ?thesis
    using r k w by (intro exI [of _ wt'] exI [of _ st2]) simp
qed

definition relay_state :: hn where
  "relay_state = hn_idle\<lparr>socks := Map.empty(1 \<mapsto> (sock_init TCPSOCKET 5)\<lparr>isBlocking := False, ptr := Some 11\<rparr>, 2 \<mapsto> (sock_init TCPSOCKET 6)\<lparr>isBlocking := False\<rparr>),
     hnSocks := Map.empty(11 \<mapsto> (fresh_hn 1 SOCK_MODE_RELAY True)\<lparr>relay_next := Some 2\<rparr>), sockList := list_init\<lparr>list_start := [2, 1]\<rparr>,
     inbox := (\<lambda>_. [])(5 := [Recv ''ab'', Recv ''c''])\<rparr>"

theorem loop_forwards_witness:
  "\<exists>wt' st'. loop_step os_plain (\<lparr>readSet = [], writeSet = [], fdsToProcess = 0, sockToRemove = None, selects = [Sel [5] []]\<rparr>, relay_state) (wt', st')
     \<and> outbox st' 6 = ''abc''"
proof -
  let ?s = "(sock_init TCPSOCKET 5)\<lparr>isBlocking := False, ptr := Some 11\<rparr>" and ?t = "(sock_init TCPSOCKET 6)\<lparr>isBlocking := False\<rparr>"
  let ?wt = "\<lparr>readSet = [], writeSet = [], fdsToProcess = 0, sockToRemove = None, selects = [Sel [5] []]\<rparr>"
  have ok: "relay_ok relay_state 1 ?s 2 ?t" by (simp add: relay_ok_def relay_state_def) (simp add: sock_init_def hn_idle_def)
  have ln: "relay_linked relay_state 1 ?s 2" by (simp add: relay_linked_def relay_state_def fresh_hn_def)
  have nu: "no_upstream (conf relay_state)" by (simp add: no_upstream_def relay_state_def hn_idle_def)
  have out: "outbox relay_state = (\<lambda>_. [])" by (simp add: relay_state_def hn_idle_def)
  from loop_forwards [OF ok ln, of "[''ab'', ''c'']" "[2]" "[]" ?wt "[5]" "[]" "[]" os_plain] nu obtain wt' st' where
    "loop_step os_plain (?wt, relay_state) (wt', st')" "outbox st' = (outbox relay_state)(fd ?t := outbox relay_state (fd ?t) @ ''abc'')"
    by (auto simp: relay_state_def sock_init_def)
  then show ?thesis by (intro exI [of _ wt'] exI [of _ st']) (simp add: out sock_init_def)
qed

end
