(* ===== verification/Dns_Tool.thy ===== *)
theory Dns_Tool
  imports Dns_Output Net_Socket Dns_Bounds
begin

text \<open>
  lib/dns/netsimple.c and lib/dns/dotest.c: one question to a name server, and the program that
  asks it and prints the reply.  The options that \<open>getopt_long\<close> returns and the operands it
  leaves are arguments, as are the answers of the system calls.
\<close>

section \<open>A request over UDP\<close>

definition EAFNOSUPPORT :: int where "EAFNOSUPPORT = 97"
definition ETIMEDOUT :: int where "ETIMEDOUT = 110"

text \<open>\<open>inet_pton\<close> returns 1 for an address and 0 for other text; a negative value is only for an unknown family.\<close>

definition inet_pton_rc :: "nat option \<Rightarrow> int" where
  "inet_pton_rc a = (if a = None then 0 else 1)"

definition net_server :: "os \<Rightarrow> string \<Rightarrow> int \<times> sockaddr" where
  "net_server os hname =
     (let adr = \<lparr>sa_family = AF_UNSPEC, sin_port = 0, sin_addr = 0\<rparr>;
          a4 = inet_pton4 hname; a6 = inet_pton6 os hname;
          fill = (\<lambda>a ip. case a of Some v \<Rightarrow> ip\<lparr>sin_addr := v\<rparr> | None \<Rightarrow> ip)
      in if inet_pton_rc a4 < 0 then
           (if inet_pton_rc a6 < 0 then (EAFNOSUPPORT, adr)
            else (0, (fill a6 adr)\<lparr>sa_family := AF_INET6, sin_port := 53\<rparr>))
         else (0, (fill a4 adr)\<lparr>sa_family := AF_INET, sin_port := 53\<rparr>))"

text \<open>The answers of the calls and the value of \<open>errno\<close> after one that failed.\<close>

record net_script =
  ns_socket :: int
  ns_sendto :: int
  ns_poll :: int
  ns_recvfrom :: "string option"
  ns_errno :: int

datatype net_call = Opened int | Sent int string sockaddr | Closed int

definition net_request :: "sockaddr \<Rightarrow> nat \<Rightarrow> string \<Rightarrow> net_script \<Rightarrow> (int \<times> string \<times> net_call list) option" where
  "net_request srvaddr dsize src sc =
     (let sock = ns_socket sc; err = ns_errno sc; opened = [Opened sock];
          sent = [Opened sock, Sent sock src srvaddr]; shut = [Closed sock]
      in if sa_family srvaddr = AF_UNSPEC then None
         else if sock < 0 then Some (err, [], [])
         else if ns_sendto sc < 0 then Some (err, [], opened @ shut)
         else if ns_poll sc < 0 then Some (err, [], sent @ shut)
         else if ns_poll sc = 0 then Some (ETIMEDOUT, [], sent @ shut)
         else case ns_recvfrom sc of
                None \<Rightarrow> Some (err, [], sent @ shut)
              | Some bytes \<Rightarrow> Some (0, take dsize bytes, sent @ shut))"

section \<open>The query program\<close>

record dig_options =
  serverhost :: string
  fdump :: bool
  fedns :: bool

text \<open>An unknown option and the help option end the program; the others are taken in their order.\<close>

fun dig_parse :: "(char \<times> string) list \<Rightarrow> dig_options \<Rightarrow> dig_options option" where
  "dig_parse [] dg = Some dg"
| "dig_parse ((rc, optarg) # rest) dg =
     (if rc = CHR ''s'' then dig_parse rest (dg\<lparr>serverhost := optarg\<rparr>)
      else if rc = CHR ''e'' then dig_parse rest (dg\<lparr>fedns := True\<rparr>)
      else if rc = CHR ''d'' then dig_parse rest (dg\<lparr>fdump := True\<rparr>)
      else if rc = NUL then dig_parse rest dg
      else None)"

definition dig_defaults :: dig_options where
  "dig_defaults = \<lparr>serverhost = ''127.0.0.1'', fdump = False, fedns = False\<rparr>"

text \<open>The source leaves the member \<open>fug\<close> unset; the encoder does not read it.\<close>

definition nsid_record :: dns_answer where
  "nsid_record = \<lparr>an_name = Some ''.'', an_type = RR_OPT, an_class = CLASS_UNKNOWN, an_ttl = 0,
     an_data = RD_OPT \<lparr>op_udp_payload = 1464, op_version = 0, op_fdo = False, op_fug = 0, op_z = 0,
       op_opts = [\<lparr>eo_code = EDNS0RR_NSID, eo_data = ''MY-DNS-SERVER-ID''\<rparr>]\<rparr>\<rparr>"

definition dig_query :: "bool \<Rightarrow> string \<Rightarrow> string \<Rightarrow> dns_query" where
  "dig_query edns hname type =
     \<lparr>dq_id = 1234, dq_query = True, dq_opcode = OP_QUERY, dq_aa = False, dq_tc = False, dq_rd = True, dq_ra = False,
      dq_z = False, dq_ad = False, dq_cd = False, dq_rcode = 0,
      dq_questions = [\<lparr>qu_name = Some hname, qu_type = dns_type_value type, qu_class = CLASS_IN\<rparr>],
      dq_answers = [], dq_nameservers = [], dq_additional = (if edns then [nsid_record] else [])\<rparr>"

definition DNS_DECODEBUF_8K :: nat where [simp]: "DNS_DECODEBUF_8K = 8192"

text \<open>
  The exit status, what was printed to standard output and what was done to the socket; \<open>stale\<close> is what the reply
  array held before, behind the bytes received.
\<close>

definition dig_main ::
  "os \<Rightarrow> (string \<Rightarrow> string) \<Rightarrow> (char \<times> string) list \<Rightarrow> string list \<Rightarrow> net_script \<Rightarrow> string \<Rightarrow> (int \<times> string \<times> net_call list) option" where
  "dig_main os ntop6 opts operands sc stale =
     (case (dig_parse opts dig_defaults, operands) of
        (None, _) \<Rightarrow> Some (1, [], [])
      | (Some dg, []) \<Rightarrow> Some (1, [], [])
      | (Some dg, hname # tys) \<Rightarrow> do {
          let ty = (case tys of [] \<Rightarrow> ''A'' | t # _ \<Rightarrow> t);
          (rc, request) \<leftarrow> dns_encode (os_fpu os) DNS_BUFFER_UDP (dig_query (fedns dg) hname ty);
          if rc \<noteq> RCODE_OKAY then Some (1, [], [])
          else do {
            out1 \<leftarrow> (if fdump dg then map_option (\<lambda>d. ''OUTGOING:'' @ [LF, LF] @ d) (dns_dump_memory request 0) else Some []);
            let (rs, server) = net_server os (serverhost dg);
            if rs \<noteq> 0 then Some (1, out1, [])
            else do {
              (rn, reply, calls) \<leftarrow> net_request server DNS_BUFFER_UDP request sc;
              if rn \<noteq> 0 then Some (1, out1, calls)
              else do {
                out2 \<leftarrow> (if fdump dg then map_option (\<lambda>d. [LF] @ ''INCOMING:'' @ [LF, LF] @ d) (dns_dump_memory reply 0) else Some []);
                r \<leftarrow> dns_decode_used (os_fpu os) DNS_DECODEBUF_8K (take DNS_BUFFER_UDP (reply @ stale)) (length reply);
                case r of
                  Inl e \<Rightarrow> Some (1, out1 @ out2, calls)
                | Inr (q, bufsize) \<Rightarrow> do {
                    let out3 = (if fdump dg then [LF] @ ''Bytes used: '' @ show_nat bufsize @ [LF, LF] else []);
                    out4 \<leftarrow> dns_print_result ntop6 q;
                    Some (0, out1 @ out2 @ out3 @ out4, calls) } } } } })"

section \<open>What they do\<close>

text \<open>
  Text that is no address is taken for the address 0.0.0.0, and an IPv6 server is never
  reached: the result of \<open>inet_pton\<close> is compared with the wrong value.
\<close>

lemma net_server_any: "net_server os hname = (0, \<lparr>sa_family = AF_INET, sin_port = 53, sin_addr = (case inet_pton4 hname of Some a \<Rightarrow> a | None \<Rightarrow> 0)\<rparr>)"
  by (simp add: net_server_def inet_pton_rc_def Let_def split: option.split)

definition sockets_balanced :: "net_call list \<Rightarrow> bool" where
  "sockets_balanced calls \<longleftrightarrow> (\<forall>f. length (filter (\<lambda>c. c = Opened f) calls) = length (filter (\<lambda>c. c = Closed f) calls))"

lemma net_request_result:
  assumes "net_request srv dsize src sc = Some (rc, reply, calls)" and "0 < ns_errno sc"
  shows "sockets_balanced calls \<and> length reply \<le> dsize
    \<and> (rc = 0 \<longleftrightarrow> 0 \<le> ns_socket sc \<and> 0 \<le> ns_sendto sc \<and> 0 < ns_poll sc \<and> ns_recvfrom sc \<noteq> None)"
  using assms
  by (auto simp: net_request_def Let_def sockets_balanced_def ETIMEDOUT_def split: if_split_asm option.split_asm)

text \<open>
  (C24) The query program prints what the server answered: when its question can be encoded and
  the server replies, in one datagram, with a message the codec handles, the program exits with
  success, has printed exactly the printed form of that message, and has closed the socket it
  opened, whatever the reply array held before.
\<close>

theorem dig_prints_reply:
  assumes "dig_parse opts dig_defaults = Some dg" and "\<not> fdump dg"
    and "dns_encode (os_fpu os) 512 (dig_query (fedns dg) hname ''A'') = Some (RCODE_OKAY, request)"
    and "0 \<le> ns_socket sc" and "0 \<le> ns_sendto sc" and "0 < ns_poll sc" and "ns_recvfrom sc = Some reply"
    and "dns_encode (os_fpu os) 512 m = Some (RCODE_OKAY, reply)" and "message_ok m" and "addresses_ok m" and "message_cost m < 8192"
  shows "\<exists>out calls. dns_print_result ntop6 m = Some out \<and> dig_main os ntop6 opts [hname] sc stale = Some (0, out, calls)
    \<and> Sent (ns_socket sc) request \<lparr>sa_family = AF_INET, sin_port = 53, sin_addr = (case inet_pton4 (serverhost dg) of Some a \<Rightarrow> a | None \<Rightarrow> 0)\<rparr> \<in> set calls
    \<and> sockets_balanced calls"
proof -
  let ?srv = "\<lparr>sa_family = AF_INET, sin_port = 53, sin_addr = (case inet_pton4 (serverhost dg) of Some a \<Rightarrow> a | None \<Rightarrow> 0)\<rparr>"
  let ?calls = "[Opened (ns_socket sc), Sent (ns_socket sc) request ?srv, Closed (ns_socket sc)]"
  have fits: "length reply \<le> 512" using encode_fits [OF assms(10,8)] by blast
  then have mem: "take 512 (reply @ stale) = reply @ take (512 - length reply) stale" by simp
  have i: "dns_decode (os_fpu os) 8192 (take 512 (reply @ stale)) (length reply) = Some (Inr m)"
    unfolding mem by (rule codec_inverse [OF assms(8,9)]) (use assms(11) in simp_all)
  then obtain x where x: "dns_decode_used (os_fpu os) 8192 (take 512 (reply @ stale)) (length reply) = Some x" "map_sum (\<lambda>e. e) fst x = Inr m"
    by (auto simp: dns_decode_def)
  then obtain n where d: "dns_decode_used (os_fpu os) 8192 (take 512 (reply @ stale)) (length reply) = Some (Inr (m, n))" by (cases x) auto
  obtain out where p: "dns_print_result ntop6 m = Some out" using print_result_total decode_typed [OF i] by blast
  have r: "net_request ?srv 512 request sc = Some (0, reply, ?calls)"
    using assms(4-7) fits by (simp add: net_request_def Let_def)
  have "dig_main os ntop6 opts [hname] sc stale = Some (0, out, ?calls)"
    using assms(1-3) r d p by (simp add: dig_main_def net_server_any del: take_append)
  moreover have "sockets_balanced ?calls" by (simp add: sockets_balanced_def)
  ultimately show ?thesis using p by auto
qed

definition sample_script :: net_script where
  "sample_script = \<lparr>ns_socket = 3, ns_sendto = 1, ns_poll = 1, ns_recvfrom = Some (snd (the (dns_encode fpu_zero 512 sample_message))), ns_errno = 1\<rparr>"

lemma dns_type_A: "dns_type_value ''A'' = 1"
proof -
  have "map toupper ''A'' = ''A''" by (simp add: toupper_def octet_def)
  then show ?thesis
    by (simp add: dns_type_value_def stoidef_lookup name_tables_sorted name_tables_clean) (simp add: cm_dns_type_is_def)
qed

lemma sample_reply: "dns_encode fpu_zero 512 sample_message = Some (RCODE_OKAY, snd (the (dns_encode fpu_zero 512 sample_message)))"
  by (simp add: sample_message_def encode_eval)

lemma sample_request:
  "\<exists>request. dns_encode fpu_zero 512 (dig_query False ''hn.local.'' ''A'') = Some (RCODE_OKAY, request)"
  by (simp add: dig_query_def dns_type_A encode_eval)

theorem dig_prints_reply_witness:
  "\<exists>out calls. dns_print_result (\<lambda>_. []) sample_message = Some out
     \<and> dig_main os_plain (\<lambda>_. []) [(CHR ''s'', ''10.0.0.1'')] [''hn.local.''] sample_script ''junk'' = Some (0, out, calls)"
proof -
  obtain request where q: "dns_encode fpu_zero 512 (dig_query False ''hn.local.'' ''A'') = Some (RCODE_OKAY, request)"
    using sample_request by blast
  let ?o = "\<lparr>serverhost = ''10.0.0.1'', fdump = False, fedns = False\<rparr>"
  have a: "addresses_ok sample_message" by (simp add: addresses_ok_def sample_message_def)
  have c: "message_cost sample_message < 8192" using sample_cost by simp
  have o: "dig_parse [(CHR ''s'', ''10.0.0.1'')] dig_defaults = Some ?o" by (simp add: dig_defaults_def)
  have f: "os_fpu os_plain = fpu_zero" by (simp add: os_plain_def)
  show ?thesis
    using dig_prints_reply [OF o _ _ _ _ _ _ _ sample_ok a c, of os_plain "''hn.local.''" request sample_script
        "snd (the (dns_encode fpu_zero 512 sample_message))" "\<lambda>_. []" "''junk''"] q sample_reply
    unfolding f by (auto simp: sample_script_def)
qed

end
