(* ===== verification/Spec2Isabelle.thy ===== *)
theory Spec2Isabelle
  imports Sha2_Tool Program_Tests Reverse_Correct Loop_Invariants Loop_Liveness Mdns_Correct Dns_Typed Dns_Tool
begin

text \<open>
  \<^bold>\<open>Homenet: a verification development.\<close>  Homenet (src/main.c, src/src, src/include, src/lib) makes
  TCP servers behind a router reachable through bridges.  A bridge accepts connections, relays
  them to a target or to a listener that registered with it, keeps registries of listeners and
  of connections that wait for a one-time password, authenticates peers by a SHA-512 challenge,
  and finds other bridges of the local network by multicast DNS.

  \<^bold>\<open>Conventions.\<close>  A function that can leave the defined part of C (null or freed pointer, access
  outside an object, unterminated string, failed assertion) returns an option; \<^term>\<open>None\<close> is that
  execution, so a statement that a result is \<^term>\<open>Some x\<close> includes the absence of such faults.  Return
  codes of the source are values.  All state is the record \<open>hn\<close>: two heaps (sockets, hn sockets),
  the configuration with the bridge context, the socket list, and the answers of the operating
  system still to come (chunks to be received, sizes accepted by \<open>write\<close>, accepted connections,
  datagrams, UDP sockets) with what the program has sent.  The record \<open>os\<close> has the other answers of the
  environment: clock, \<open>rand\<close>, name resolution, IPv6 address text, environment variables, the bytes
  that lie below a local array (read by \<open>str_endswith\<close>), and floating-point arithmetic.  These are
  parameters; no theorem assumes more about them than its statement says.

  \<^bold>\<open>Theories and sources.\<close>
  \<^item> \<open>HN_Prelude\<close>: memory blocks, C strings in blocks, generic lemmas.
  \<^item> \<open>CString\<close>, \<open>CString_Meaning\<close> (utils.c 1-240): the string routines cell by cell; the collection
    \<open>cstr_refine\<close> says what each computes on strings, \<open>str_endswith\<close> on short strings included.
  \<^item> \<open>CMap\<close> (utils.c 241-405): linked map and pointer list.  The locale \<open>dictionary\<close> is the interface
    used by the settings and registries, interpreted on the map of the source.
  \<^item> \<open>Ring_Buffer\<close> (utils.c 406-505): the write buffer with its index arithmetic.
  \<^item> \<open>Config_File\<close> (utils.c, \<open>readConfigFile\<close>) and \<open>Store\<close> (store.c 113-460): configuration file, environment
    and command line as sources of settings, typed getters, \<open>parseArgs\<close>, \<open>confInit\<close>.
  \<^item> \<open>Net_Misc\<close> (utils.c, netUtils.c): the printing routines as the text they write, and the routines
    without a caller that send datagrams and look up an interface.
  \<^item> \<open>Utils_Tests\<close>, \<open>Program_Tests\<close> (test/): the tests of the utilities, of the hash, of the configuration
    reader and of the address parser, the query and the loop body of the mDNS test, and the event
    handler of the server test, run on the model.
  \<^item> \<open>Sha2\<close>, \<open>Sha2_Transform\<close>, \<open>Sha2_Stream\<close>, \<open>Sha2_Correct\<close> (lib/sha/sha2.c): SHA-256, SHA-384, SHA-512, both forms
    of the transform, against the definitions of FIPS 180-4.  The locale \<open>block_hash\<close> has what the
    two families of streaming code share, from the update to the two shapes of the padding; it
    is interpreted for the contexts with 64-byte and with 128-byte blocks.
  \<^item> \<open>Sha2_Tool\<close> (lib/sha/sha2prog.c, and the hashing of sha2speed.c): the program that prints the
    hashes of a file, over the results of \<open>read\<close>.
  \<^item> \<open>HN_Types\<close>, \<open>Net_Socket\<close> (netUtils.c): the structs, addresses, buffered and blocking writes, reads,
    close, accept, connect, server sockets.
  \<^item> \<open>Auth\<close> (homeNet.c): codes, challenge, response, verification; the locale for the digest is
    interpreted on \<open>sha512_hex\<close>, which is the streaming interface of \<open>Sha2\<close>.
  \<^item> \<open>Http\<close> (httpUtils.c): request and response parsers and writers, the upgrade.
  \<^item> \<open>Protocol\<close>, \<open>Protocol_Correct\<close> (homeNet.c 219-412, store.c 19-112): framed messages, lifetime of hn
    sockets, listener and waiting registries, the authentication exchange over the wire.
  \<^item> \<open>Handshake\<close> (homeNet.c 416-771, 976-1049): following an hn URL, registration, reverse connection,
    query, retry policy, relays.
  \<^item> \<open>Dns_Types\<close>, \<open>Dns_Encode\<close>, \<open>Dns_Decode\<close>, \<open>Dns_Mappings\<close> (lib/dns/dns.h, codec.c, mappings.c): the codec with all
    record types, name compression, the result memory of the decoder and the assertions, which
    are compiled in; the name tables with their binary searches.
  \<^item> \<open>Dns_Names\<close>, \<open>Dns_Records\<close>, \<open>Dns_Correct\<close>: decoding inverts encoding, shown for names with their
    compression pointers, then for the record data by rules for the relation \<open>carries\<close> between a
    packet and what a reader returns, then for sections, by the locale \<open>item_codec\<close> that is
    interpreted for questions and for records, and for messages.
  \<^item> \<open>Dns_Bounds\<close>, \<open>Dns_Typed\<close>: the encoder stays inside the packet but for four bytes per location
    record, which the source writes without counting them; the decoder ends on names whose
    labels and pointers form a cycle, and returns well-typed messages.
  \<^item> \<open>Dns_Output\<close>, \<open>Dns_Tool\<close> (lib/dns/output.c, netsimple.c, dotest.c): printing of messages and memory
    dumps as text, one request over UDP, and the query program.
  \<^item> \<open>Mdns\<close>, \<open>Mdns_Correct\<close> (store.c 461-720, netUtils.c 570-690): queries, answers, the record store, the
    discovery of one bridge by another; the locale \<open>packet_codec\<close> is what mDNS uses of the codec.
  \<^item> \<open>Bridge\<close>, \<open>Relay_Correct\<close> (homeNet.c 1051-1537): \<open>handleNew\<close>, \<open>handleRead\<close>, \<open>handleClose\<close>, \<open>houseKeeping\<close>, \<open>processEvent\<close>.
  \<^item> \<open>Reverse_Correct\<close>: these handlers composed.  A listener registers, a client asks for it, the
    one-time password goes to the listener and comes back, and the two connections are relayed;
    which requests need an answer to a challenge; and the request that overruns an address.
  \<^item> \<open>Event_Loop\<close> (netUtils.c 426-542, homeNet.c 94-113, 772-975, 1538-1570, main.c): \<open>waitForEvent\<close> with its static
    variables, \<open>hn_loop\<close> and its step relation, the start functions and \<open>main\<close>.
  \<^item> \<open>State_Kept\<close>, \<open>Loop_Invariants\<close>: the locale \<open>kept\<close> names the primitive changes of the state; a predicate
    closed under them is kept by every operation, handler and round of the loop.  It is
    interpreted for the well-formedness of the registries and for the credentials.
  \<^item> \<open>Loop_Liveness\<close>: the event wait returns when the write buffers are empty, and the loop forwards
    what arrives on a relay.

  \<^bold>\<open>What the theorems show.\<close>  Data structures: the map is a finite map, the buffer and list behave as
  stated, their defects included.  Hashing: any chunking gives the FIPS digest, and the
  hash program prints it.  Authentication:
  honest responses are accepted, accepted ones prove the key, a replay needs a collision, and a
  bridge that asks for authentication relays only after it.  Transport: messages survive any
  chunking, relays forward in order, a one-time password works once.  Reverse connections: from the
  bytes of the two requests to the bytes relayed both ways.  Whole runs: registries
  stay maps and credentials never change.  Progress: with no unsent rests and no removal of the
  last socket, where the source hangs or faults, the wait ends on every script of \<open>select\<close>; a
  readable relay is served.  Settings: the documented order, where the code keeps it.  Discovery: codec round trip over all four sections, bounds, types,
  termination, and the exchange between two bridges.  Tools: decoded messages can be printed,
  dumps are complete, the query program prints what the server said.  Errors: inputs that fault or lose data,
  each with the branch of the code that does it.

  \<^bold>\<open>Loops, fuel and termination.\<close>  Loops over data are structural or have a termination proof by a
  measure (the length of the input left; for names the pointers left, at most 255, and then the
  bytes left).  Loops that depend on the peer consume the scripted answers of the system calls.
  The rounds of \<open>waitForEvent\<close> and \<open>hn_loop\<close> may go on for ever: they are partial functions, and
  the properties of whole runs are stated for the step relation \<open>loop_step\<close>.  That a call of
  \<open>waitForEvent\<close> returns is proved: the measure is the number of answers of \<open>select\<close> left (an
  exhausted script is a timeout), then of sockets about to die, then whether reports are left.
  The conditions are that the list is not empty, that its sockets are allocated and have
  nothing left to write, and that the socket to be freed is not the last of the list.

  \<^bold>\<open>Arithmetic.\<close>  Hashing works on words of 32 and 64 bits, the codec on bytes with the conversions
  of the source written out.  The item counter of a map is not bounded: it is an \<open>int\<close> in the
  source, which only insertions of new keys increment.

  \<^bold>\<open>Not modelled.\<close>  Log output of the bridge; the conversions of \<open>float\<close> in utils.c, which nothing
  calls, and \<open>sock_copy\<close>, which nothing calls either and whose two sockets would share a buffer that
  is a value here; the timing of sha2speed.c (floating point and the clock); the endless loops
  of the mDNS and server tests around the parts that are modelled; and the experiments under
  src/.ref, which are not built.  The options \<open>getopt_long\<close> returns are arguments of the query program.  The
  arithmetic on \<open>double\<close> in GPOS records is the parameter \<open>fpu\<close>.  Addresses of objects appear only
  where the code observes them: alignment of the decoder's result memory is tracked by its size
  alone, as the code does.
\<close>

end
